(* ===== verification/Forge_Prelude.thy ===== *)
theory Forge_Prelude
  imports Main "HOL-Library.AList" "HOL-Library.Sublist" "HOL-Library.List_Lexorder"
    "HOL-Library.Char_ord" "HOL-Library.Product_Lexorder"
begin

text \<open>
  Shared vocabulary of the development: results of code that may raise, Python's
  insertion-ordered dictionaries, Python's string operations and POSIX paths.

  \<^item> A Python \<open>str\<close> is a \<^typ>\<open>string\<close>: a list of code points below 256, so that
    \<open>lower\<close>, \<open>strip\<close> and \<open>isspace\<close> are Python's on that range.
  \<^item> A call that may raise returns \<open>('e, 'a) result\<close>: \<^term>\<open>Inl e\<close> is the exception,
    \<^term>\<open>Inr x\<close> the value.
  \<^item> A \<open>dict\<close> is an association list in insertion order: \<^const>\<open>map_of\<close> reads,
    \<^const>\<open>AList.update\<close> writes (in place for a known key, at the end otherwise).
  \<^item> A \<open>pathlib.PurePosixPath\<close> is its root and its segments.
\<close>

named_theorems result_iff \<open>when a step of a computation that may raise succeeds or fails\<close>
named_theorems dict_simps \<open>reading dictionaries that were just written\<close>

section \<open>Results\<close>

type_synonym ('e, 'a) result = "'e + 'a"

fun rbind :: "('e, 'a) result \<Rightarrow> ('a \<Rightarrow> ('e, 'b) result) \<Rightarrow> ('e, 'b) result" where
  "rbind (Inl e) f = Inl e"
| "rbind (Inr x) f = f x"

definition guard :: "bool \<Rightarrow> 'e \<Rightarrow> ('e, unit) result" where
  "guard b e = (if b then Inr () else Inl e)"

fun rmap :: "('a \<Rightarrow> ('e, 'b) result) \<Rightarrow> 'a list \<Rightarrow> ('e, 'b list) result" where
  "rmap f [] = Inr []"
| "rmap f (x # xs) = rbind (f x) (\<lambda>y. rbind (rmap f xs) (\<lambda>ys. Inr (y # ys)))"

fun rfold :: "('a \<Rightarrow> 's \<Rightarrow> ('e, 's) result) \<Rightarrow> 'a list \<Rightarrow> 's \<Rightarrow> ('e, 's) result" where
  "rfold f [] s = Inr s"
| "rfold f (x # xs) s = rbind (f x s) (rfold f xs)"

definition of_option :: "'e \<Rightarrow> 'a option \<Rightarrow> ('e, 'a) result" where
  "of_option e x = (case x of None \<Rightarrow> Inl e | Some y \<Rightarrow> Inr y)"

definition is_ok :: "('e, 'a) result \<Rightarrow> bool" where
  "is_ok r = (case r of Inl _ \<Rightarrow> False | Inr _ \<Rightarrow> True)"

lemma is_ok_simps [simp]: "is_ok (Inr x)" "\<not> is_ok (Inl e)"
  by (simp_all add: is_ok_def)

lemma is_ok_iff: "is_ok r \<longleftrightarrow> (\<exists>x. r = Inr x)"
  by (cases r) simp_all

lemma rbind_Inr_iff [result_iff]: "rbind m f = Inr y \<longleftrightarrow> (\<exists>x. m = Inr x \<and> f x = Inr y)"
  by (cases m) auto

lemma rbind_Inl_iff [result_iff]:
  "rbind m f = Inl e \<longleftrightarrow> m = Inl e \<or> (\<exists>x. m = Inr x \<and> f x = Inl e)"
  by (cases m) auto

lemma is_ok_rbind: "is_ok m \<Longrightarrow> (\<And>x. m = Inr x \<Longrightarrow> is_ok (f x)) \<Longrightarrow> is_ok (rbind m f)"
  by (cases m) simp_all

lemma guard_Inr_iff [result_iff]: "guard b e = Inr u \<longleftrightarrow> b"
  by (simp add: guard_def)

lemma guard_Inl_iff [result_iff]: "guard b e = Inl e' \<longleftrightarrow> \<not> b \<and> e' = e"
  by (auto simp: guard_def)

lemma guard_simps [simp]: "guard True e = Inr ()" "guard False e = Inl e"
  by (simp_all add: guard_def)

lemma of_option_simps [simp]: "of_option e None = Inl e" "of_option e (Some x) = Inr x"
  by (simp_all add: of_option_def)

lemma of_option_Inr_iff [result_iff]: "of_option e x = Inr y \<longleftrightarrow> x = Some y"
  by (cases x) auto

lemma of_option_Inl_iff [result_iff]: "of_option e x = Inl e' \<longleftrightarrow> x = None \<and> e' = e"
  by (cases x) auto

lemma rmap_Inr_iff [result_iff]:
  "rmap f xs = Inr ys \<longleftrightarrow> list_all2 (\<lambda>x y. f x = Inr y) xs ys"
  by (induction xs arbitrary: ys) (auto simp: rbind_Inr_iff list_all2_Cons1)

lemma rmap_total: "(\<And>x. x \<in> set xs \<Longrightarrow> f x = Inr (g x)) \<Longrightarrow> rmap f xs = Inr (map g xs)"
  by (induction xs) auto

lemma rmap_is_ok: "(\<And>x. x \<in> set xs \<Longrightarrow> \<exists>y. f x = Inr y) \<Longrightarrow> is_ok (rmap f xs)"
proof (induction xs)
  case (Cons x xs)
  then have "is_ok (rmap f xs)" "\<exists>y. f x = Inr y" by simp_all
  then show ?case by (auto simp: is_ok_iff)
qed simp

lemma rfold_append: "rfold f (xs @ ys) s = rbind (rfold f xs s) (rfold f ys)"
proof (induction xs arbitrary: s)
  case (Cons x xs)
  then show ?case by (cases "f x s") simp_all
qed simp

lemma rfold_invariant:
  assumes "rfold f xs s = Inr s'" and "P s"
    and "\<And>x s s'. x \<in> set xs \<Longrightarrow> P s \<Longrightarrow> f x s = Inr s' \<Longrightarrow> P s'"
  shows "P s'"
  using assms
proof (induction xs arbitrary: s)
  case (Cons x xs)
  then obtain t where "f x s = Inr t" "rfold f xs t = Inr s'"
    by (auto simp: rbind_Inr_iff)
  with Cons show ?case by (metis list.set_intros)
qed simp

section \<open>Dictionaries\<close>

text \<open>A dict comprehension \<open>{key(x): value(x) for x in xs}\<close>.\<close>

definition dict_comp :: "('a \<Rightarrow> 'k) \<Rightarrow> ('a \<Rightarrow> 'v) \<Rightarrow> 'a list \<Rightarrow> ('k \<times> 'v) list" where
  "dict_comp key val xs = fold (\<lambda>x d. AList.update (key x) (val x) d) xs []"

lemma map_of_update [dict_simps]: "map_of (AList.update k v d) k' = (if k' = k then Some v else map_of d k')"
  by (simp add: update_conv)

lemma map_of_fold_update:
  "map_of (fold (\<lambda>x d. AList.update (key x) (val x) d) xs d) k =
     (case map_of (rev (map (\<lambda>x. (key x, val x)) xs)) k of None \<Rightarrow> map_of d k | Some v \<Rightarrow> Some v)"
  by (induction xs arbitrary: d) (auto simp: dict_simps map_add_def split: option.splits)

lemma map_of_dict_comp:
  "map_of (dict_comp key val xs) k = map_of (rev (map (\<lambda>x. (key x, val x)) xs)) k"
  by (simp add: dict_comp_def map_of_fold_update split: option.split)

text \<open>With the values as they are, the last one of a key is found.\<close>

lemma map_of_dict_comp_find: "map_of (dict_comp key (\<lambda>x. x) xs) k = find (\<lambda>x. key x = k) (rev xs)"
proof -
  have "map_of (map (\<lambda>x. (key x, x)) ys) k = find (\<lambda>x. key x = k) ys" for ys by (induction ys) auto
  from this [of "rev xs"] show ?thesis by (simp add: map_of_dict_comp rev_map)
qed

lemma distinct_fold_update:
  "distinct (map fst d) \<Longrightarrow>
     distinct (map fst (fold (\<lambda>x d. AList.update (key x) (val x) d) xs d))"
  by (induction xs arbitrary: d) (auto simp: distinct_update)

lemma distinct_dict_comp: "distinct (map fst (dict_comp key val xs))"
  by (simp add: dict_comp_def distinct_fold_update)

lemma update_fresh: "k \<notin> fst ` set d \<Longrightarrow> AList.update k v d = d @ [(k, v)]"
  by (induction d) auto

lemma fold_update_fresh:
  "distinct (map key xs) \<Longrightarrow> key ` set xs \<inter> fst ` set d = {} \<Longrightarrow>
     fold (\<lambda>x d. AList.update (key x) (val x) d) xs d = d @ map (\<lambda>x. (key x, val x)) xs"
proof (induction xs arbitrary: d)
  case (Cons x xs)
  then have "AList.update (key x) (val x) d = d @ [(key x, val x)]"
    by (intro update_fresh) auto
  with Cons show ?case by simp
qed simp

lemma dict_comp_distinct:
  "distinct (map key xs) \<Longrightarrow> dict_comp key val xs = map (\<lambda>x. (key x, val x)) xs"
  by (simp add: dict_comp_def fold_update_fresh)

lemma dict_comp_SomeD: "map_of (dict_comp key val xs) k = Some v \<Longrightarrow> \<exists>x \<in> set xs. key x = k \<and> val x = v"
  by (auto simp: map_of_dict_comp dest!: map_of_SomeD)

lemma dict_comp_None_iff: "map_of (dict_comp key val xs) k = None \<longleftrightarrow> k \<notin> key ` set xs"
  by (auto simp: map_of_dict_comp map_of_eq_None_iff image_iff)

lemma set_fold_update_keys:
  "fst ` set (fold (\<lambda>x d. AList.update (key x) (val x) d) xs d) = fst ` set d \<union> key ` set xs"
  by (induction xs arbitrary: d) (auto simp: dom_update)

lemma set_dict_comp_keys: "fst ` set (dict_comp key val xs) = key ` set xs"
  by (simp add: dict_comp_def set_fold_update_keys)

text \<open>\<open>len(expected) != len(plan.steps)\<close>: the dict is shorter exactly when a key repeats.\<close>

lemma length_dict_comp: "length (dict_comp key val xs) = card (key ` set xs)"
  using distinct_card [OF distinct_dict_comp [of key val xs]] set_dict_comp_keys [of key val xs]
  by simp

lemma length_dict_comp_iff: "length (dict_comp key val xs) = length xs \<longleftrightarrow> distinct (map key xs)"
  by (metis card_distinct distinct_card length_dict_comp length_map list.set_map)

section \<open>Characters and strings\<close>

definition cp :: "char \<Rightarrow> nat" where "cp c = of_char c"

definition in_range :: "nat \<Rightarrow> nat \<Rightarrow> char \<Rightarrow> bool" where
  "in_range lo hi c \<longleftrightarrow> lo \<le> cp c \<and> cp c \<le> hi"

abbreviation is_lower :: "char \<Rightarrow> bool" where "is_lower \<equiv> in_range 97 122"
abbreviation is_upper :: "char \<Rightarrow> bool" where "is_upper \<equiv> in_range 65 90"
abbreviation is_digit :: "char \<Rightarrow> bool" where "is_digit \<equiv> in_range 48 57"

text \<open>\<open>str.isspace\<close> on code points below 256.\<close>

definition py_isspace :: "char \<Rightarrow> bool" where
  "py_isspace c \<longleftrightarrow> in_range 9 13 c \<or> in_range 28 32 c \<or> cp c = 133 \<or> cp c = 160"

text \<open>\<open>str.lower\<close>: the ASCII capitals and the Latin-1 capitals move up by 32.\<close>

definition lower_char :: "char \<Rightarrow> char" where
  "lower_char c =
     (if is_upper c \<or> (in_range 192 222 c \<and> cp c \<noteq> 215) then char_of (cp c + 32) else c)"

definition py_lower :: "string \<Rightarrow> string" where
  "py_lower s = map lower_char s"

definition py_strip :: "string \<Rightarrow> string" where
  "py_strip s = rev (dropWhile py_isspace (rev (dropWhile py_isspace s)))"

text \<open>\<open>s.rstrip(chars)\<close> for a single character.\<close>

definition rstrip_char :: "char \<Rightarrow> string \<Rightarrow> string" where
  "rstrip_char c s = rev (dropWhile (\<lambda>x. x = c) (rev s))"

definition strip_char :: "char \<Rightarrow> string \<Rightarrow> string" where
  "strip_char c s = rstrip_char c (dropWhile (\<lambda>x. x = c) s)"

text \<open>\<open>s.partition(c)\<close> without its separator component: the part before the first
  \<open>c\<close> and, when there is one, the part after it.\<close>

fun partition_at :: "char \<Rightarrow> string \<Rightarrow> string \<times> string option" where
  "partition_at c [] = ([], None)"
| "partition_at c (x # s) =
     (if x = c then ([], Some s)
      else let (a, b) = partition_at c s in (x # a, b))"

text \<open>\<open>s.split(c, 1)[0]\<close> and \<open>s.rsplit(c, 1)[-1]\<close>.\<close>

definition before_first :: "char \<Rightarrow> string \<Rightarrow> string" where
  "before_first c s = takeWhile (\<lambda>x. x \<noteq> c) s"

definition after_last :: "char \<Rightarrow> string \<Rightarrow> string" where
  "after_last c s = rev (takeWhile (\<lambda>x. x \<noteq> c) (rev s))"

text \<open>\<open>s.rsplit(c, 1)[0]\<close> when \<open>c\<close> occurs in \<open>s\<close>.\<close>

definition before_last :: "char \<Rightarrow> string \<Rightarrow> string" where
  "before_last c s = rev (tl (dropWhile (\<lambda>x. x \<noteq> c) (rev s)))"

fun split_on :: "char \<Rightarrow> string \<Rightarrow> string list" where
  "split_on c [] = [[]]"
| "split_on c (x # s) =
     (if x = c then [] # split_on c s
      else case split_on c s of [] \<Rightarrow> [[x]] | w # ws \<Rightarrow> (x # w) # ws)"

fun join_with :: "string \<Rightarrow> string list \<Rightarrow> string" where
  "join_with sep [] = []"
| "join_with sep [w] = w"
| "join_with sep (w # ws) = w @ sep @ join_with sep ws"

definition removesuffix :: "string \<Rightarrow> string \<Rightarrow> string" where
  "removesuffix s suf = (if suffix suf s \<and> suf \<noteq> [] then take (length s - length suf) s else s)"

lemma split_on_not_Nil [simp]: "split_on c s \<noteq> []"
  by (induction s) (auto split: list.splits)

lemma split_on_free: "c \<notin> set s \<Longrightarrow> split_on c s = [s]"
  by (induction s) auto

lemma split_on_sep_free: "w \<in> set (split_on c s) \<Longrightarrow> c \<notin> set w"
  by (induction s arbitrary: w) (auto split: list.splits if_splits)

lemma split_on_append_sep:
  "c \<notin> set w \<Longrightarrow> split_on c (w @ c # s) = w # split_on c s"
  by (induction w) auto

lemma join_split: "join_with [c] (split_on c s) = s"
proof (induction s)
  case (Cons x s)
  show ?case
  proof (cases "split_on c s")
    case Nil
    then show ?thesis by simp
  next
    case (Cons w ws)
    with \<open>join_with [c] (split_on c s) = s\<close> show ?thesis by (cases ws) auto
  qed
qed simp

lemma split_join:
  "ws \<noteq> [] \<Longrightarrow> \<forall>w \<in> set ws. c \<notin> set w \<Longrightarrow> split_on c (join_with [c] ws) = ws"
proof (induction "[c]" ws rule: join_with.induct)
  case (3 w v vs)
  then show ?case by (simp add: split_on_append_sep)
qed (auto simp: split_on_free)

lemma before_after_last:
  assumes "c \<in> set s" shows "s = before_last c s @ c # after_last c s"
proof -
  let ?t = "takeWhile (\<lambda>x. x \<noteq> c) (rev s)" and ?d = "dropWhile (\<lambda>x. x \<noteq> c) (rev s)"
  from assms have "?d \<noteq> []" by (simp add: dropWhile_eq_Nil_conv)
  then have d: "?d = c # tl ?d"
    by (metis (mono_tags, lifting) hd_dropWhile list.collapse)
  have "rev s = ?t @ ?d" by simp
  then have "s = rev ?d @ rev ?t" by (metis rev_append rev_rev_ident)
  also have "rev ?d = rev (tl ?d) @ [c]" by (subst d) simp
  finally show ?thesis by (simp add: before_last_def after_last_def)
qed

lemma after_last_free: "c \<notin> set (after_last c s)"
  by (auto simp: after_last_def dest: set_takeWhileD)

lemma after_last_append: "c \<notin> set t \<Longrightarrow> after_last c (s @ c # t) = t"
  by (simp add: after_last_def takeWhile_append)

lemma before_last_append: "c \<notin> set t \<Longrightarrow> before_last c (s @ c # t) = s"
  by (simp add: before_last_def dropWhile_append)

section \<open>POSIX paths\<close>

text \<open>
  \<open>pathlib.PurePosixPath\<close>: the root (empty, \<open>/\<close>, or \<open>//\<close> for exactly two leading slashes)
  and the segments, from which empty segments and \<open>.\<close> are dropped.
\<close>

datatype path = Path (path_root: string) (path_segs: "string list")

definition parse_root :: "string \<Rightarrow> string" where
  "parse_root s = (if prefix ''//'' s \<and> \<not> prefix ''///'' s then ''//''
     else if prefix ''/'' s then ''/'' else [])"

definition parse_path :: "string \<Rightarrow> path" where
  "parse_path s = Path (parse_root s) (filter (\<lambda>w. w \<noteq> [] \<and> w \<noteq> ''.'') (split_on (CHR ''/'') s))"

text \<open>\<open>p / s\<close>: an absolute right operand replaces the left one.\<close>

definition path_join :: "path \<Rightarrow> string \<Rightarrow> path" where
  "path_join p s = (let q = parse_path s in
     if path_root q \<noteq> [] then q else Path (path_root p) (path_segs p @ path_segs q))"

definition path_parts :: "path \<Rightarrow> string list" where
  "path_parts p = (if path_root p = [] then path_segs p else path_root p # path_segs p)"

definition path_str :: "path \<Rightarrow> string" where
  "path_str p = (if path_root p = [] \<and> path_segs p = [] then ''.''
     else path_root p @ join_with ''/'' (path_segs p))"

text \<open>\<open>p.relative_to(base)\<close>; \<open>None\<close> is its \<open>ValueError\<close>.\<close>

definition relative_to :: "path \<Rightarrow> path \<Rightarrow> string list option" where
  "relative_to p base =
     (if path_root p = path_root base \<and> prefix (path_segs base) (path_segs p)
      then Some (drop (length (path_segs base)) (path_segs p)) else None)"

text \<open>A string that is one path segment: joining it appends exactly that segment.\<close>

definition is_segment :: "string \<Rightarrow> bool" where
  "is_segment s \<longleftrightarrow> s \<noteq> [] \<and> s \<noteq> ''.'' \<and> CHR ''/'' \<notin> set s"

lemma parse_root_segment: "CHR ''/'' \<notin> set s \<Longrightarrow> parse_root s = []"
  by (cases s) (auto simp: parse_root_def)

lemma path_join_segment [simp]:
  "is_segment s \<Longrightarrow> path_join (Path r ss) s = Path r (ss @ [s])"
  by (simp add: path_join_def parse_path_def is_segment_def split_on_free parse_root_segment)

lemma relative_to_join [simp]: "relative_to (Path r (ss @ ts)) (Path r ss) = Some ts"
  by (simp add: relative_to_def)

lemma relative_to_Some_iff:
  "relative_to p base = Some ts \<longleftrightarrow> p = Path (path_root base) (path_segs base @ ts)"
  by (cases p; cases base) (auto simp: relative_to_def prefix_def)

text \<open>The paths \<open>pathlib\<close> builds: parsing never yields anything else, and printing one is
  undone by parsing.\<close>

definition wf_path :: "path \<Rightarrow> bool" where
  "wf_path p \<longleftrightarrow> path_root p \<in> {[], ''/'', ''//''} \<and> (\<forall>w \<in> set (path_segs p). is_segment w)"

lemma wf_parse_path: "wf_path (parse_path s)"
  by (auto simp: wf_path_def parse_path_def parse_root_def is_segment_def dest: split_on_sep_free)

lemma split_on_join_segments:
  assumes "\<forall>w \<in> set ws. is_segment w"
  shows "filter (\<lambda>w. w \<noteq> [] \<and> w \<noteq> ''.'') (split_on (CHR ''/'') (join_with ''/'' ws)) = ws"
proof (cases "ws = []")
  case False
  with assms have "split_on (CHR ''/'') (join_with ''/'' ws) = ws"
    by (intro split_join) (auto simp: is_segment_def)
  with assms show ?thesis by (simp add: filter_id_conv is_segment_def)
qed simp

lemma join_segments_hd:
  assumes "\<forall>w \<in> set ws. is_segment w"
  shows "\<not> prefix ''/'' (join_with ''/'' ws)"
  using assms by (induction "''/''" ws rule: join_with.induct) (auto simp: is_segment_def neq_Nil_conv)

lemma parse_path_str: assumes "wf_path p" shows "parse_path (path_str p) = p"
proof (cases p)
  case (Path r ws)
  with assms have ws: "\<forall>w \<in> set ws. is_segment w" and r: "r = [] \<or> r = ''/'' \<or> r = ''//''"
    by (auto simp: wf_path_def)
  show ?thesis
  proof (cases "r = [] \<and> ws = []")
    case True
    then show ?thesis by (simp add: Path path_str_def parse_path_def parse_root_def)
  next
    case False
    then have str: "path_str (Path r ws) = r @ join_with ''/'' ws" by (auto simp: path_str_def)
    have "parse_root (r @ join_with ''/'' ws) = r"
      using r join_segments_hd [OF ws] by (cases "join_with ''/'' ws") (auto simp: parse_root_def)
    moreover have "filter (\<lambda>w. w \<noteq> [] \<and> w \<noteq> ''.'') (split_on (CHR ''/'') (r @ join_with ''/'' ws)) = ws"
      using r split_on_join_segments [OF ws] by auto
    ultimately show ?thesis by (simp add: Path str parse_path_def)
  qed
qed

lemma path_str_inject: "wf_path p \<Longrightarrow> wf_path q \<Longrightarrow> path_str p = path_str q \<longleftrightarrow> p = q"
  by (metis parse_path_str)

end
