(* ===== verification/Json.thy ===== *)
theory Json
  imports Forge_Prelude
begin

text \<open>
  The part of Python's \<open>json\<close> module the sources use: \<open>json.dumps(v, sort_keys=True, \<dots>)\<close> in
  its compact form (\<open>separators=(",", ":")\<close>) and its indented form (\<open>indent=2\<close>), both with
  \<open>ensure_ascii\<close>, and \<open>json.loads\<close>. Numbers with a fraction or an exponent are kept as their
  lexeme: the sources never look inside one. \<open>loads_dumps\<close> is the round trip.
\<close>

datatype json =
    JNull
  | JBool bool
  | JInt int
  | JFloat string
  | JStr string
  | JArr "json list"
  | JObj "(string \<times> json) list"

section \<open>Printing\<close>

definition hex_digit :: "nat \<Rightarrow> char" where
  "hex_digit n = (if n < 10 then char_of (48 + n) else char_of (87 + n))"

definition escape_char :: "char \<Rightarrow> string" where
  "escape_char c =
     (if c = CHR 0x22 then [CHR 0x5C, CHR 0x22]
      else if c = CHR 0x5C then [CHR 0x5C, CHR 0x5C]
      else if in_range 32 126 c then [c]
      else if cp c = 10 then [CHR 0x5C, CHR ''n'']
      else if cp c = 13 then [CHR 0x5C, CHR ''r'']
      else if cp c = 9 then [CHR 0x5C, CHR ''t'']
      else if cp c = 12 then [CHR 0x5C, CHR ''f'']
      else if cp c = 8 then [CHR 0x5C, CHR ''b'']
      else [CHR 0x5C, CHR ''u'', CHR ''0'', CHR ''0'', hex_digit (cp c div 16), hex_digit (cp c mod 16)])"

definition json_string :: "string \<Rightarrow> string" where
  "json_string s = [CHR 0x22] @ concat (map escape_char s) @ [CHR 0x22]"

fun nat_str :: "nat \<Rightarrow> string" where
  "nat_str n = (if n < 10 then [char_of (48 + n)] else nat_str (n div 10) @ [char_of (48 + n mod 10)])"

declare nat_str.simps [simp del]

definition int_str :: "int \<Rightarrow> string" where
  "int_str i = (if i < 0 then CHR ''-'' # nat_str (nat (- i)) else nat_str (nat i))"

text \<open>\<open>newline_indent\<close>: nothing in the compact form.\<close>

definition newline :: "bool \<Rightarrow> nat \<Rightarrow> string" where
  "newline ind lvl = (if ind then CHR 0x0A # replicate (2 * lvl) CHR 0x20 else [])"

definition key_sep :: "bool \<Rightarrow> string" where
  "key_sep ind = (if ind then '': '' else '':'')"

fun render :: "bool \<Rightarrow> nat \<Rightarrow> json \<Rightarrow> string"
  and render_elems :: "bool \<Rightarrow> nat \<Rightarrow> json list \<Rightarrow> string"
  and render_members :: "bool \<Rightarrow> nat \<Rightarrow> (string \<times> json) list \<Rightarrow> string" where
  "render ind lvl JNull = ''null''"
| "render ind lvl (JBool b) = (if b then ''true'' else ''false'')"
| "render ind lvl (JInt i) = int_str i"
| "render ind lvl (JFloat s) = s"
| "render ind lvl (JStr s) = json_string s"
| "render ind lvl (JArr vs) = (if vs = [] then ''[]''
     else ''['' @ newline ind (Suc lvl) @ render_elems ind (Suc lvl) vs @ newline ind lvl @ '']'')"
| "render ind lvl (JObj kvs) = (if kvs = [] then ''{}''
     else ''{'' @ newline ind (Suc lvl) @ render_members ind (Suc lvl) kvs @ newline ind lvl @ ''}'')"
| "render_elems ind lvl [] = []"
| "render_elems ind lvl (v # vs) = render ind lvl v
     @ (if vs = [] then [] else '','' @ newline ind lvl @ render_elems ind lvl vs)"
| "render_members ind lvl [] = []"
| "render_members ind lvl ((k, v) # kvs) = json_string k @ key_sep ind @ render ind lvl v
     @ (if kvs = [] then [] else '','' @ newline ind lvl @ render_members ind lvl kvs)"

text \<open>\<open>sort_keys=True\<close>: the items of every object in the order of their keys.\<close>

fun sort_json :: "json \<Rightarrow> json"
  and sort_members :: "(string \<times> json) list \<Rightarrow> (string \<times> json) list" where
  "sort_json (JArr vs) = JArr (map sort_json vs)"
| "sort_json (JObj kvs) = JObj (sort_key fst (sort_members kvs))"
| "sort_json v = v"
| "sort_members [] = []"
| "sort_members ((k, v) # kvs) = (k, sort_json v) # sort_members kvs"

definition json_dumps :: "bool \<Rightarrow> json \<Rightarrow> string" where
  "json_dumps ind v = render ind 0 (sort_json v)"

section \<open>Parsing\<close>

fun skip_ws :: "string \<Rightarrow> string" where
  "skip_ws [] = []"
| "skip_ws (c # s) = (if cp c \<in> set [32, 9, 10, 13] then skip_ws s else c # s)"

definition hex_val :: "char \<Rightarrow> nat option" where
  "hex_val c = (if is_digit c then Some (cp c - 48)
     else if in_range 97 102 c then Some (cp c - 87)
     else if in_range 65 70 c then Some (cp c - 55) else None)"

definition unescape :: "char \<Rightarrow> char option" where
  "unescape c = map_of [(CHR 0x22, CHR 0x22), (CHR 0x5C, CHR 0x5C), (CHR ''/'', CHR ''/''),
     (CHR ''n'', CHR 0x0A), (CHR ''r'', CHR 0x0D), (CHR ''t'', CHR 0x09),
     (CHR ''f'', CHR 0x0C), (CHR ''b'', CHR 0x08)] c"

text \<open>The rest of a string literal, after the opening quote. A \<open>\u\<close> escape above 255 is
  outside the character range of the model.\<close>

fun p_string :: "string \<Rightarrow> (string \<times> string) option" where
  "p_string [] = None"
| "p_string (c # s) =
     (if c = CHR 0x22 then Some ([], s)
      else if c = CHR 0x5C then
        (case s of
           e # t \<Rightarrow>
             if e = CHR ''u'' then
               (case t of
                  a # b # x # y # u \<Rightarrow>
                    (case (hex_val a, hex_val b, hex_val x, hex_val y) of
                       (Some 0, Some 0, Some m, Some n) \<Rightarrow>
                         map_option (\<lambda>(w, r). (char_of (16 * m + n) # w, r)) (p_string u)
                     | _ \<Rightarrow> None)
                | _ \<Rightarrow> None)
             else (case unescape e of
                     None \<Rightarrow> None
                   | Some d \<Rightarrow> map_option (\<lambda>(w, r). (d # w, r)) (p_string t))
         | [] \<Rightarrow> None)
      else if cp c < 32 then None
      else map_option (\<lambda>(w, r). (c # w, r)) (p_string s))"

fun digits_int :: "int \<Rightarrow> string \<Rightarrow> int" where
  "digits_int acc [] = acc"
| "digits_int acc (c # s) = digits_int (10 * acc + int (cp c - 48)) s"

text \<open>\<open>(-?(?:0|[1-9]\d*))(\.\d+)?([eE][-+]?\d+)?\<close>.\<close>

definition p_frac :: "string \<Rightarrow> string \<times> string" where
  "p_frac s = (case s of c # t \<Rightarrow> if c = CHR ''.'' \<and> takeWhile is_digit t \<noteq> []
       then (c # takeWhile is_digit t, dropWhile is_digit t) else ([], s) | [] \<Rightarrow> ([], s))"

definition p_exp :: "string \<Rightarrow> string \<times> string" where
  "p_exp s = (case s of c # t \<Rightarrow> if c = CHR ''e'' \<or> c = CHR ''E'' then
        (let (sg, u) = (case t of d # u \<Rightarrow> if d = CHR ''+'' \<or> d = CHR ''-'' then ([d], u) else ([], t)
                         | [] \<Rightarrow> ([], t)) in
         if takeWhile is_digit u \<noteq> [] then (c # sg @ takeWhile is_digit u, dropWhile is_digit u) else ([], s))
       else ([], s) | [] \<Rightarrow> ([], s))"

definition p_number :: "string \<Rightarrow> (json \<times> string) option" where
  "p_number s =
     (let (sg, t) = (case s of c # u \<Rightarrow> if c = CHR ''-'' then ([c], u) else ([], s) | [] \<Rightarrow> ([], s));
          ds = (case t of c # u \<Rightarrow> if c = CHR ''0'' then [c] else takeWhile is_digit t | [] \<Rightarrow> []);
          r = drop (length ds) t;
          (fr, r1) = p_frac r;
          (ex, r2) = p_exp r1 in
      if ds = [] then None
      else if fr = [] \<and> ex = [] then Some (JInt (if sg = [] then digits_int 0 ds else - digits_int 0 ds), r)
      else Some (JFloat (sg @ ds @ fr @ ex), r2))"

definition literals :: "(string \<times> json) list" where
  "literals = [(''null'', JNull), (''true'', JBool True), (''false'', JBool False),
     (''NaN'', JFloat ''NaN''), (''Infinity'', JFloat ''Infinity''), (''-Infinity'', JFloat ''-Infinity'')]"

definition p_atom :: "string \<Rightarrow> (json \<times> string) option" where
  "p_atom s = (case find (\<lambda>(w, _). prefix w s) literals of
      Some (w, v) \<Rightarrow> Some (v, drop (length w) s)
    | None \<Rightarrow> p_number s)"

text \<open>Values, and the tails of non-empty arrays and objects. The fuel bounds the nesting.\<close>

fun p_value :: "nat \<Rightarrow> string \<Rightarrow> (json \<times> string) option"
  and p_elems :: "nat \<Rightarrow> string \<Rightarrow> (json list \<times> string) option"
  and p_members :: "nat \<Rightarrow> string \<Rightarrow> ((string \<times> json) list \<times> string) option" where
  "p_value 0 s = None"
| "p_value (Suc n) [] = None"
| "p_value (Suc n) (c # s) =
     (if c = CHR 0x22 then map_option (\<lambda>(w, r). (JStr w, r)) (p_string s)
      else if c = CHR ''['' then
        (case skip_ws s of [] \<Rightarrow> None
         | d # t \<Rightarrow> if d = CHR '']'' then Some (JArr [], t)
                    else map_option (\<lambda>(vs, r). (JArr vs, r)) (p_elems n (d # t)))
      else if c = CHR ''{'' then
        (case skip_ws s of [] \<Rightarrow> None
         | d # t \<Rightarrow> if d = CHR ''}'' then Some (JObj [], t)
                    else map_option (\<lambda>(kvs, r). (JObj (dict_comp fst snd kvs), r)) (p_members n (d # t)))
      else p_atom (c # s))"
| "p_elems 0 s = None"
| "p_elems (Suc n) s =
     (case p_value n s of None \<Rightarrow> None
      | Some (v, r) \<Rightarrow>
          (case skip_ws r of [] \<Rightarrow> None
           | d # t \<Rightarrow> if d = CHR '']'' then Some ([v], t)
                      else if d = CHR '','' then map_option (\<lambda>(vs, u). (v # vs, u)) (p_elems n (skip_ws t))
                      else None))"
| "p_members 0 s = None"
| "p_members (Suc n) s =
     (case s of [] \<Rightarrow> None
      | q # s' \<Rightarrow> if q \<noteq> CHR 0x22 then None
          else (case p_string s' of None \<Rightarrow> None
           | Some (k, r) \<Rightarrow>
              (case skip_ws r of [] \<Rightarrow> None
               | d # t \<Rightarrow> if d \<noteq> CHR '':'' then None
                  else (case p_value n (skip_ws t) of None \<Rightarrow> None
                    | Some (v, r') \<Rightarrow>
                       (case skip_ws r' of [] \<Rightarrow> None
                        | e # u \<Rightarrow> if e = CHR ''}'' then Some ([(k, v)], u)
                            else if e = CHR '','' then
                              map_option (\<lambda>(kvs, w). ((k, v) # kvs, w)) (p_members n (skip_ws u))
                            else None)))))"

text \<open>\<open>json.loads\<close>; \<open>None\<close> is \<open>JSONDecodeError\<close>. Each nesting level and each separator takes
  at most two units of fuel and at least one character.\<close>

definition json_loads :: "string \<Rightarrow> json option" where
  "json_loads s =
     (case p_value (2 * length s + 2) (skip_ws s) of
        Some (v, r) \<Rightarrow> if skip_ws r = [] then Some v else None
      | None \<Rightarrow> None)"

section \<open>Round trip\<close>

fun wf_json :: "json \<Rightarrow> bool"
  and wf_members :: "(string \<times> json) list \<Rightarrow> bool" where
  "wf_json (JFloat s) = False"
| "wf_json (JArr vs) = list_all wf_json vs"
| "wf_json (JObj kvs) = (distinct (map fst kvs) \<and> wf_members kvs)"
| "wf_json v = True"
| "wf_members [] = True"
| "wf_members ((k, v) # kvs) = (wf_json v \<and> wf_members kvs)"

lemma cp_char_of [simp]: "n < 256 \<Longrightarrow> cp (char_of n) = n"
  by (simp add: cp_def)

lemma cp_less [simp]: "cp c < 256"
  by (simp add: cp_def)

lemma char_of_cp [simp]: "char_of (cp c) = c"
  by (simp add: cp_def)

lemma hex_val_digit [simp]: "n < 16 \<Longrightarrow> hex_val (hex_digit n) = Some n"
  by (auto simp: hex_val_def hex_digit_def in_range_def)

lemma cp_eq_iff: "cp c = cp d \<longleftrightarrow> c = d"
  by (metis char_of_cp)

lemma control_char:
  "cp c = 8 \<Longrightarrow> c = CHR 0x08" "cp c = 9 \<Longrightarrow> c = CHR 0x09" "cp c = 10 \<Longrightarrow> c = CHR 0x0A"
  "cp c = 12 \<Longrightarrow> c = CHR 0x0C" "cp c = 13 \<Longrightarrow> c = CHR 0x0D"
  by (simp_all add: cp_eq_iff [symmetric] cp_def)

lemma p_string_escape:
  "p_string (escape_char c @ s) = map_option (\<lambda>(w, r). (c # w, r)) (p_string s)"
proof -
  have hv: "hex_val CHR ''0'' = Some 0" by (simp add: hex_val_def in_range_def cp_def)
  have div: "cp c div 16 < 16" using cp_less [of c] by linarith
  show ?thesis
    by (auto simp: escape_char_def unescape_def in_range_def hv div
        dest!: control_char split: option.splits)
qed

lemma p_string_json: "p_string (concat (map escape_char s) @ CHR 0x22 # r) = Some (s, r)"
  by (induction s) (simp_all add: p_string_escape)

lemma nat_str_neq_Nil [simp]: "nat_str n \<noteq> []"
  by (subst nat_str.simps) simp

lemma nat_str_digits: "list_all is_digit (nat_str n)"
proof (induction n rule: nat_str.induct)
  case (1 n)
  have "is_digit (char_of (48 + m))" if "m < 10" for m :: nat
    using that by (simp add: in_range_def)
  with 1 show ?case by (subst nat_str.simps) auto
qed

lemma digits_int_append: "digits_int acc (s @ [c]) = 10 * digits_int acc s + int (cp c - 48)"
  by (induction s arbitrary: acc) simp_all

lemma digits_int_nat_str: "digits_int 0 (nat_str n) = int n"
proof (induction n rule: nat_str.induct)
  case (1 n)
  show ?case
  proof (cases "n < 10")
    case True
    then show ?thesis by (subst nat_str.simps) simp
  next
    case False
    moreover from False 1 have "digits_int 0 (nat_str (n div 10)) = int (n div 10)" by simp
    moreover have "n mod 10 < 10" by simp
    moreover have "10 * int (n div 10) + int (n mod 10) = int n" by (simp add: zdiv_int zmod_int)
    ultimately show ?thesis by (subst nat_str.simps) (simp add: digits_int_append)
  qed
qed

lemma nat_str_hd_zero: "hd (nat_str n) = CHR ''0'' \<longleftrightarrow> n = 0"
proof (induction n rule: nat_str.induct)
  case (1 n)
  show ?case
  proof (cases "n < 10")
    case True
    then have "char_of (48 + n) = CHR ''0'' \<longleftrightarrow> cp (char_of (48 + n)) = cp CHR ''0''"
      by (metis char_of_cp)
    also have "\<dots> \<longleftrightarrow> n = 0" using True by (simp add: cp_def [of "CHR ''0''"])
    finally show ?thesis using True by (subst nat_str.simps) simp
  next
    case False
    with 1 show ?thesis by (subst nat_str.simps) auto
  qed
qed

text \<open>What may follow a number without changing it.\<close>

definition num_end :: "string \<Rightarrow> bool" where
  "num_end r \<longleftrightarrow> (case r of [] \<Rightarrow> True
     | c # _ \<Rightarrow> \<not> is_digit c \<and> c \<noteq> CHR ''.'' \<and> c \<noteq> CHR ''e'' \<and> c \<noteq> CHR ''E'')"

lemma takeWhile_nat_str: "num_end r \<Longrightarrow> takeWhile is_digit (nat_str n @ r) = nat_str n"
proof -
  assume r: "num_end r"
  have "takeWhile is_digit (nat_str n @ r) = nat_str n @ takeWhile is_digit r"
    using nat_str_digits [of n] by (intro takeWhile_append2) (simp add: list_all_iff)
  also have "takeWhile is_digit r = []" using r by (cases r) (auto simp: num_end_def)
  finally show ?thesis by simp
qed

lemma is_digit_not: "is_digit c \<Longrightarrow> c \<noteq> CHR ''-'' \<and> c \<notin> set [CHR 0x22, CHR ''['', CHR ''{'', CHR ''n'', CHR ''t'',
    CHR ''f'', CHR ''N'', CHR ''I'']"
  by (auto simp: in_range_def cp_def)

lemma num_end_frac_exp: "num_end r \<Longrightarrow> p_frac r = ([], r) \<and> p_exp r = ([], r)"
  by (cases r) (auto simp: num_end_def p_frac_def p_exp_def)

lemma p_number_int_str:
  assumes r: "num_end r" shows "p_number (int_str i @ r) = Some (JInt i, r)"
proof -
  have unsigned: "(case nat_str n @ r of c # u \<Rightarrow> if c = CHR ''0'' then [c] else takeWhile is_digit (nat_str n @ r)
      | [] \<Rightarrow> []) = nat_str n" for n
  proof (cases "n = 0")
    case True
    then have "nat_str n = ''0''" by (simp add: nat_str.simps [of 0] cp_eq_iff [symmetric] cp_def)
    then show ?thesis by simp
  next
    case False
    then have "hd (nat_str n) \<noteq> CHR ''0''" by (simp add: nat_str_hd_zero)
    then show ?thesis
      using takeWhile_nat_str [OF r, of n] nat_str_neq_Nil [of n] by (cases "nat_str n") auto
  qed
  obtain c t where ct: "nat_str n = c # t" "c \<noteq> CHR ''-''" if "n = nat i" for n
    using nat_str_neq_Nil [of "nat i"] nat_str_digits [of "nat i"] is_digit_not
    by (cases "nat_str (nat i)") auto
  show ?thesis
  proof (cases "i < 0")
    case True
    then show ?thesis using r
      by (simp add: p_number_def int_str_def unsigned num_end_frac_exp digits_int_nat_str)
  next
    case False
    with ct(2) [OF refl] ct(1) [OF refl] have "(case nat_str (nat i) @ r of c # u \<Rightarrow>
        if c = CHR ''-'' then ([c], u) else ([], nat_str (nat i) @ r) | [] \<Rightarrow> ([], nat_str (nat i) @ r))
      = ([], nat_str (nat i) @ r)"
      by simp
    with False r show ?thesis
      by (simp add: p_number_def int_str_def unsigned num_end_frac_exp digits_int_nat_str)
  qed
qed

fun jfuel :: "json \<Rightarrow> nat" and fuel_elems :: "json list \<Rightarrow> nat"
  and fuel_members :: "(string \<times> json) list \<Rightarrow> nat" where
  "jfuel (JArr vs) = Suc (fuel_elems vs)"
| "jfuel (JObj kvs) = Suc (fuel_members kvs)"
| "jfuel v = 1"
| "fuel_elems [] = 0"
| "fuel_elems (v # vs) = Suc (max (jfuel v) (fuel_elems vs))"
| "fuel_members [] = 0"
| "fuel_members ((k, v) # kvs) = Suc (max (jfuel v) (fuel_members kvs))"

definition is_ws :: "char \<Rightarrow> bool" where "is_ws c \<longleftrightarrow> cp c \<in> set [32, 9, 10, 13]"

lemma skip_ws_Cons [simp]: "skip_ws (c # s) = (if is_ws c then skip_ws s else c # s)"
  by (simp add: is_ws_def)

declare skip_ws.simps(2) [simp del]

lemma skip_ws_newline [simp]: "skip_ws (newline ind lvl @ s) = skip_ws s"
proof -
  have "skip_ws (replicate n CHR 0x20 @ s) = skip_ws s" for n
    by (induction n) (auto simp: is_ws_def cp_def)
  then show ?thesis by (simp add: newline_def is_ws_def cp_def)
qed

lemma punct_not_ws [simp]:
  "\<not> is_ws CHR '',''" "\<not> is_ws CHR '':''" "\<not> is_ws CHR '']''" "\<not> is_ws CHR ''}''" "\<not> is_ws CHR 0x22"
  "is_ws CHR 0x20"
  by (simp_all add: is_ws_def cp_def)

lemma num_end_newline: "num_end (newline ind lvl @ c # r) \<longleftrightarrow> ind \<or> num_end (c # r)"
  by (auto simp: newline_def num_end_def in_range_def cp_def)

lemma num_end_punct [simp]:
  "num_end (CHR '','' # r)" "num_end (CHR '']'' # r)" "num_end (CHR ''}'' # r)" "num_end []"
  by (simp_all add: num_end_def in_range_def cp_def)

lemma int_str_Cons:
  obtains c t where "int_str i = c # t" "is_digit c \<or> c = CHR ''-'' \<and> (\<exists>d u. t = d # u \<and> is_digit d)"
proof -
  have "\<exists>c t. nat_str n = c # t \<and> is_digit c" for n
    using nat_str_neq_Nil [of n] nat_str_digits [of n] by (cases "nat_str n") auto
  then show thesis using that by (cases "i < 0") (auto simp: int_str_def)
qed

lemma p_atom_int: "num_end r \<Longrightarrow> p_atom (int_str i @ r) = Some (JInt i, r)"
proof -
  assume r: "num_end r"
  obtain c t where ct: "int_str i = c # t" "is_digit c \<or> c = CHR ''-'' \<and> (\<exists>d u. t = d # u \<and> is_digit d)"
    by (rule int_str_Cons)
  have "find (\<lambda>(w, _). prefix w (int_str i @ r)) literals = None"
    using ct(2)
  proof
    assume "is_digit c"
    then have "c \<noteq> CHR ''-''" "c \<noteq> CHR ''n''" "c \<noteq> CHR ''t''" "c \<noteq> CHR ''f''" "c \<noteq> CHR ''N''" "c \<noteq> CHR ''I''"
      by (auto dest: is_digit_not)
    then show ?thesis by (simp add: ct(1) literals_def)
  next
    assume "c = CHR ''-'' \<and> (\<exists>d u. t = d # u \<and> is_digit d)"
    then obtain d u where "c = CHR ''-''" "t = d # u" "d \<noteq> CHR ''I''" by (auto dest: is_digit_not)
    then show ?thesis by (simp add: ct(1) literals_def)
  qed
  then show ?thesis using r by (simp add: p_atom_def p_number_int_str)
qed

lemma digit_not_ws: "is_digit c \<Longrightarrow> \<not> is_ws c \<and> c \<noteq> CHR '']''"
  by (auto simp: is_ws_def in_range_def cp_def)

lemma render_Cons: "wf_json v \<Longrightarrow> \<exists>c t. render ind lvl v = c # t \<and> \<not> is_ws c \<and> c \<noteq> CHR '']''"
proof (cases v)
  case (JInt i)
  obtain c t where "int_str i = c # t" "is_digit c \<or> c = CHR ''-'' \<and> (\<exists>d u. t = d # u \<and> is_digit d)"
    by (rule int_str_Cons)
  moreover have "\<not> is_ws CHR ''-''" by (simp add: is_ws_def cp_def)
  ultimately show ?thesis using JInt digit_not_ws by auto
qed (auto simp: json_string_def is_ws_def cp_def)

lemma p_value_int: "num_end r \<Longrightarrow> p_value (Suc n) (int_str i @ r) = Some (JInt i, r)"
proof -
  assume r: "num_end r"
  obtain c t where ct: "int_str i = c # t" "is_digit c \<or> c = CHR ''-'' \<and> (\<exists>d u. t = d # u \<and> is_digit d)"
    by (rule int_str_Cons)
  have "c \<noteq> CHR 0x22" "c \<noteq> CHR ''[''" "c \<noteq> CHR ''{''" using ct(2) is_digit_not by auto
  with p_atom_int [OF r, of i] ct(1) show ?thesis by simp
qed

lemma p_value_literal:
  "p_value (Suc n) (''null'' @ r) = Some (JNull, r)"
  "p_value (Suc n) (''true'' @ r) = Some (JBool True, r)"
  "p_value (Suc n) (''false'' @ r) = Some (JBool False, r)"
  by (simp_all add: p_atom_def literals_def)

lemma parse_render:
  "wf_json v \<Longrightarrow> num_end r \<Longrightarrow> jfuel v \<le> n \<Longrightarrow> p_value n (render ind lvl v @ r) = Some (v, r)"
  "vs \<noteq> [] \<Longrightarrow> list_all wf_json vs \<Longrightarrow> fuel_elems vs \<le> n \<Longrightarrow>
     p_elems n (render_elems ind lvl vs @ newline ind lvl' @ CHR '']'' # r) = Some (vs, r)"
  "kvs \<noteq> [] \<Longrightarrow> wf_members kvs \<Longrightarrow> fuel_members kvs \<le> n \<Longrightarrow>
     p_members n (render_members ind lvl kvs @ newline ind lvl' @ CHR ''}'' # r) = Some (kvs, r)"
proof (induction ind lvl v and ind lvl vs and ind lvl kvs arbitrary: n r and n r lvl' and n r lvl'
    rule: render_render_elems_render_members.induct)
  case (6 ind lvl vs)
  show ?case
  proof (cases "vs = []")
    case True
    with 6 show ?thesis by (cases n) (auto simp: is_ws_def cp_def)
  next
    case False
    then obtain v vs' where vs: "vs = v # vs'" by (cases vs) auto
    with "6.prems"(1) have "wf_json v" by simp
    from render_Cons [OF this] obtain c t
      where c: "render ind (Suc lvl) v = c # t" "\<not> is_ws c" "c \<noteq> CHR '']''" by blast
    from 6 obtain m where n: "n = Suc m" by (cases n) auto
    have "p_elems m (render_elems ind (Suc lvl) vs @ newline ind lvl @ CHR '']'' # r) = Some (vs, r)"
      using 6 False n by (intro "6.IH") auto
    with False n vs c show ?thesis by simp
  qed
next
  case (7 ind lvl kvs)
  show ?case
  proof (cases "kvs = []")
    case True
    with 7 show ?thesis by (cases n) (auto simp: is_ws_def cp_def)
  next
    case False
    from 7 obtain m where n: "n = Suc m" by (cases n) auto
    have "p_members m (render_members ind (Suc lvl) kvs @ newline ind lvl @ CHR ''}'' # r) = Some (kvs, r)"
      using 7 False n by (intro "7.IH") auto
    moreover from False obtain t where "render_members ind (Suc lvl) kvs = CHR 0x22 # t"
      by (cases kvs) (auto simp: json_string_def)
    moreover have "dict_comp fst snd kvs = kvs" using 7 by (simp add: dict_comp_distinct)
    ultimately show ?thesis using False n by simp
  qed
next
  case (9 ind lvl v vs)
  from 9 obtain m where n: "n = Suc m" by (cases n) auto
  show ?case
  proof (cases "vs = []")
    case True
    with 9 n show ?thesis by (simp add: num_end_newline)
  next
    case False
    then obtain v' vs' where vs: "vs = v' # vs'" by (cases vs) auto
    with "9.prems"(2) have "wf_json v'" by simp
    from render_Cons [OF this] obtain c t
      where c: "render ind lvl v' = c # t" "\<not> is_ws c" "c \<noteq> CHR '']''" by blast
    have "p_elems m (render_elems ind lvl vs @ newline ind lvl' @ CHR '']'' # r) = Some (vs, r)"
      using 9 False n by (intro "9.IH"(2)) auto
    with 9 n False vs c show ?thesis by simp
  qed
next
  case (11 ind lvl k v kvs)
  from 11 obtain m where n: "n = Suc m" by (cases n) auto
  from "11.prems"(2) have "wf_json v" by simp
  from render_Cons [OF this] obtain c t where c: "render ind lvl v = c # t" "\<not> is_ws c" by blast
  have ks: "skip_ws (key_sep ind @ u) = CHR '':'' # (if ind then CHR 0x20 # u else u)"
    "skip_ws (if ind then CHR 0x20 # u else u) = skip_ws u" for u
    by (simp_all add: key_sep_def)
  show ?case
  proof (cases "kvs = []")
    case True
    with 11 n c show ?thesis
      by (simp add: json_string_def p_string_json ks num_end_newline)
  next
    case False
    have "p_members m (render_members ind lvl kvs @ newline ind lvl' @ CHR ''}'' # r) = Some (kvs, r)"
      using 11 False n by (intro "11.IH"(2)) auto
    moreover from False obtain u where "render_members ind lvl kvs = CHR 0x22 # u"
      by (cases kvs) (auto simp: json_string_def)
    ultimately show ?thesis using 11 n c False
      by (simp add: json_string_def p_string_json ks)
  qed
next
  case (3 ind lvl i)
  then show ?case by (cases n) (simp_all add: p_value_int)
next
  case (5 ind lvl s)
  then show ?case by (cases n) (simp_all add: json_string_def p_string_json)
next
  case (1 ind lvl)
  then show ?case using p_value_literal(1) by (cases n) simp_all
next
  case (2 ind lvl b)
  then show ?case using p_value_literal(2,3) by (cases n) simp_all
qed simp_all

text \<open>The length of a rendered document bounds the fuel it takes to read it.\<close>

lemma fuel_render:
  "wf_json v \<Longrightarrow> jfuel v \<le> length (render ind lvl v)"
  "vs \<noteq> [] \<Longrightarrow> list_all wf_json vs \<Longrightarrow> fuel_elems vs \<le> Suc (length (render_elems ind lvl vs))"
  "kvs \<noteq> [] \<Longrightarrow> wf_members kvs \<Longrightarrow> fuel_members kvs \<le> Suc (length (render_members ind lvl kvs))"
proof (induction ind lvl v and ind lvl vs and ind lvl kvs rule: render_render_elems_render_members.induct)
  case (3 ind lvl i)
  then show ?case by (cases i rule: int_cases) (auto simp: int_str_def Suc_le_eq)
next
  case (9 ind lvl v vs)
  then show ?case by (cases vs) auto
next
  case (11 ind lvl k v kvs)
  then show ?case by (cases kvs) (auto simp: json_string_def)
qed (auto simp: json_string_def)

lemma sort_members_map: "sort_members kvs = map (\<lambda>(k, v). (k, sort_json v)) kvs"
  by (induction kvs) auto

lemma wf_members_iff: "wf_members kvs \<longleftrightarrow> (\<forall>(k, v) \<in> set kvs. wf_json v)"
  by (induction kvs) auto

lemma wf_sort_json: "wf_json v \<Longrightarrow> wf_json (sort_json v)"
  "wf_members kvs \<Longrightarrow> wf_members (sort_members kvs)"
proof (induction v and kvs rule: sort_json_sort_members.induct)
  case (2 kvs)
  have "map fst (sort_members kvs) = map fst kvs" by (auto simp: sort_members_map)
  with 2 have "distinct (map fst (sort_key fst (sort_members kvs)))"
    by (metis distinct_map distinct_sort set_sort wf_json.simps(3))
  with 2 show ?case by (auto simp: wf_members_iff)
qed (auto simp: list_all_iff)

lemma loads_render: "wf_json v \<Longrightarrow> json_loads (render ind 0 v @ newline ind 0) = Some v"
proof -
  let ?s = "render ind 0 v"
  assume wf: "wf_json v"
  from render_Cons [OF this] obtain c t where c: "?s = c # t" "\<not> is_ws c" by blast
  have "num_end (newline ind 0)" by (simp add: newline_def num_end_def in_range_def cp_def)
  then have "p_value (2 * length (?s @ newline ind 0) + 2) (?s @ newline ind 0) = Some (v, newline ind 0)"
    using fuel_render(1) [OF wf, of ind 0] by (intro parse_render(1) [OF wf]) simp_all
  moreover have "skip_ws (newline ind 0) = []" using skip_ws_newline [of ind 0 "[]"] by simp
  ultimately show ?thesis using c by (simp add: json_loads_def)
qed

theorem loads_dumps: "wf_json v \<Longrightarrow> json_loads (json_dumps ind v @ newline ind 0) = Some (sort_json v)"
  unfolding json_dumps_def by (rule loads_render) (rule wf_sort_json)

text \<open>Two documents with the same compact text are the same up to the order of keys.\<close>

corollary dumps_inject:
  assumes "wf_json v" "wf_json w" "json_dumps ind v = json_dumps ind w"
  shows "sort_json v = sort_json w"
  using loads_dumps [OF assms(1), of ind] loads_dumps [OF assms(2), of ind] assms(3) by simp

section \<open>Reading members\<close>

definition jget :: "string \<Rightarrow> json \<Rightarrow> json option" where
  "jget k v = (case v of JObj kvs \<Rightarrow> map_of kvs k | _ \<Rightarrow> None)"

lemma map_of_sort_key: "distinct (map fst kvs) \<Longrightarrow> map_of (sort_key fst kvs) k = map_of kvs k"
  by (metis distinct_map distinct_sort map_of_inject_set set_sort)

lemma jget_sort:
  assumes "wf_json v" shows "jget k (sort_json v) = map_option sort_json (jget k v)"
proof (cases v)
  case (JObj kvs)
  have "map fst (sort_members kvs) = map fst kvs" by (auto simp: sort_members_map)
  with JObj assms have "map_of (sort_key fst (sort_members kvs)) k = map_of (sort_members kvs) k"
    by (intro map_of_sort_key) simp
  also have "\<dots> = map_option sort_json (map_of kvs k)"
    by (induction kvs) auto
  finally show ?thesis by (simp add: JObj jget_def)
qed (simp_all add: jget_def)

end
