(* ===== verification/Py_Regex.thy ===== *)
theory Py_Regex
  imports Forge_Prelude
begin

text \<open>
  The part of Python's \<open>re\<close> module the sources use: character classes, sequence,
  alternation, repetition, \<open>^\<close>, \<open>$\<close>, \<open>\b\<close> and one-character negative look-around.
  \<open>rxm\<close> gives the meaning of a pattern as a relation between the position where a
  match starts and the position where it ends; \<open>ends\<close> computes those positions, and
  \<open>ends_iff\<close> shows that it finds exactly the matches. The three entry points are
  \<open>re_match\<close>, \<open>re_fullmatch\<close> and \<open>re_search\<close>; which of several matches
  Python prefers does not matter, because the sources only ask whether there is one.
\<close>

datatype rx =
    REps
  | RCls "char \<Rightarrow> bool"
  | RCat rx rx
  | RAlt rx rx
  | RStar rx
  | RCaret
  | RDollar
  | RWordB
  | RNotBehind "char \<Rightarrow> bool"
  | RNotAhead "char \<Rightarrow> bool"

text \<open>\<open>\w\<close> on code points below 256: the alphanumeric characters and the underscore.\<close>

definition word_char :: "char \<Rightarrow> bool" where
  "word_char c \<longleftrightarrow> is_lower c \<or> is_upper c \<or> is_digit c \<or> cp c = 95
     \<or> cp c \<in> set [170, 178, 179, 181, 185, 186, 188, 189, 190]
     \<or> (in_range 192 255 c \<and> cp c \<noteq> 215 \<and> cp c \<noteq> 247)"

definition word_at :: "string \<Rightarrow> nat \<Rightarrow> bool" where
  "word_at s i \<longleftrightarrow> i < length s \<and> word_char (s ! i)"

definition word_boundary :: "string \<Rightarrow> nat \<Rightarrow> bool" where
  "word_boundary s i \<longleftrightarrow> (i > 0 \<and> word_at s (i - 1)) \<noteq> word_at s i"

text \<open>\<open>$\<close> without \<open>MULTILINE\<close>: the end, or just before a newline that ends the string.\<close>

definition at_dollar :: "string \<Rightarrow> nat \<Rightarrow> bool" where
  "at_dollar s i \<longleftrightarrow> i = length s \<or> (Suc i = length s \<and> s ! i = CHR 0x0A)"

primrec rxm :: "string \<Rightarrow> rx \<Rightarrow> nat \<Rightarrow> nat \<Rightarrow> bool" where
  "rxm s REps = (\<lambda>i j. j = i)"
| "rxm s (RCls p) = (\<lambda>i j. i < length s \<and> p (s ! i) \<and> j = Suc i)"
| "rxm s (RCat a b) = (\<lambda>i j. \<exists>k. rxm s a i k \<and> rxm s b k j)"
| "rxm s (RAlt a b) = (\<lambda>i j. rxm s a i j \<or> rxm s b i j)"
| "rxm s (RStar a) = (rxm s a)\<^sup>*\<^sup>*"
| "rxm s RCaret = (\<lambda>i j. i = 0 \<and> j = i)"
| "rxm s RDollar = (\<lambda>i j. at_dollar s i \<and> j = i)"
| "rxm s RWordB = (\<lambda>i j. word_boundary s i \<and> j = i)"
| "rxm s (RNotBehind p) = (\<lambda>i j. \<not> (0 < i \<and> i \<le> length s \<and> p (s ! (i - 1))) \<and> j = i)"
| "rxm s (RNotAhead p) = (\<lambda>i j. \<not> (i < length s \<and> p (s ! i)) \<and> j = i)"

fun star_ends :: "(nat \<Rightarrow> nat list) \<Rightarrow> nat \<Rightarrow> nat \<Rightarrow> nat list" where
  "star_ends f 0 i = [i]"
| "star_ends f (Suc n) i = remdups (i # concat (map (star_ends f n) (filter (\<lambda>j. i < j) (f i))))"

primrec ends :: "string \<Rightarrow> rx \<Rightarrow> nat \<Rightarrow> nat list" where
  "ends s REps = (\<lambda>i. [i])"
| "ends s (RCls p) = (\<lambda>i. if i < length s \<and> p (s ! i) then [Suc i] else [])"
| "ends s (RCat a b) = (\<lambda>i. remdups (concat (map (ends s b) (ends s a i))))"
| "ends s (RAlt a b) = (\<lambda>i. remdups (ends s a i @ ends s b i))"
| "ends s (RStar a) = (\<lambda>i. star_ends (ends s a) (length s - i) i)"
| "ends s RCaret = (\<lambda>i. if i = 0 then [i] else [])"
| "ends s RDollar = (\<lambda>i. if at_dollar s i then [i] else [])"
| "ends s RWordB = (\<lambda>i. if word_boundary s i then [i] else [])"
| "ends s (RNotBehind p) = (\<lambda>i. if 0 < i \<and> i \<le> length s \<and> p (s ! (i - 1)) then [] else [i])"
| "ends s (RNotAhead p) = (\<lambda>i. if i < length s \<and> p (s ! i) then [] else [i])"

definition re_match :: "rx \<Rightarrow> string \<Rightarrow> bool" where
  "re_match r s \<longleftrightarrow> ends s r 0 \<noteq> []"

definition re_fullmatch :: "rx \<Rightarrow> string \<Rightarrow> bool" where
  "re_fullmatch r s \<longleftrightarrow> length s \<in> set (ends s r 0)"

definition re_search :: "rx \<Rightarrow> string \<Rightarrow> bool" where
  "re_search r s \<longleftrightarrow> (\<exists>i \<in> set [0..<Suc (length s)]. ends s r i \<noteq> [])"

section \<open>Derived patterns\<close>

definition ropt :: "rx \<Rightarrow> rx" where "ropt r = RAlt r REps"

definition rplus :: "rx \<Rightarrow> rx" where "rplus r = RCat r (RStar r)"

primrec rpow :: "nat \<Rightarrow> rx \<Rightarrow> rx" where
  "rpow 0 r = REps"
| "rpow (Suc n) r = RCat r (rpow n r)"

text \<open>\<open>r{0,n}\<close>.\<close>

primrec rupto :: "nat \<Rightarrow> rx \<Rightarrow> rx" where
  "rupto 0 r = REps"
| "rupto (Suc n) r = ropt (RCat r (rupto n r))"

fun rseq :: "rx list \<Rightarrow> rx" where
  "rseq [] = REps"
| "rseq [r] = r"
| "rseq (r # rs) = RCat r (rseq rs)"

fun ralts :: "rx list \<Rightarrow> rx" where
  "ralts [] = RCls (\<lambda>_. False)"
| "ralts [r] = r"
| "ralts (r # rs) = RAlt r (ralts rs)"

definition rlit :: "string \<Rightarrow> rx" where
  "rlit w = rseq (map (\<lambda>c. RCls (\<lambda>x. x = c)) w)"

text \<open>A literal, and a class, under \<open>re.IGNORECASE\<close>.\<close>

definition rlit_i :: "string \<Rightarrow> rx" where
  "rlit_i w = rseq (map (\<lambda>c. RCls (\<lambda>x. lower_char x = c)) w)"

definition rcls_i :: "(char \<Rightarrow> bool) \<Rightarrow> rx" where
  "rcls_i p = RCls (\<lambda>x. p (lower_char x))"

definition one_of :: "string \<Rightarrow> char \<Rightarrow> bool" where
  "one_of w c \<longleftrightarrow> c \<in> set w"

section \<open>The matcher finds exactly the matches\<close>

lemma rtranclp_bound:
  assumes "(r :: nat \<Rightarrow> nat \<Rightarrow> bool)\<^sup>*\<^sup>* i j" and "i \<le> n"
    and "\<And>i j. r i j \<Longrightarrow> i \<le> n \<Longrightarrow> i \<le> j \<and> j \<le> n"
  shows "i \<le> j \<and> j \<le> n"
  using assms(1,2) by (induction rule: rtranclp_induct) (auto dest: assms(3))

lemma rxm_bounds: "rxm s r i j \<Longrightarrow> i \<le> length s \<Longrightarrow> i \<le> j \<and> j \<le> length s"
proof (induction r arbitrary: i j)
  case (RCat a b)
  then obtain k where "rxm s a i k" "rxm s b k j" by auto
  with RCat.IH(1) [of i k] RCat.IH(2) [of k j] RCat.prems(2) show ?case by simp
next
  case (RStar a)
  from RStar.prems(1) have "(rxm s a)\<^sup>*\<^sup>* i j" by simp
  then show ?case using RStar.prems(2) RStar.IH by (rule rtranclp_bound)
qed auto

lemma set_star_ends_Suc:
  "set (star_ends f (Suc n) i) = insert i (\<Union>k \<in> {k \<in> set (f i). i < k}. set (star_ends f n k))"
  by auto

lemmas star_ends_simps = star_ends.simps(1) set_star_ends_Suc
declare star_ends.simps(2) [simp del]

lemma rtranclp_progress:
  assumes "(r :: nat \<Rightarrow> nat \<Rightarrow> bool)\<^sup>*\<^sup>* i j"
  shows "(\<lambda>i j. r i j \<and> i \<noteq> j)\<^sup>*\<^sup>* i j"
  using assms
proof (induction rule: rtranclp_induct)
  case (step y z)
  then show ?case
    by (cases "y = z") (auto intro: rtranclp.rtrancl_into_rtrancl)
qed simp

lemma star_ends_complete:
  assumes "(\<lambda>i j. r i j \<and> i \<noteq> j)\<^sup>*\<^sup>* i j" and "i \<le> m" and "m - i \<le> n"
    and f: "\<And>i j. r i j \<Longrightarrow> i \<le> m \<Longrightarrow> j \<in> set (f i) \<and> i \<le> j \<and> j \<le> m"
  shows "j \<in> set (star_ends f n i)"
  using assms(1-3)
proof (induction arbitrary: n rule: converse_rtranclp_induct)
  case base
  then show ?case by (cases n) (simp_all add: star_ends_simps)
next
  case (step y z)
  then have z: "z \<in> set (f y)" "y < z" "z \<le> m" using f [of y z] by auto
  with step.prems obtain n' where n: "n = Suc n'" by (cases n) auto
  with z step have "j \<in> set (star_ends f n' z)" by (intro step.IH) auto
  with z n show ?case by (auto simp: star_ends_simps)
qed

theorem ends_iff: "i \<le> length s \<Longrightarrow> j \<in> set (ends s r i) \<longleftrightarrow> rxm s r i j"
proof (induction r arbitrary: i j)
  case (RCat a b)
  then show ?case by (auto dest: rxm_bounds) (metis rxm_bounds)+
next
  case (RStar a)
  show ?case
  proof
    assume "j \<in> set (ends s (RStar a) i)"
    moreover have "j \<in> set (star_ends (ends s a) n i) \<Longrightarrow> i \<le> length s \<Longrightarrow> (rxm s a)\<^sup>*\<^sup>* i j" for n i
    proof (induction n arbitrary: i)
      case (Suc n)
      from Suc.prems consider "j = i" | k where "k \<in> set (ends s a i)" "j \<in> set (star_ends (ends s a) n k)"
        by (auto simp: star_ends_simps)
      then show ?case
      proof cases
        case 2
        then have "rxm s a i k" using Suc.prems RStar.IH by blast
        moreover from this Suc.prems have "k \<le> length s" by (auto dest: rxm_bounds)
        ultimately show ?thesis
          using 2 Suc.IH by (blast intro: converse_rtranclp_into_rtranclp)
      qed simp
    qed simp
    ultimately show "rxm s (RStar a) i j" using RStar.prems by auto
  next
    assume "rxm s (RStar a) i j"
    then have "(\<lambda>i j. rxm s a i j \<and> i \<noteq> j)\<^sup>*\<^sup>* i j"
      by (simp add: rtranclp_progress)
    then have "j \<in> set (star_ends (ends s a) (length s - i) i)"
      using RStar by (intro star_ends_complete [where m = "length s" and r = "rxm s a"])
        (simp_all add: rxm_bounds)
    then show "j \<in> set (ends s (RStar a) i)" by simp
  qed
qed auto

corollary re_match_iff: "re_match r s \<longleftrightarrow> (\<exists>j. rxm s r 0 j)"
  by (metis (no_types, opaque_lifting) ends_iff last_in_set le0 list.set(1) empty_iff re_match_def)

corollary re_fullmatch_iff: "re_fullmatch r s \<longleftrightarrow> rxm s r 0 (length s)"
  by (simp add: re_fullmatch_def ends_iff)

corollary re_search_iff: "re_search r s \<longleftrightarrow> (\<exists>i \<le> length s. \<exists>j. rxm s r i j)"
proof -
  have "ends s r i \<noteq> [] \<longleftrightarrow> (\<exists>j. rxm s r i j)" if "i \<le> length s" for i
    using ends_iff [OF that, of _ r] by (metis last_in_set list.set(1) empty_iff)
  moreover have "set [0..<Suc (length s)] = {i. i \<le> length s}"
    by (auto simp: less_Suc_eq_le simp del: upt_Suc)
  ultimately show ?thesis by (auto simp: re_search_def simp del: upt_Suc)
qed

section \<open>Runs of one class\<close>

lemma rxm_star_cls:
  "i \<le> length s \<Longrightarrow>
     rxm s (RStar (RCls p)) i j \<longleftrightarrow> i \<le> j \<and> j \<le> length s \<and> (\<forall>k. i \<le> k \<and> k < j \<longrightarrow> p (s ! k))"
  (is "_ \<Longrightarrow> _ \<longleftrightarrow> ?R i j")
proof
  assume i: "i \<le> length s"
  let ?r = "\<lambda>i j. i < length s \<and> p (s ! i) \<and> j = Suc i"
  { assume "rxm s (RStar (RCls p)) i j"
    then have "?r\<^sup>*\<^sup>* i j" by simp
    then show "?R i j" using i
      by (induction rule: rtranclp_induct) (auto simp: less_Suc_eq) }
  { assume "?R i j"
    then have "?r\<^sup>*\<^sup>* i j"
    proof (induction "j - i" arbitrary: j)
      case (Suc n)
      then have "?r\<^sup>*\<^sup>* i (j - 1)" by (intro Suc.hyps) auto
      moreover have "?r (j - 1) j" using Suc by auto
      ultimately show ?case by (rule rtranclp.rtrancl_into_rtrancl)
    qed simp
    then show "rxm s (RStar (RCls p)) i j" by simp }
qed

lemma fullmatch_star_cls: "re_fullmatch (RStar (RCls p)) s \<longleftrightarrow> (\<forall>c \<in> set s. p c)"
  by (auto simp: re_fullmatch_iff rxm_star_cls all_set_conv_all_nth simp del: rxm.simps(5))

lemma fullmatch_plus_cls: "re_fullmatch (rplus (RCls p)) s \<longleftrightarrow> s \<noteq> [] \<and> (\<forall>c \<in> set s. p c)"
proof (cases s)
  case (Cons c t)
  have "rxm s (rplus (RCls p)) 0 (length s) \<longleftrightarrow> p (s ! 0) \<and> (\<forall>k. 1 \<le> k \<and> k < length s \<longrightarrow> p (s ! k))"
    using Cons by (auto simp: rplus_def rxm_star_cls simp del: rxm.simps(5))
  also have "\<dots> \<longleftrightarrow> (\<forall>k < length s. p (s ! k))"
    using Cons by (metis One_nat_def Suc_leI length_greater_0_conv list.distinct(1) not_gr_zero)
  also have "\<dots> \<longleftrightarrow> (\<forall>c \<in> set s. p c)" by (simp only: all_set_conv_all_nth)
  finally show ?thesis using Cons by (simp add: re_fullmatch_iff)
qed (simp add: re_fullmatch_iff rplus_def)

text \<open>A full match cannot stop at \<open>$\<close> before a final newline, so \<open>^r$\<close> and \<open>r\<close> agree there.\<close>

lemma fullmatch_anchored:
  "re_fullmatch (rseq [RCaret, r, RDollar]) s \<longleftrightarrow> re_fullmatch r s"
  by (auto simp: re_fullmatch_iff at_dollar_def)

lemma rxm_pow_cls:
  "i \<le> length s \<Longrightarrow>
     rxm s (rpow n (RCls p)) i j \<longleftrightarrow> j = i + n \<and> j \<le> length s \<and> (\<forall>k. i \<le> k \<and> k < j \<longrightarrow> p (s ! k))"
proof (induction n arbitrary: i)
  case (Suc n)
  show ?case
  proof (cases "i < length s")
    case True
    have split: "(\<forall>k. i \<le> k \<and> k < m \<longrightarrow> p (s ! k)) \<longleftrightarrow>
        (i < m \<longrightarrow> p (s ! i)) \<and> (\<forall>k. Suc i \<le> k \<and> k < m \<longrightarrow> p (s ! k))" for m
      by (metis Suc_leI le_less less_or_eq_imp_le Suc_le_lessD)
    from True Suc.IH [of "Suc i"] show ?thesis by (subst split) auto
  qed auto
qed auto

lemma rxm_lit:
  "i \<le> length s \<Longrightarrow> rxm s (rlit w) i j \<longleftrightarrow> j = i + length w \<and> prefix w (drop i s)"
proof (induction w arbitrary: i)
  case Nil
  then show ?case by (simp add: rlit_def)
next
  case (Cons c w)
  show ?case
  proof (cases "i < length s")
    case True
    then have d: "drop i s = s ! i # drop (Suc i) s" by (simp add: Cons_nth_drop_Suc)
    from True Cons.IH [of "Suc i"] show ?thesis
      by (cases w) (auto simp: rlit_def d)
  next
    case False
    then show ?thesis by (cases w) (auto simp: rlit_def)
  qed
qed

end
