(* ===== verification/Manifest_Schema.thy ===== *)
theory Manifest_Schema
  imports Py_Regex
begin

text \<open>
  The data model of \<open>project.yaml\<close> (\<open>manifest/schema.py\<close>) and its validators. The pydantic
  classes are records, the discriminated union of layers is a datatype. A
  \<open>ValidationError\<close> is the list of the validation failures: pydantic reports every failing
  field, then, when all fields are valid, the first failing model validator.
\<close>

section \<open>Layers\<close>

record git_repo =
  gr_url :: string
  gr_ref :: string

record core_layer =
  core_url :: string
  core_ref :: "string option"

record enterprise_layer =
  ent_url :: string
  ent_ref :: "string option"

record published_layer =
  pl_name :: string
  pl_source :: string
  pl_version :: string
  pl_category :: string
  pl_requires_enterprise :: bool

record git_layer =
  gl_name :: string
  gl_repos :: "git_repo list"
  gl_category :: string

datatype layer = PublishedLayer published_layer | GitLayer git_layer

primrec layer_name :: "layer \<Rightarrow> string" where
  "layer_name (PublishedLayer p) = pl_name p"
| "layer_name (GitLayer g) = gl_name g"

primrec layer_category :: "layer \<Rightarrow> string" where
  "layer_category (PublishedLayer p) = pl_category p"
| "layer_category (GitLayer g) = gl_category g"

definition default_core_url :: string where
  "default_core_url = ''https://github.com/odoo/odoo.git''"

definition ENTERPRISE_SOURCE_URL :: string where
  "ENTERPRISE_SOURCE_URL = ''https://github.com/odoo/enterprise.git''"

section \<open>The manifest\<close>

record client =
  cl_addons_path :: path
  cl_python_requirements :: "path option"

record override =
  ov_layer :: string
  ov_repo :: string
  ov_fork :: string
  ov_ref :: string

record workspace =
  checkout_timeout_seconds :: "int option"

record odoo_backend_config =
  http_port :: "int option"
  bind_host :: string

record backend_config =
  bc_odoo :: "odoo_backend_config option"

datatype edition = Community | Enterprise

record manifest =
  m_name :: string
  m_odoo_version :: string
  m_edition :: edition
  m_core :: core_layer
  m_enterprise :: "enterprise_layer option"
  m_layers :: "layer list"
  m_client :: client
  m_overrides :: "override list"
  m_workspace :: "workspace option"
  m_backend :: "backend_config option"
  m_mount_priority :: "string list"

section \<open>Validators\<close>

datatype schema_error =
    LegacyRequiresEdition
  | BadCategory string
  | BadBindHost string
  | BadHttpPort int
  | BadCheckoutTimeout int
  | EnterpriseBlockNotAllowed
  | UnknownMountRoot string
  | DuplicateMountRoot string

text \<open>The \<open>before\<close> validator of the layer models: it sees the raw mapping.\<close>

definition reject_legacy_requires_edition :: "(string \<times> 'v) list \<Rightarrow> (schema_error, (string \<times> 'v) list) result" where
  "reject_legacy_requires_edition data =
     (if map_of data ''requires_edition'' \<noteq> None then Inl LegacyRequiresEdition else Inr data)"

definition slug_char :: "char \<Rightarrow> bool" where
  "slug_char c \<longleftrightarrow> is_lower c \<or> is_digit c"

definition slug_dash_char :: "char \<Rightarrow> bool" where
  "slug_dash_char c \<longleftrightarrow> slug_char c \<or> c = CHR ''-''"

definition CATEGORY_PATTERN :: rx where
  "CATEGORY_PATTERN = rseq [RCaret, RCls slug_char,
     ropt (RCat (RStar (RCls slug_dash_char)) (RCls slug_char)), RDollar]"

definition CATEGORY_MAX_LENGTH :: nat where "CATEGORY_MAX_LENGTH = 63"

definition normalize_category :: "string option \<Rightarrow> (schema_error, string) result" where
  "normalize_category value =
     (let resolved = (case value of None \<Rightarrow> ''custom'' | Some v \<Rightarrow> v) in
      if length resolved > CATEGORY_MAX_LENGTH \<or> \<not> re_match CATEGORY_PATTERN resolved
      then Inl (BadCategory resolved) else Inr resolved)"

definition SYSTEM_MOUNT_ROOTS :: "string list" where
  "SYSTEM_MOUNT_ROOTS = [''worktrees'', ''community'', ''enterprise'']"

definition custom_category_folder :: "string \<Rightarrow> string" where
  "custom_category_folder category = (if category = ''custom'' then ''default'' else category)"

definition custom_root_key :: "string \<Rightarrow> string" where
  "custom_root_key category = ''custom/'' @ custom_category_folder category"

text \<open>\<open>ipaddress.IPv4Address\<close> on a string: four decimal octets without leading zeros.\<close>

fun digits_value :: "nat \<Rightarrow> string \<Rightarrow> nat" where
  "digits_value acc [] = acc"
| "digits_value acc (c # s) = digits_value (10 * acc + (cp c - 48)) s"

definition ipv4_octet :: "string \<Rightarrow> bool" where
  "ipv4_octet w \<longleftrightarrow> w \<noteq> [] \<and> list_all is_digit w \<and> length w \<le> 3
     \<and> (w = ''0'' \<or> hd w \<noteq> CHR ''0'') \<and> digits_value 0 w \<le> 255"

definition is_ipv4 :: "string \<Rightarrow> bool" where
  "is_ipv4 s \<longleftrightarrow> CHR ''/'' \<notin> set s \<and> length (split_on (CHR ''.'') s) = 4
     \<and> list_all ipv4_octet (split_on (CHR ''.'') s)"

definition validate_bind_host :: "string \<Rightarrow> (schema_error, string) result" where
  "validate_bind_host value = (if is_ipv4 value then Inr value else Inl (BadBindHost value))"

text \<open>\<open>Field(gt=0, le=65535)\<close> and \<open>Field(gt=0)\<close>.\<close>

definition http_port_ok :: "int option \<Rightarrow> bool" where
  "http_port_ok p = (case p of None \<Rightarrow> True | Some n \<Rightarrow> 0 < n \<and> n \<le> 65535)"

definition checkout_timeout_ok :: "int option \<Rightarrow> bool" where
  "checkout_timeout_ok t = (case t of None \<Rightarrow> True | Some n \<Rightarrow> 0 < n)"

definition field_errors :: "manifest \<Rightarrow> schema_error list" where
  "field_errors m =
     concat (map (\<lambda>l. case normalize_category (Some (layer_category l)) of Inl e \<Rightarrow> [e] | Inr _ \<Rightarrow> []) (m_layers m))
     @ (case m_workspace m of None \<Rightarrow> []
        | Some w \<Rightarrow> if checkout_timeout_ok (checkout_timeout_seconds w) then []
                    else [BadCheckoutTimeout (the (checkout_timeout_seconds w))])
     @ (case m_backend m of None \<Rightarrow> [] | Some b \<Rightarrow> (case bc_odoo b of None \<Rightarrow> []
        | Some ob \<Rightarrow> (if http_port_ok (http_port ob) then [] else [BadHttpPort (the (http_port ob))])
            @ (case validate_bind_host (bind_host ob) of Inl e \<Rightarrow> [e] | Inr _ \<Rightarrow> [])))"

definition validate_enterprise_block :: "manifest \<Rightarrow> (schema_error, manifest) result" where
  "validate_enterprise_block m =
     (let m' = (if m_edition m = Enterprise \<and> m_enterprise m = None
                then m\<lparr>m_enterprise := Some \<lparr>ent_url = ENTERPRISE_SOURCE_URL, ent_ref = None\<rparr>\<rparr> else m) in
      if m_edition m' \<noteq> Enterprise \<and> m_enterprise m' \<noteq> None
      then Inl EnterpriseBlockNotAllowed else Inr m')"

fun mount_priority_loop :: "string list \<Rightarrow> string list \<Rightarrow> string list \<Rightarrow> (schema_error, unit) result" where
  "mount_priority_loop valid seen [] = Inr ()"
| "mount_priority_loop valid seen (key # keys) =
     (if key \<notin> set valid then Inl (UnknownMountRoot key)
      else if key \<in> set seen then Inl (DuplicateMountRoot key)
      else mount_priority_loop valid (key # seen) keys)"

definition valid_mount_keys :: "manifest \<Rightarrow> string list" where
  "valid_mount_keys m = SYSTEM_MOUNT_ROOTS @ map (\<lambda>l. custom_root_key (layer_category l)) (m_layers m)"

definition validate_mount_priority :: "manifest \<Rightarrow> (schema_error, manifest) result" where
  "validate_mount_priority m =
     rbind (mount_priority_loop (valid_mount_keys m) [] (m_mount_priority m)) (\<lambda>_. Inr m)"

text \<open>\<open>Manifest.model_validate\<close> on typed fields: field validators, then the two model validators.\<close>

definition validate_manifest :: "manifest \<Rightarrow> (schema_error list, manifest) result" where
  "validate_manifest m =
     (if field_errors m \<noteq> [] then Inl (field_errors m)
      else case rbind (validate_enterprise_block m) validate_mount_priority of
             Inl e \<Rightarrow> Inl [e] | Inr m' \<Rightarrow> Inr m')"

section \<open>What validation guarantees\<close>

text \<open>The slug shape the category documentation promises.\<close>

definition slug :: "string \<Rightarrow> bool" where
  "slug s \<longleftrightarrow> s \<noteq> [] \<and> list_all slug_dash_char s \<and> hd s \<noteq> CHR ''-'' \<and> last s \<noteq> CHR ''-''"

lemma slug_char_dash: "slug_dash_char c \<and> c \<noteq> CHR ''-'' \<longleftrightarrow> slug_char c"
  by (auto simp: slug_dash_char_def slug_char_def in_range_def cp_def)

lemma rxm_slug_body:
  "rxm s (ropt (RCat (RStar (RCls slug_dash_char)) (RCls slug_char))) 1 j \<and> s \<noteq> [] \<longleftrightarrow>
     s \<noteq> [] \<and> (j = 1 \<or> 1 < j \<and> j \<le> length s \<and> slug_char (s ! (j - 1)) \<and>
       (\<forall>k. 1 \<le> k \<and> k < j - 1 \<longrightarrow> slug_dash_char (s ! k)))"
proof (cases "s = []")
  case False
  then have le: "1 \<le> length s" by (cases s) auto
  have "rxm s (RCat (RStar (RCls slug_dash_char)) (RCls slug_char)) 1 j \<longleftrightarrow>
      (\<exists>k. 1 \<le> k \<and> k \<le> length s \<and> (\<forall>i. 1 \<le> i \<and> i < k \<longrightarrow> slug_dash_char (s ! i)) \<and>
        k < length s \<and> slug_char (s ! k) \<and> j = Suc k)"
    using rxm_star_cls [OF le, of slug_dash_char] by simp
  also have "\<dots> \<longleftrightarrow> 1 < j \<and> j \<le> length s \<and> slug_char (s ! (j - 1)) \<and>
       (\<forall>k. 1 \<le> k \<and> k < j - 1 \<longrightarrow> slug_dash_char (s ! k))"
    by (cases j) auto
  finally show ?thesis using False by (auto simp: ropt_def simp del: rxm.simps(3,5))
qed simp

lemma slug_nth:
  "slug s \<longleftrightarrow> s \<noteq> [] \<and> slug_char (s ! 0) \<and> slug_char (s ! (length s - 1)) \<and>
     (\<forall>k. 1 \<le> k \<and> k < length s - 1 \<longrightarrow> slug_dash_char (s ! k))"
proof (cases "s = []")
  case False
  have "slug s \<longleftrightarrow> (\<forall>k < length s. slug_dash_char (s ! k)) \<and> s ! 0 \<noteq> CHR ''-'' \<and> s ! (length s - 1) \<noteq> CHR ''-''"
    using False by (auto simp: slug_def list_all_length hd_conv_nth last_conv_nth)
  also have "\<dots> \<longleftrightarrow> slug_char (s ! 0) \<and> slug_char (s ! (length s - 1)) \<and>
     (\<forall>k. 1 \<le> k \<and> k < length s - 1 \<longrightarrow> slug_dash_char (s ! k))" (is "?L \<longleftrightarrow> ?R")
  proof
    assume L: ?L
    have "slug_char (s ! 0)" "slug_char (s ! (length s - 1))"
      using L False slug_char_dash by (simp_all flip: slug_char_dash)
    with L show ?R by auto
  next
    assume R: ?R
    then have R': "slug_dash_char (s ! 0)" "s ! 0 \<noteq> CHR ''-''"
        "slug_dash_char (s ! (length s - 1))" "s ! (length s - 1) \<noteq> CHR ''-''"
      using slug_char_dash by blast+
    have "slug_dash_char (s ! k)" if k: "k < length s" for k
    proof -
      consider "k = 0" | "k = length s - 1" | "1 \<le> k" "k < length s - 1" using k by linarith
      then show ?thesis using R R' by cases auto
    qed
    with R' show ?L by blast
  qed
  finally show ?thesis using False by simp
qed (simp add: slug_def)

lemma rxm_category:
  "rxm s CATEGORY_PATTERN 0 j \<longleftrightarrow> at_dollar s j \<and> 0 < j \<and> j \<le> length s \<and> slug (take j s)"
proof (cases "s = []")
  case False
  have *: "rxm s CATEGORY_PATTERN 0 j \<longleftrightarrow> slug_char (s ! 0) \<and> at_dollar s j \<and>
      rxm s (ropt (RCat (RStar (RCls slug_dash_char)) (RCls slug_char))) 1 j"
    using False by (auto simp: CATEGORY_PATTERN_def)
  show ?thesis
  proof (cases "1 \<le> j \<and> j \<le> length s")
    case True
    then have "slug (take j s) \<longleftrightarrow> slug_char (s ! 0) \<and> slug_char (s ! (j - 1)) \<and>
        (\<forall>k. 1 \<le> k \<and> k < j - 1 \<longrightarrow> slug_dash_char (s ! k))"
      using False by (auto simp: slug_nth min_absorb2)
    with True False show ?thesis
      unfolding * using rxm_slug_body [of s j] by (cases "j = 1") auto
  next
    case out: False
    with False have "\<not> rxm s (ropt (RCat (RStar (RCls slug_dash_char)) (RCls slug_char))) 1 j"
      using rxm_slug_body [of s j] by (cases s) auto
    with out show ?thesis unfolding * by auto
  qed
qed (auto simp: CATEGORY_PATTERN_def slug_def)

lemma category_match_iff:
  "re_match CATEGORY_PATTERN s \<longleftrightarrow> slug s \<or> (\<exists>t. s = t @ [CHR 0x0A] \<and> slug t)"
proof
  assume "re_match CATEGORY_PATTERN s"
  then obtain j where j: "at_dollar s j" "slug (take j s)" "j \<le> length s"
    by (auto simp: re_match_iff rxm_category)
  then show "slug s \<or> (\<exists>t. s = t @ [CHR 0x0A] \<and> slug t)"
    by (auto simp: at_dollar_def) (metis lessI take_Suc_conv_app_nth take_all_iff le_refl)
next
  assume "slug s \<or> (\<exists>t. s = t @ [CHR 0x0A] \<and> slug t)"
  then have "\<exists>j. rxm s CATEGORY_PATTERN 0 j"
  proof
    assume "slug s"
    then have "rxm s CATEGORY_PATTERN 0 (length s)"
      unfolding rxm_category by (auto simp: at_dollar_def slug_def)
    then show ?thesis ..
  next
    assume "\<exists>t. s = t @ [CHR 0x0A] \<and> slug t"
    then obtain t where "s = t @ [CHR 0x0A]" "slug t" by blast
    then have "rxm s CATEGORY_PATTERN 0 (length t)"
      unfolding rxm_category by (auto simp: at_dollar_def slug_def)
    then show ?thesis ..
  qed
  then show "re_match CATEGORY_PATTERN s" by (simp add: re_match_iff)
qed

lemma mount_priority_loop_iff:
  "mount_priority_loop valid seen keys = Inr () \<longleftrightarrow>
     set keys \<subseteq> set valid \<and> distinct keys \<and> set keys \<inter> set seen = {}"
  by (induction keys arbitrary: seen) auto

lemma validate_enterprise_block_iff:
  "validate_enterprise_block m = Inr m' \<longleftrightarrow>
     m' = (if m_edition m = Enterprise \<and> m_enterprise m = None
           then m\<lparr>m_enterprise := Some \<lparr>ent_url = ENTERPRISE_SOURCE_URL, ent_ref = None\<rparr>\<rparr> else m)
     \<and> (m_edition m = Enterprise \<longleftrightarrow> m_enterprise m' \<noteq> None)"
  by (cases "m_edition m") (auto simp: validate_enterprise_block_def Let_def)

text \<open>
  The invariant a validated manifest has, and that every later stage relies on.
\<close>

definition manifest_valid :: "manifest \<Rightarrow> bool" where
  "manifest_valid m \<longleftrightarrow>
     (m_edition m = Enterprise \<longleftrightarrow> m_enterprise m \<noteq> None)
     \<and> set (m_mount_priority m) \<subseteq> set (valid_mount_keys m) \<and> distinct (m_mount_priority m)
     \<and> field_errors m = []"

lemma field_errors_enterprise [simp]: "field_errors (m\<lparr>m_enterprise := e\<rparr>) = field_errors m"
  by (simp add: field_errors_def)

lemma valid_mount_keys_enterprise [simp]: "valid_mount_keys (m\<lparr>m_enterprise := e\<rparr>) = valid_mount_keys m"
  by (simp add: valid_mount_keys_def)

lemma validate_manifest_valid:
  "validate_manifest m = Inr m' \<Longrightarrow> manifest_valid m'"
  by (auto simp: validate_manifest_def manifest_valid_def validate_mount_priority_def result_iff
      validate_enterprise_block_iff mount_priority_loop_iff split: sum.splits if_splits)

lemma validate_manifest_fixpoint:
  assumes "manifest_valid m"
  shows "validate_manifest m = Inr m"
proof -
  from assms have "validate_enterprise_block m = Inr m"
    by (auto simp: manifest_valid_def validate_enterprise_block_def)
  moreover from assms have "validate_mount_priority m = Inr m"
    by (simp add: validate_mount_priority_def manifest_valid_def mount_priority_loop_iff result_iff)
  ultimately show ?thesis
    using assms by (simp add: validate_manifest_def manifest_valid_def)
qed

end
