(* ===== verification/Composition.thy ===== *)
theory Composition
  imports Manifest_Schema
begin

text \<open>
  Onion composition (\<open>manifest/composition.py\<close>) and default-ref substitution
  (\<open>manifest/resolution.py\<close>). \<open>compose\<close> runs its three checks in order and then returns the
  chain \<open>core, enterprise?, layers\<dots>, client\<close>. \<open>coherent\<close> is the declarative reading of the
  checks, and \<open>compose_eq\<close> shows that they decide it.
\<close>

datatype chain_item =
    CCore core_layer
  | CEnterprise enterprise_layer
  | CLayer layer
  | CClient client

datatype composition_error =
    ReservedLayerName
  | LayerRequiresEnterprise string
  | OverrideTargetsCore
  | DuplicateOverride string string
  | OverrideUnknownLayer string
  | OverrideUnknownRepo string string
  | OverrideNotGitLayer string string

definition check_reserved_layer_names :: "manifest \<Rightarrow> (composition_error, unit) result" where
  "check_reserved_layer_names m =
     guard (\<not> list_ex (\<lambda>l. layer_name l = ''core'') (m_layers m)) ReservedLayerName"

fun edition_coherence_loop :: "layer list \<Rightarrow> (composition_error, unit) result" where
  "edition_coherence_loop [] = Inr ()"
| "edition_coherence_loop (PublishedLayer p # ls) =
     (if pl_requires_enterprise p then Inl (LayerRequiresEnterprise (pl_name p))
      else edition_coherence_loop ls)"
| "edition_coherence_loop (GitLayer g # ls) = edition_coherence_loop ls"

definition check_published_layer_edition_coherence :: "manifest \<Rightarrow> (composition_error, unit) result" where
  "check_published_layer_edition_coherence m =
     (if m_edition m = Enterprise then Inr () else edition_coherence_loop (m_layers m))"

text \<open>\<open>layers_by_name = {layer.name: layer for layer in manifest.layers}\<close>: the last one wins.\<close>

definition layers_by_name :: "manifest \<Rightarrow> (string \<times> layer) list" where
  "layers_by_name m = dict_comp layer_name (\<lambda>l. l) (m_layers m)"

fun check_overrides_loop ::
    "(string \<times> layer) list \<Rightarrow> (string \<times> string) list \<Rightarrow> override list \<Rightarrow> (composition_error, unit) result" where
  "check_overrides_loop ls targets [] = Inr ()"
| "check_overrides_loop ls targets (ov # ovs) =
     (if ov_layer ov = ''core'' then Inl OverrideTargetsCore
      else if (ov_layer ov, ov_repo ov) \<in> set targets
      then Inl (DuplicateOverride (ov_repo ov) (ov_layer ov))
      else case map_of ls (ov_layer ov) of
             None \<Rightarrow> Inl (OverrideUnknownLayer (ov_layer ov))
           | Some (GitLayer g) \<Rightarrow>
               if ov_repo ov \<in> set (map gr_url (gl_repos g))
               then check_overrides_loop ls ((ov_layer ov, ov_repo ov) # targets) ovs
               else Inl (OverrideUnknownRepo (ov_repo ov) (ov_layer ov))
           | Some (PublishedLayer _) \<Rightarrow> Inl (OverrideNotGitLayer (ov_layer ov) (ov_repo ov)))"

definition check_overrides :: "manifest \<Rightarrow> (composition_error, unit) result" where
  "check_overrides m = check_overrides_loop (layers_by_name m) [] (m_overrides m)"

definition compose :: "manifest \<Rightarrow> (composition_error, chain_item list) result" where
  "compose m =
     rbind (check_reserved_layer_names m) (\<lambda>_.
     rbind (check_published_layer_edition_coherence m) (\<lambda>_.
     rbind (check_overrides m) (\<lambda>_.
     Inr ([CCore (m_core m)]
       @ (case m_enterprise m of None \<Rightarrow> [] | Some e \<Rightarrow> [CEnterprise e])
       @ map CLayer (m_layers m)
       @ [CClient (m_client m)]))))"

text \<open>\<open>resolve_default_ref\<close>, for the core and for the enterprise singleton.\<close>

definition resolve_default_ref :: "string option \<Rightarrow> string \<Rightarrow> string" where
  "resolve_default_ref ref odoo_version = (case ref of Some r \<Rightarrow> r | None \<Rightarrow> odoo_version)"

section \<open>What composition accepts\<close>

definition override_target :: "override \<Rightarrow> string \<times> string" where
  "override_target ov = (ov_layer ov, ov_repo ov)"

definition override_ok :: "manifest \<Rightarrow> override \<Rightarrow> bool" where
  "override_ok m ov \<longleftrightarrow> ov_layer ov \<noteq> ''core'' \<and>
     (\<exists>g. find (\<lambda>l. layer_name l = ov_layer ov) (rev (m_layers m)) = Some (GitLayer g)
          \<and> ov_repo ov \<in> gr_url ` set (gl_repos g))"

definition coherent :: "manifest \<Rightarrow> bool" where
  "coherent m \<longleftrightarrow>
     (\<forall>l \<in> set (m_layers m). layer_name l \<noteq> ''core'')
     \<and> (m_edition m = Enterprise \<or> (\<forall>p. PublishedLayer p \<in> set (m_layers m) \<longrightarrow> \<not> pl_requires_enterprise p))
     \<and> distinct (map override_target (m_overrides m))
     \<and> (\<forall>ov \<in> set (m_overrides m). override_ok m ov)"

definition chain_of :: "manifest \<Rightarrow> chain_item list" where
  "chain_of m = CCore (m_core m)
     # (case m_enterprise m of None \<Rightarrow> [] | Some e \<Rightarrow> [CEnterprise e])
     @ map CLayer (m_layers m) @ [CClient (m_client m)]"

lemma edition_coherence_loop_iff:
  "edition_coherence_loop ls = Inr () \<longleftrightarrow> (\<forall>p. PublishedLayer p \<in> set ls \<longrightarrow> \<not> pl_requires_enterprise p)"
  by (induction ls rule: edition_coherence_loop.induct) auto

lemma check_overrides_loop_iff:
  "check_overrides_loop (layers_by_name m) targets ovs = Inr () \<longleftrightarrow>
     distinct (map override_target ovs) \<and> override_target ` set ovs \<inter> set targets = {}
     \<and> (\<forall>ov \<in> set ovs. override_ok m ov)"
proof (induction ovs arbitrary: targets)
  case (Cons ov ovs)
  have "override_ok m ov \<longleftrightarrow> ov_layer ov \<noteq> ''core'' \<and> (case map_of (layers_by_name m) (ov_layer ov) of
        Some (GitLayer g) \<Rightarrow> ov_repo ov \<in> gr_url ` set (gl_repos g) | _ \<Rightarrow> False)"
    by (auto simp: override_ok_def layers_by_name_def map_of_dict_comp_find split: option.splits layer.splits)
  then show ?case
    using Cons.IH [of "(ov_layer ov, ov_repo ov) # targets"]
    by (auto simp: override_target_def split: option.splits layer.splits)
qed simp

lemma compose_eq: "compose m = Inr ch \<longleftrightarrow> coherent m \<and> ch = chain_of m"
  by (auto simp: compose_def result_iff coherent_def chain_of_def check_reserved_layer_names_def
      check_published_layer_edition_coherence_def check_overrides_def check_overrides_loop_iff
      edition_coherence_loop_iff list_ex_iff)

lemma compose_coherent: "coherent m \<Longrightarrow> compose m = Inr (chain_of m)"
  by (simp add: compose_eq)

lemma coherentD:
  assumes "coherent m"
  shows coherent_core: "l \<in> set (m_layers m) \<Longrightarrow> layer_name l \<noteq> ''core''"
    and coherent_overrides: "distinct (map override_target (m_overrides m))"
    and coherent_override_ok: "ov \<in> set (m_overrides m) \<Longrightarrow> override_ok m ov"
  using assms by (auto simp: coherent_def)

lemma layers_by_name_layer:
  "map_of (layers_by_name m) n = Some l \<Longrightarrow> l \<in> set (m_layers m) \<and> layer_name l = n"
  by (auto simp: layers_by_name_def dest!: dict_comp_SomeD)

end
