(* ===== verification/Lockfile.thy ===== *)
theory Lockfile
  imports Json Composition
begin

text \<open>
  The manifest hash and the versioned \<open>project.lock\<close> document (\<open>manifest/lockfile.py\<close>).
  \<open>model_dump\<close> and \<open>model_validate\<close> are spelled out field by field over \<^typ>\<open>json\<close>. The hash
  function is the parameter \<open>sha\<close> (\<open>hashlib.sha256(\<dots>).hexdigest()\<close>): the text it is applied to is
  pure ASCII, so encoding it changes nothing.
\<close>

section \<open>Manifest hashing\<close>

definition jopt :: "('a \<Rightarrow> json) \<Rightarrow> 'a option \<Rightarrow> json" where
  "jopt f x = (case x of None \<Rightarrow> JNull | Some y \<Rightarrow> f y)"

definition repo_json :: "git_repo \<Rightarrow> json" where
  "repo_json r = JObj [(''url'', JStr (gr_url r)), (''ref'', JStr (gr_ref r))]"

definition core_json :: "core_layer \<Rightarrow> json" where
  "core_json c = JObj [(''type'', JStr ''core''), (''url'', JStr (core_url c)), (''ref'', jopt JStr (core_ref c))]"

definition enterprise_json :: "enterprise_layer \<Rightarrow> json" where
  "enterprise_json e = JObj [(''type'', JStr ''enterprise''), (''url'', JStr (ent_url e)), (''ref'', jopt JStr (ent_ref e))]"

primrec layer_json :: "layer \<Rightarrow> json" where
  "layer_json (PublishedLayer p) = JObj [(''type'', JStr ''published''), (''name'', JStr (pl_name p)),
     (''source'', JStr (pl_source p)), (''version'', JStr (pl_version p)),
     (''category'', JStr (pl_category p)), (''requires_enterprise'', JBool (pl_requires_enterprise p))]"
| "layer_json (GitLayer g) = JObj [(''type'', JStr ''git''), (''name'', JStr (gl_name g)),
     (''repos'', JArr (map repo_json (gl_repos g))), (''category'', JStr (gl_category g))]"

definition client_json :: "client \<Rightarrow> json" where
  "client_json c = JObj [(''type'', JStr ''client''), (''addons_path'', JStr (path_str (cl_addons_path c))),
     (''python_requirements'', jopt (\<lambda>p. JStr (path_str p)) (cl_python_requirements c))]"

definition override_json :: "override \<Rightarrow> json" where
  "override_json ov = JObj [(''layer'', JStr (ov_layer ov)), (''repo'', JStr (ov_repo ov)),
     (''fork'', JStr (ov_fork ov)), (''ref'', JStr (ov_ref ov))]"

definition workspace_json :: "workspace \<Rightarrow> json" where
  "workspace_json w = JObj [(''checkout_timeout_seconds'', jopt JInt (checkout_timeout_seconds w))]"

definition odoo_backend_json :: "odoo_backend_config \<Rightarrow> json" where
  "odoo_backend_json b = JObj [(''http_port'', jopt JInt (http_port b)), (''bind_host'', JStr (bind_host b))]"

definition backend_json :: "backend_config \<Rightarrow> json" where
  "backend_json b = JObj [(''odoo'', jopt odoo_backend_json (bc_odoo b))]"

primrec edition_str :: "edition \<Rightarrow> string" where
  "edition_str Community = ''community''"
| "edition_str Enterprise = ''enterprise''"

definition manifest_json :: "manifest \<Rightarrow> json" where
  "manifest_json m = JObj [(''name'', JStr (m_name m)), (''odoo_version'', JStr (m_odoo_version m)),
     (''edition'', JStr (edition_str (m_edition m))), (''core'', core_json (m_core m)),
     (''enterprise'', jopt enterprise_json (m_enterprise m)), (''layers'', JArr (map layer_json (m_layers m))),
     (''client'', client_json (m_client m)), (''overrides'', JArr (map override_json (m_overrides m))),
     (''workspace'', jopt workspace_json (m_workspace m)), (''backend'', jopt backend_json (m_backend m)),
     (''mount_priority'', JArr (map JStr (m_mount_priority m)))]"

definition manifest_canonical :: "manifest \<Rightarrow> string" where
  "manifest_canonical m = json_dumps False (manifest_json m)"

definition compute_manifest_hash :: "(string \<Rightarrow> string) \<Rightarrow> manifest \<Rightarrow> string" where
  "compute_manifest_hash sha m = sha (manifest_canonical m)"

section \<open>The lockfile\<close>

record resolved_repo =
  rr_url :: string
  rr_ref :: string
  rr_commit :: string

record resolved_git_layer =
  rl_name :: string
  rl_repos :: "resolved_repo list"

record resolved_published_layer =
  rp_name :: string
  rp_source :: string
  rp_version :: string
  rp_digest :: string

record lockfile =
  lf_schema_version :: int
  lf_generated_from :: string
  lf_git_layers :: "resolved_git_layer list"
  lf_published_layers :: "resolved_published_layer list"

definition hex_lower :: "char \<Rightarrow> bool" where
  "hex_lower c \<longleftrightarrow> is_digit c \<or> in_range 97 102 c"

definition DIGEST_PATTERN :: rx where
  "DIGEST_PATTERN = RCat (rlit ''sha256:'') (rpow 64 (RCls hex_lower))"

definition digest_ok :: "string \<Rightarrow> bool" where
  "digest_ok d = re_fullmatch DIGEST_PATTERN d"

datatype lockfile_error =
    V1WithPublishedLayers
  | JsonDecodeError
  | NotAJsonObject
  | VersionNotInteger
  | UnsupportedVersion int
  | InvalidLockDocument

definition resolved_repo_json :: "resolved_repo \<Rightarrow> json" where
  "resolved_repo_json r = JObj [(''url'', JStr (rr_url r)), (''ref'', JStr (rr_ref r)), (''commit'', JStr (rr_commit r))]"

definition git_layer_json :: "resolved_git_layer \<Rightarrow> json" where
  "git_layer_json l = JObj [(''name'', JStr (rl_name l)), (''repos'', JArr (map resolved_repo_json (rl_repos l)))]"

definition published_layer_json :: "resolved_published_layer \<Rightarrow> json" where
  "published_layer_json l = JObj [(''name'', JStr (rp_name l)), (''source'', JStr (rp_source l)),
     (''version'', JStr (rp_version l)), (''digest'', JStr (rp_digest l))]"

definition lockfile_v1_json :: "lockfile \<Rightarrow> json" where
  "lockfile_v1_json lf = JObj [(''schema_version'', JInt 1), (''generated_from'', JStr (lf_generated_from lf)),
     (''layers'', JArr (map git_layer_json (lf_git_layers lf)))]"

definition lockfile_v2_json :: "lockfile \<Rightarrow> json" where
  "lockfile_v2_json lf = JObj [(''schema_version'', JInt 2), (''generated_from'', JStr (lf_generated_from lf)),
     (''git_layers'', JArr (map git_layer_json (lf_git_layers lf))),
     (''published_layers'', JArr (map published_layer_json (lf_published_layers lf)))]"

definition to_canonical_json :: "lockfile \<Rightarrow> (lockfile_error, string) result" where
  "to_canonical_json lf =
     (if lf_schema_version lf = 1 then
        (if lf_published_layers lf \<noteq> [] then Inl V1WithPublishedLayers
         else Inr (json_dumps True (lockfile_v1_json lf) @ [CHR 0x0A]))
      else Inr (json_dumps True (lockfile_v2_json lf) @ [CHR 0x0A]))"

text \<open>Field validation of the nested models: unknown keys are ignored there, and forbidden in
  the two top-level documents.\<close>

definition read_str :: "string \<Rightarrow> json \<Rightarrow> (lockfile_error, string) result" where
  "read_str k v = (case jget k v of Some (JStr s) \<Rightarrow> Inr s | _ \<Rightarrow> Inl InvalidLockDocument)"

definition read_list :: "string \<Rightarrow> (json \<Rightarrow> (lockfile_error, 'a) result) \<Rightarrow> json \<Rightarrow> (lockfile_error, 'a list) result" where
  "read_list k f v = (case jget k v of None \<Rightarrow> Inr [] | Some (JArr vs) \<Rightarrow> rmap f vs | _ \<Rightarrow> Inl InvalidLockDocument)"

definition read_repo :: "json \<Rightarrow> (lockfile_error, resolved_repo) result" where
  "read_repo v = rbind (read_str ''url'' v) (\<lambda>u. rbind (read_str ''ref'' v) (\<lambda>r.
     rbind (read_str ''commit'' v) (\<lambda>c. Inr \<lparr>rr_url = u, rr_ref = r, rr_commit = c\<rparr>)))"

definition read_git_layer :: "json \<Rightarrow> (lockfile_error, resolved_git_layer) result" where
  "read_git_layer v = rbind (read_str ''name'' v) (\<lambda>n. rbind (read_list ''repos'' read_repo v) (\<lambda>rs.
     Inr \<lparr>rl_name = n, rl_repos = rs\<rparr>))"

definition read_published_layer :: "json \<Rightarrow> (lockfile_error, resolved_published_layer) result" where
  "read_published_layer v = rbind (read_str ''name'' v) (\<lambda>n. rbind (read_str ''source'' v) (\<lambda>s.
     rbind (read_str ''version'' v) (\<lambda>ver. rbind (read_str ''digest'' v) (\<lambda>d.
     rbind (guard (digest_ok d) InvalidLockDocument) (\<lambda>_.
     Inr \<lparr>rp_name = n, rp_source = s, rp_version = ver, rp_digest = d\<rparr>)))))"

definition only_keys :: "string list \<Rightarrow> json \<Rightarrow> bool" where
  "only_keys ks v = (case v of JObj kvs \<Rightarrow> list_all (\<lambda>(k, _). k \<in> set ks) kvs | _ \<Rightarrow> False)"

definition from_json :: "string \<Rightarrow> (lockfile_error, lockfile) result" where
  "from_json raw =
     (case json_loads raw of
        None \<Rightarrow> Inl JsonDecodeError
      | Some (JObj kvs) \<Rightarrow>
          (let document = JObj kvs;
               version = (case map_of kvs ''schema_version'' of None \<Rightarrow> JInt 1 | Some v \<Rightarrow> v) in
           case version of
             JInt n \<Rightarrow>
               if n = 1 then
                 rbind (guard (only_keys [''schema_version'', ''generated_from'', ''layers''] document) InvalidLockDocument) (\<lambda>_.
                 rbind (read_str ''generated_from'' document) (\<lambda>g.
                 rbind (read_list ''layers'' read_git_layer document) (\<lambda>ls.
                 Inr \<lparr>lf_schema_version = 1, lf_generated_from = g, lf_git_layers = ls, lf_published_layers = []\<rparr>)))
               else if n = 2 then
                 rbind (guard (only_keys [''schema_version'', ''generated_from'', ''git_layers'', ''published_layers''] document) InvalidLockDocument) (\<lambda>_.
                 rbind (read_str ''generated_from'' document) (\<lambda>g.
                 rbind (read_list ''git_layers'' read_git_layer document) (\<lambda>ls.
                 rbind (read_list ''published_layers'' read_published_layer document) (\<lambda>ps.
                 Inr \<lparr>lf_schema_version = 2, lf_generated_from = g, lf_git_layers = ls, lf_published_layers = ps\<rparr>))))
               else Inl (UnsupportedVersion n)
           | _ \<Rightarrow> Inl VersionNotInteger)
      | Some _ \<Rightarrow> Inl NotAJsonObject)"

text \<open>What pydantic guarantees of a \<open>Lockfile\<close> value, and what its v1 form can hold.\<close>

definition lockfile_ok :: "lockfile \<Rightarrow> bool" where
  "lockfile_ok lf \<longleftrightarrow> lf_schema_version lf \<in> {1, 2} \<and> (\<forall>p \<in> set (lf_published_layers lf). digest_ok (rp_digest p))"

text \<open>The client paths of a parsed manifest are values \<open>pathlib\<close> builds.\<close>

definition paths_ok :: "client \<Rightarrow> bool" where
  "paths_ok c \<longleftrightarrow> wf_path (cl_addons_path c) \<and> pred_option wf_path (cl_python_requirements c)"

section \<open>Digests\<close>

text \<open>The digest pattern spelled out; it is also the code equation, so that evaluation does not run
  the matcher.\<close>

lemma digest_ok_code [code]:
  "digest_ok d \<longleftrightarrow> length d = 71 \<and> prefix ''sha256:'' d \<and> list_all hex_lower (drop 7 d)"
proof -
  have lit: "rxm d (rlit ''sha256:'') 0 j \<longleftrightarrow> j = 7 \<and> prefix ''sha256:'' d" for j
    using rxm_lit [of 0 d "''sha256:''" j] by (simp add: eval_nat_numeral)
  have "digest_ok d \<longleftrightarrow> (\<exists>j. (j = 7 \<and> prefix ''sha256:'' d) \<and> rxm d (rpow 64 (RCls hex_lower)) j (length d))"
    unfolding digest_ok_def DIGEST_PATTERN_def re_fullmatch_iff rxm.simps lit by blast
  also have "\<dots> \<longleftrightarrow> prefix ''sha256:'' d \<and> length d = 71 \<and> (\<forall>k. 7 \<le> k \<and> k < 71 \<longrightarrow> hex_lower (d ! k))"
  proof (cases "prefix ''sha256:'' d")
    case True
    then have "7 \<le> length d" by (auto simp: prefix_def)
    from rxm_pow_cls [OF this, of 64 hex_lower "length d"] True show ?thesis by auto
  qed simp
  also have "\<dots> \<longleftrightarrow> length d = 71 \<and> prefix ''sha256:'' d \<and> list_all hex_lower (drop 7 d)"
  proof -
    have "(\<forall>k. 7 \<le> k \<and> k < 71 \<longrightarrow> hex_lower (d ! k)) \<longleftrightarrow> (\<forall>i < 64. hex_lower (d ! (7 + i)))"
    proof (intro iffI allI impI)
      fix k assume "\<forall>i < 64. hex_lower (d ! (7 + i))" "7 \<le> k \<and> k < (71 :: nat)"
      then have "hex_lower (d ! (7 + (k - 7)))" by (metis less_diff_conv2 numeral_plus_numeral add_num_simps semiring_norm(2,3,4,5,6,7,8,9,10))
      then show "hex_lower (d ! k)" using \<open>7 \<le> k \<and> k < 71\<close> by simp
    qed simp
    then show ?thesis by (auto simp: list_all_length)
  qed
  finally show ?thesis .
qed

lemma digest_ok_replicate: "hex_lower c \<Longrightarrow> digest_ok (''sha256:'' @ replicate 64 c)"
  by (simp add: digest_ok_code list_all_iff)

section \<open>The canonical manifest text is faithful\<close>

lemma wf_jopt [simp]: "(\<And>y. x = Some y \<Longrightarrow> wf_json (f y)) \<Longrightarrow> wf_json (jopt f x)"
  by (cases x) (simp_all add: jopt_def)

lemmas schema_json_defs = repo_json_def core_json_def enterprise_json_def client_json_def override_json_def
  workspace_json_def odoo_backend_json_def backend_json_def

lemma wf_schema_json [simp]:
  "wf_json (repo_json r)" "wf_json (core_json c)" "wf_json (enterprise_json e)" "wf_json (client_json cl)"
  "wf_json (override_json ov)" "wf_json (workspace_json w)" "wf_json (odoo_backend_json ob)" "wf_json (backend_json b)"
  by (simp_all add: schema_json_defs)

lemma wf_layer_json [simp]: "wf_json (layer_json l)"
  by (cases l) (simp_all add: list_all_iff)

lemma wf_manifest_json: "wf_json (manifest_json m)"
  by (simp add: manifest_json_def list_all_iff)

text \<open>String keys are ordered by evaluation, so the sorted form of each document is computed.\<close>

lemmas eval_sort = less_eq_char_def less_char_def

lemma repo_json_inject: "sort_json (repo_json r) = sort_json (repo_json r') \<longleftrightarrow> r = r'"
  by (cases r; cases r') (auto simp: repo_json_def eval_sort)

lemma core_json_inject: "sort_json (core_json c) = sort_json (core_json c') \<longleftrightarrow> c = c'"
  by (cases c; cases c') (auto simp: core_json_def eval_sort jopt_def split: option.splits)

lemma enterprise_json_inject: "sort_json (enterprise_json c) = sort_json (enterprise_json c') \<longleftrightarrow> c = c'"
  by (cases c; cases c') (auto simp: enterprise_json_def eval_sort jopt_def split: option.splits)

lemma override_json_inject: "sort_json (override_json c) = sort_json (override_json c') \<longleftrightarrow> c = c'"
  by (cases c; cases c') (auto simp: override_json_def eval_sort)

lemma workspace_json_inject: "sort_json (workspace_json c) = sort_json (workspace_json c') \<longleftrightarrow> c = c'"
  by (cases c; cases c') (auto simp: workspace_json_def eval_sort jopt_def split: option.splits)

lemma odoo_backend_json_inject: "sort_json (odoo_backend_json c) = sort_json (odoo_backend_json c') \<longleftrightarrow> c = c'"
  by (cases c; cases c') (auto simp: odoo_backend_json_def eval_sort jopt_def split: option.splits)



lemma client_json_inject:
  "paths_ok c \<Longrightarrow> paths_ok c' \<Longrightarrow> sort_json (client_json c) = sort_json (client_json c') \<longleftrightarrow> c = c'"
  by (cases c; cases c') (auto simp: client_json_def eval_sort jopt_def paths_ok_def path_str_inject split: option.splits)

lemma map_sort_inject:
  assumes "\<And>x y. sort_json (f x) = sort_json (f y) \<longleftrightarrow> x = y"
  shows "map (sort_json \<circ> f) xs = map (sort_json \<circ> f) ys \<longleftrightarrow> xs = ys"
  using assms by (simp add: inj_map_eq_map inj_def)

lemma sort_jopt_inject:
  assumes "\<And>x y. sort_json (f x) = sort_json (f y) \<longleftrightarrow> x = y" "\<And>x. sort_json (f x) \<noteq> JNull"
  shows "sort_json (jopt f x) = sort_json (jopt f y) \<longleftrightarrow> x = y"
  using assms by (auto simp: jopt_def split: option.splits) (metis assms(2))

lemma layer_json_inject: "sort_json (layer_json l) = sort_json (layer_json l') \<longleftrightarrow> l = l'"
  by (cases l; cases l') (auto simp: eval_sort map_sort_inject [OF repo_json_inject] published_layer.equality git_layer.equality)

lemma sorted_object_neq_Null [simp]:
  "sort_json (enterprise_json e) \<noteq> JNull" "sort_json (workspace_json w) \<noteq> JNull"
  "sort_json (odoo_backend_json ob) \<noteq> JNull" "sort_json (backend_json b) \<noteq> JNull"
  by (simp_all add: schema_json_defs)

lemma backend_json_inject: "sort_json (backend_json c) = sort_json (backend_json c') \<longleftrightarrow> c = c'"
  by (cases c; cases c') (simp add: backend_json_def eval_sort sort_jopt_inject [OF odoo_backend_json_inject])

lemmas schema_inject = core_json_inject client_json_inject
  map_sort_inject [OF layer_json_inject] map_sort_inject [OF override_json_inject]
  sort_jopt_inject [OF enterprise_json_inject] sort_jopt_inject [OF workspace_json_inject]
  sort_jopt_inject [OF backend_json_inject]

lemma edition_str_inject [simp]: "edition_str e = edition_str e' \<longleftrightarrow> e = e'"
  by (cases e; cases e') simp_all

lemma sort_JStr_comp [simp]: "sort_json \<circ> JStr = JStr"
  by (simp add: fun_eq_iff)

lemma manifest_json_inject:
  assumes "paths_ok (m_client m)" "paths_ok (m_client m')"
  shows "sort_json (manifest_json m) = sort_json (manifest_json m') \<longleftrightarrow> m = m'"
  using assms
  by (cases m; cases m')
    (auto simp: manifest_json_def eval_sort schema_inject inj_map_eq_map inj_def)

theorem manifest_canonical_inject:
  assumes "paths_ok (m_client m)" "paths_ok (m_client m')"
  shows "manifest_canonical m = manifest_canonical m' \<longleftrightarrow> m = m'"
  using manifest_json_inject [OF assms] dumps_inject [OF wf_manifest_json wf_manifest_json, of False m m']
  by (auto simp: manifest_canonical_def)

section \<open>The lock document round trip\<close>

lemma wf_lock_json [simp]:
  "wf_json (resolved_repo_json r)" "wf_json (git_layer_json l)" "wf_json (published_layer_json p)"
  "wf_json (lockfile_v1_json lf)" "wf_json (lockfile_v2_json lf)"
  by (simp_all add: resolved_repo_json_def git_layer_json_def published_layer_json_def
      lockfile_v1_json_def lockfile_v2_json_def list_all_iff)

lemma rmap_left_inverse:
  assumes "\<And>x. x \<in> set xs \<Longrightarrow> f (g x) = Inr x"
  shows "rmap f (map g xs) = Inr xs"
  using assms by (induction xs) simp_all

lemma read_repo_json: "read_repo (sort_json (resolved_repo_json r)) = Inr r"
  by (simp add: resolved_repo_json_def read_repo_def read_str_def jget_def eval_sort)

lemma read_git_layer_json: "read_git_layer (sort_json (git_layer_json l)) = Inr l"
  by (simp add: git_layer_json_def read_git_layer_def read_str_def read_list_def jget_def eval_sort
      rmap_left_inverse read_repo_json)

lemma read_published_layer_json:
  "digest_ok (rp_digest p) \<Longrightarrow> read_published_layer (sort_json (published_layer_json p)) = Inr p"
  by (simp add: published_layer_json_def read_published_layer_def read_str_def jget_def eval_sort guard_def)

theorem from_json_to_canonical_json:
  assumes ok: "lockfile_ok lf" and json: "to_canonical_json lf = Inr s"
  shows "from_json s = Inr lf"
proof -
  have ps: "\<forall>p \<in> set (lf_published_layers lf). digest_ok (rp_digest p)"
    and v: "lf_schema_version lf = 1 \<or> lf_schema_version lf = 2"
    using ok by (auto simp: lockfile_ok_def)
  from v show ?thesis
  proof
    assume 1: "lf_schema_version lf = 1"
    then have s: "s = json_dumps True (lockfile_v1_json lf) @ newline True 0" and "lf_published_layers lf = []"
      using json by (auto simp: to_canonical_json_def newline_def split: if_splits)
    then show ?thesis
      unfolding from_json_def s loads_dumps [OF wf_lock_json(4)] using 1
      by (simp add: lockfile_v1_json_def eval_sort read_str_def read_list_def jget_def
          rmap_left_inverse read_git_layer_json only_keys_def)
  next
    assume 2: "lf_schema_version lf = 2"
    then have s: "s = json_dumps True (lockfile_v2_json lf) @ newline True 0"
      using json by (auto simp: to_canonical_json_def newline_def split: if_splits)
    show ?thesis
      unfolding from_json_def s loads_dumps [OF wf_lock_json(5)] using 2 ps
      by (simp add: lockfile_v2_json_def eval_sort read_str_def read_list_def jget_def
          rmap_left_inverse read_git_layer_json read_published_layer_json only_keys_def)
  qed
qed

end
