(* ===== verification/Locking.thy ===== *)
theory Locking
  imports Lockfile
begin

text \<open>
  Resolution of a manifest to a lock (\<open>manifest/locking.py\<close>, \<open>manifest/artifacts.py\<close>), the
  materialized state (\<open>manifest/state.py\<close>) and drift detection (\<open>manifest/drift.py\<close>).

  The two ports are parameters: \<open>resolve_ref url ref\<close> is \<open>SourceProvider.resolve_ref\<close> and
  \<open>resolve source version\<close> is \<open>PublishedArtifactResolver.resolve\<close>; both may raise a
  \<open>ResolutionError\<close>. \<open>sha\<close> is the hash behind \<open>compute_manifest_hash\<close>.
\<close>

section \<open>Building the lock\<close>

record published_artifact_resolution =
  par_source :: string
  par_version :: string
  par_digest :: string

datatype resolution_error =
    RefNotFoundError string string
  | AuthenticationError string
  | NetworkError string string
  | PublishedArtifactNotFoundError string string
  | PublishedArtifactDigestMissingError string string
  | PublishedArtifactResolutionError string string string

datatype lock_error =
    LockComposition composition_error
  | LockResolution resolution_error
  | LockDigestInvalid string

type_synonym source_provider = "string \<Rightarrow> string \<Rightarrow> (resolution_error, string) result"
type_synonym artifact_resolver = "string \<Rightarrow> string \<Rightarrow> (resolution_error, published_artifact_resolution) result"

definition lift_error :: "('e \<Rightarrow> 'f) \<Rightarrow> ('e, 'a) result \<Rightarrow> ('f, 'a) result" where
  "lift_error f r = (case r of Inl e \<Rightarrow> Inl (f e) | Inr x \<Rightarrow> Inr x)"

definition overrides_dict :: "manifest \<Rightarrow> ((string \<times> string) \<times> override) list" where
  "overrides_dict m = dict_comp (\<lambda>ov. (ov_layer ov, ov_repo ov)) (\<lambda>ov. ov) (m_overrides m)"

definition resolve_repo ::
    "string \<Rightarrow> string \<Rightarrow> string \<Rightarrow> source_provider \<Rightarrow> ((string \<times> string) \<times> override) list \<Rightarrow> (resolution_error, resolved_repo) result" where
  "resolve_repo layer url ref resolve_ref overrides =
     (let override = map_of overrides (layer, url);
          effective_url = (case override of Some ov \<Rightarrow> ov_fork ov | None \<Rightarrow> url);
          effective_ref = (case override of Some ov \<Rightarrow> ov_ref ov | None \<Rightarrow> ref) in
      rbind (resolve_ref effective_url effective_ref) (\<lambda>commit.
      Inr \<lparr>rr_url = effective_url, rr_ref = effective_ref, rr_commit = commit\<rparr>))"

definition resolve_git_layer ::
    "git_layer \<Rightarrow> source_provider \<Rightarrow> ((string \<times> string) \<times> override) list \<Rightarrow> (resolution_error, resolved_git_layer) result" where
  "resolve_git_layer layer resolve_ref overrides =
     rbind (rmap (\<lambda>repo. resolve_repo (gl_name layer) (gr_url repo) (gr_ref repo) resolve_ref overrides) (gl_repos layer))
       (\<lambda>repos. Inr \<lparr>rl_name = gl_name layer, rl_repos = repos\<rparr>)"

definition resolve_core :: "manifest \<Rightarrow> source_provider \<Rightarrow> (resolution_error, resolved_git_layer) result" where
  "resolve_core m resolve_ref =
     (let ref = resolve_default_ref (core_ref (m_core m)) (m_odoo_version m) in
      rbind (resolve_ref (core_url (m_core m)) ref) (\<lambda>commit.
      Inr \<lparr>rl_name = ''core'', rl_repos = [\<lparr>rr_url = core_url (m_core m), rr_ref = ref, rr_commit = commit\<rparr>]\<rparr>))"

definition resolve_enterprise ::
    "manifest \<Rightarrow> enterprise_layer \<Rightarrow> source_provider \<Rightarrow> (resolution_error, resolved_git_layer) result" where
  "resolve_enterprise m e resolve_ref =
     (let ref = resolve_default_ref (ent_ref e) (m_odoo_version m) in
      rbind (resolve_ref (ent_url e) ref) (\<lambda>commit.
      Inr \<lparr>rl_name = ''enterprise'', rl_repos = [\<lparr>rr_url = ent_url e, rr_ref = ref, rr_commit = commit\<rparr>]\<rparr>))"

text \<open>The loop over \<open>manifest.layers\<close>, with its two accumulators. \<open>ResolvedPublishedLayer\<close>
  validates the digest it is given.\<close>

fun resolve_layers ::
    "source_provider \<Rightarrow> artifact_resolver \<Rightarrow> ((string \<times> string) \<times> override) list \<Rightarrow> layer list
     \<Rightarrow> resolved_git_layer list \<Rightarrow> resolved_published_layer list
     \<Rightarrow> (lock_error, resolved_git_layer list \<times> resolved_published_layer list) result" where
  "resolve_layers resolve_ref resolve overrides [] gits pubs = Inr (gits, pubs)"
| "resolve_layers resolve_ref resolve overrides (GitLayer g # ls) gits pubs =
     rbind (lift_error LockResolution (resolve_git_layer g resolve_ref overrides)) (\<lambda>l.
     resolve_layers resolve_ref resolve overrides ls (gits @ [l]) pubs)"
| "resolve_layers resolve_ref resolve overrides (PublishedLayer p # ls) gits pubs =
     rbind (lift_error LockResolution (resolve (pl_source p) (pl_version p))) (\<lambda>r.
     rbind (guard (digest_ok (par_digest r)) (LockDigestInvalid (par_digest r))) (\<lambda>_.
     resolve_layers resolve_ref resolve overrides ls gits
       (pubs @ [\<lparr>rp_name = pl_name p, rp_source = par_source r, rp_version = par_version r, rp_digest = par_digest r\<rparr>])))"

definition build_lock ::
    "(string \<Rightarrow> string) \<Rightarrow> source_provider \<Rightarrow> artifact_resolver \<Rightarrow> manifest \<Rightarrow> (lock_error, lockfile) result" where
  "build_lock sha resolve_ref resolve m =
     rbind (lift_error LockComposition (compose m)) (\<lambda>_.
     rbind (lift_error LockResolution (resolve_core m resolve_ref)) (\<lambda>core.
     rbind (case m_enterprise m of None \<Rightarrow> Inr [core]
            | Some e \<Rightarrow> rbind (lift_error LockResolution (resolve_enterprise m e resolve_ref)) (\<lambda>l. Inr [core, l])) (\<lambda>gits.
     rbind (resolve_layers resolve_ref resolve (overrides_dict m) (m_layers m) gits []) (\<lambda>(git_layers, published).
     Inr \<lparr>lf_schema_version = 2, lf_generated_from = compute_manifest_hash sha m,
          lf_git_layers = git_layers, lf_published_layers = published\<rparr>))))"

section \<open>Materialized state and drift\<close>

record materialized_repo =
  mr_url :: string
  mr_commit :: string

record materialized_layer =
  ml_name :: string
  ml_repos :: "materialized_repo list"

record materialized_state =
  ms_layers :: "materialized_layer list"

datatype drift_kind = ManifestLockHash | MissingLock | NotMaterialized | CommitMismatch

record drift_entry =
  de_kind :: drift_kind
  de_layer :: "string option"
  de_repo :: "string option"
  de_expected :: "string option"
  de_actual :: "string option"

record drift_report =
  manifest_lock_drift :: "drift_entry list"
  lock_state_drift :: "drift_entry list"

definition is_clean :: "drift_report \<Rightarrow> bool" where
  "is_clean r \<longleftrightarrow> manifest_lock_drift r = [] \<and> lock_state_drift r = []"

definition manifest_lock_drift_of :: "(string \<Rightarrow> string) \<Rightarrow> manifest \<Rightarrow> lockfile option \<Rightarrow> drift_entry list" where
  "manifest_lock_drift_of sha m lock =
     (case lock of
        None \<Rightarrow> [\<lparr>de_kind = MissingLock, de_layer = None, de_repo = None, de_expected = None, de_actual = None\<rparr>]
      | Some lf \<Rightarrow>
          (let current_hash = compute_manifest_hash sha m in
           if lf_generated_from lf \<noteq> current_hash
           then [\<lparr>de_kind = ManifestLockHash, de_layer = None, de_repo = None,
                  de_expected = Some current_hash, de_actual = Some (lf_generated_from lf)\<rparr>]
           else []))"

definition repo_drift ::
    "string \<Rightarrow> (string \<times> materialized_repo) list \<Rightarrow> resolved_repo \<Rightarrow> drift_entry list" where
  "repo_drift layer by_url repo =
     (case map_of by_url (rr_url repo) of
        None \<Rightarrow> [\<lparr>de_kind = NotMaterialized, de_layer = Some layer, de_repo = Some (rr_url repo),
                  de_expected = None, de_actual = None\<rparr>]
      | Some mr \<Rightarrow>
          if mr_commit mr \<noteq> rr_commit repo
          then [\<lparr>de_kind = CommitMismatch, de_layer = Some layer, de_repo = Some (rr_url repo),
                 de_expected = Some (rr_commit repo), de_actual = Some (mr_commit mr)\<rparr>]
          else [])"

definition layer_drift :: "(string \<times> materialized_layer) list \<Rightarrow> resolved_git_layer \<Rightarrow> drift_entry list" where
  "layer_drift by_name lock_layer =
     (case map_of by_name (rl_name lock_layer) of
        None \<Rightarrow> [\<lparr>de_kind = NotMaterialized, de_layer = Some (rl_name lock_layer), de_repo = None,
                  de_expected = None, de_actual = None\<rparr>]
      | Some ml \<Rightarrow>
          concat (map (repo_drift (rl_name lock_layer) (dict_comp mr_url (\<lambda>r. r) (ml_repos ml))) (rl_repos lock_layer)))"

definition lock_state_drift_of :: "lockfile option \<Rightarrow> materialized_state option \<Rightarrow> drift_entry list" where
  "lock_state_drift_of lock materialized =
     (case (lock, materialized) of
        (Some lf, Some st) \<Rightarrow>
          concat (map (layer_drift (dict_comp ml_name (\<lambda>l. l) (ms_layers st))) (lf_git_layers lf))
      | _ \<Rightarrow> [])"

definition detect_drift ::
    "(string \<Rightarrow> string) \<Rightarrow> manifest \<Rightarrow> lockfile option \<Rightarrow> materialized_state option \<Rightarrow> drift_report" where
  "detect_drift sha m lock materialized =
     \<lparr>manifest_lock_drift = manifest_lock_drift_of sha m lock,
      lock_state_drift = lock_state_drift_of lock materialized\<rparr>"

section \<open>What the lock pins\<close>

text \<open>The sources a manifest declares, overrides applied: what the lock has to list.\<close>

definition effective_repo :: "manifest \<Rightarrow> string \<Rightarrow> git_repo \<Rightarrow> string \<times> string" where
  "effective_repo m layer repo =
     (case find (\<lambda>ov. ov_layer ov = layer \<and> ov_repo ov = gr_url repo) (rev (m_overrides m)) of
        Some ov \<Rightarrow> (ov_fork ov, ov_ref ov) | None \<Rightarrow> (gr_url repo, gr_ref repo))"

definition expected_singletons :: "manifest \<Rightarrow> (string \<times> (string \<times> string) list) list" where
  "expected_singletons m =
     (''core'', [(core_url (m_core m), resolve_default_ref (core_ref (m_core m)) (m_odoo_version m))])
     # (case m_enterprise m of None \<Rightarrow> []
        | Some e \<Rightarrow> [(''enterprise'', [(ent_url e, resolve_default_ref (ent_ref e) (m_odoo_version m))])])"

fun expected_git_layers :: "manifest \<Rightarrow> layer list \<Rightarrow> (string \<times> (string \<times> string) list) list" where
  "expected_git_layers m [] = []"
| "expected_git_layers m (GitLayer g # ls) =
     (gl_name g, map (effective_repo m (gl_name g)) (gl_repos g)) # expected_git_layers m ls"
| "expected_git_layers m (PublishedLayer p # ls) = expected_git_layers m ls"

fun expected_published :: "layer list \<Rightarrow> (string \<times> string \<times> string) list" where
  "expected_published [] = []"
| "expected_published (GitLayer g # ls) = expected_published ls"
| "expected_published (PublishedLayer p # ls) = (pl_name p, pl_source p, pl_version p) # expected_published ls"

definition git_shape :: "resolved_git_layer list \<Rightarrow> (string \<times> (string \<times> string) list) list" where
  "git_shape = map (\<lambda>l. (rl_name l, map (\<lambda>r. (rr_url r, rr_ref r)) (rl_repos l)))"

definition published_shape :: "resolved_published_layer list \<Rightarrow> (string \<times> string \<times> string) list" where
  "published_shape = map (\<lambda>p. (rp_name p, rp_source p, rp_version p))"

text \<open>Every commit of the layers was returned by the provider for that very pair.\<close>

definition pinned_by :: "source_provider \<Rightarrow> resolved_git_layer list \<Rightarrow> bool" where
  "pinned_by resolve_ref ls \<longleftrightarrow>
     (\<forall>l \<in> set ls. \<forall>r \<in> set (rl_repos l). resolve_ref (rr_url r) (rr_ref r) = Inr (rr_commit r))"

text \<open>A resolver answers for the source and version it was asked for.\<close>

definition faithful_resolver :: "artifact_resolver \<Rightarrow> bool" where
  "faithful_resolver resolve \<longleftrightarrow>
     (\<forall>s v r. resolve s v = Inr r \<longrightarrow> par_source r = s \<and> par_version r = v)"

lemma lift_error_Inr_iff [result_iff]: "lift_error f r = Inr x \<longleftrightarrow> r = Inr x"
  by (cases r) (simp_all add: lift_error_def)

lemma lift_error_Inl_iff [result_iff]: "lift_error f r = Inl e \<longleftrightarrow> (\<exists>e'. r = Inl e' \<and> e = f e')"
  by (cases r) (auto simp: lift_error_def)

lemma lift_error_simps [simp]: "lift_error f (Inl e) = Inl (f e)" "lift_error f (Inr x) = Inr x"
  by (simp_all add: lift_error_def)

lemma overrides_dict_find:
  "map_of (overrides_dict m) (layer, url) = find (\<lambda>ov. ov_layer ov = layer \<and> ov_repo ov = url) (rev (m_overrides m))"
  by (simp add: overrides_dict_def map_of_dict_comp_find)

lemma resolve_repo_shape:
  "resolve_repo layer (gr_url repo) (gr_ref repo) resolve_ref (overrides_dict m) = Inr r \<longleftrightarrow>
     (rr_url r, rr_ref r) = effective_repo m layer repo \<and> resolve_ref (rr_url r) (rr_ref r) = Inr (rr_commit r)"
  by (cases r) (auto simp: resolve_repo_def effective_repo_def overrides_dict_find result_iff Let_def split: option.splits)

lemma resolve_git_layer_shape:
  "resolve_git_layer g resolve_ref (overrides_dict m) = Inr l \<longleftrightarrow>
     rl_name l = gl_name g \<and> map (\<lambda>r. (rr_url r, rr_ref r)) (rl_repos l) = map (effective_repo m (gl_name g)) (gl_repos g)
     \<and> pinned_by resolve_ref [l]"
proof -
  have "list_all2 (\<lambda>repo r. resolve_repo (gl_name g) (gr_url repo) (gr_ref repo) resolve_ref (overrides_dict m) = Inr r) xs ys
      \<longleftrightarrow> map (\<lambda>r. (rr_url r, rr_ref r)) ys = map (effective_repo m (gl_name g)) xs
          \<and> (\<forall>r \<in> set ys. resolve_ref (rr_url r) (rr_ref r) = Inr (rr_commit r))" for xs ys
    by (induction xs arbitrary: ys) (auto simp: list_all2_Cons1 resolve_repo_shape Cons_eq_map_conv map_eq_Cons_conv)
  then show ?thesis
    by (cases l) (auto simp: resolve_git_layer_def result_iff pinned_by_def)
qed

lemma resolve_layers_shape:
  assumes "resolve_layers resolve_ref resolve (overrides_dict m) ls gits pubs = Inr (gits', pubs')"
  shows "git_shape gits' = git_shape gits @ expected_git_layers m ls
    \<and> (pinned_by resolve_ref gits \<longrightarrow> pinned_by resolve_ref gits')
    \<and> (faithful_resolver resolve \<longrightarrow> published_shape pubs' = published_shape pubs @ expected_published ls)
    \<and> ((\<forall>p \<in> set pubs. digest_ok (rp_digest p)) \<longrightarrow> (\<forall>p \<in> set pubs'. digest_ok (rp_digest p)))"
  using assms
proof (induction ls arbitrary: gits pubs)
  case Nil
  then show ?case by simp
next
  case (Cons x ls)
  show ?case
  proof (cases x)
    case (GitLayer g)
    with Cons.prems obtain l where l: "resolve_git_layer g resolve_ref (overrides_dict m) = Inr l"
      and rest: "resolve_layers resolve_ref resolve (overrides_dict m) ls (gits @ [l]) pubs = Inr (gits', pubs')"
      by (auto simp: result_iff)
    show ?thesis
      using Cons.IH [OF rest] l [unfolded resolve_git_layer_shape] GitLayer
      by (auto simp: git_shape_def pinned_by_def)
  next
    case (PublishedLayer p)
    with Cons.prems obtain r where r: "resolve (pl_source p) (pl_version p) = Inr r" "digest_ok (par_digest r)"
      and rest: "resolve_layers resolve_ref resolve (overrides_dict m) ls gits
        (pubs @ [\<lparr>rp_name = pl_name p, rp_source = par_source r, rp_version = par_version r, rp_digest = par_digest r\<rparr>])
        = Inr (gits', pubs')"
      by (auto simp: result_iff)
    show ?thesis
      using Cons.IH [OF rest] r PublishedLayer by (auto simp: published_shape_def faithful_resolver_def)
  qed
qed

text \<open>A built lock is version 2, was generated from its manifest, and lists exactly the declared
  sources, each at the commit the provider gave.\<close>

definition lock_matches :: "manifest \<Rightarrow> lockfile \<Rightarrow> bool" where
  "lock_matches m lf \<longleftrightarrow> git_shape (lf_git_layers lf) = expected_singletons m @ expected_git_layers m (m_layers m)
     \<and> published_shape (lf_published_layers lf) = expected_published (m_layers m)"

lemma build_lock_shape:
  assumes "build_lock sha resolve_ref resolve m = Inr lf"
  shows "coherent m" "lf_schema_version lf = 2" "lf_generated_from lf = compute_manifest_hash sha m"
    "lockfile_ok lf" "pinned_by resolve_ref (lf_git_layers lf)"
    "git_shape (lf_git_layers lf) = expected_singletons m @ expected_git_layers m (m_layers m)"
    "faithful_resolver resolve \<Longrightarrow> lock_matches m lf"
proof -
  from assms obtain core gits git_layers published where
    *: "compose m = Inr (chain_of m)" "coherent m" "resolve_core m resolve_ref = Inr core"
    "(case m_enterprise m of None \<Rightarrow> Inr [core]
      | Some e \<Rightarrow> rbind (lift_error LockResolution (resolve_enterprise m e resolve_ref)) (\<lambda>l. Inr [core, l])) = Inr gits"
    "resolve_layers resolve_ref resolve (overrides_dict m) (m_layers m) gits [] = Inr (git_layers, published)"
    "lf = \<lparr>lf_schema_version = 2, lf_generated_from = compute_manifest_hash sha m,
       lf_git_layers = git_layers, lf_published_layers = published\<rparr>"
    by (auto simp: build_lock_def result_iff compose_eq)
  have base: "git_shape gits = expected_singletons m \<and> pinned_by resolve_ref gits"
    using *(3,4) by (auto simp: resolve_core_def resolve_enterprise_def Let_def result_iff git_shape_def
        expected_singletons_def pinned_by_def split: option.splits)
  note shape = resolve_layers_shape [OF *(5)]
  show "coherent m" "lf_schema_version lf = 2" "lf_generated_from lf = compute_manifest_hash sha m"
    using * by simp_all
  show "lockfile_ok lf" "pinned_by resolve_ref (lf_git_layers lf)"
    "git_shape (lf_git_layers lf) = expected_singletons m @ expected_git_layers m (m_layers m)"
    "faithful_resolver resolve \<Longrightarrow> lock_matches m lf"
    using shape base *(6) by (simp_all add: lockfile_ok_def lock_matches_def published_shape_def)
qed

text \<open>An incoherent manifest is rejected whatever the ports would answer: they are not consulted.\<close>

lemma build_lock_incoherent:
  assumes "\<not> coherent m"
  shows "\<exists>e. \<forall>resolve_ref resolve. build_lock sha resolve_ref resolve m = Inl (LockComposition e)"
proof (cases "compose m")
  case (Inl e)
  then show ?thesis by (auto simp: build_lock_def)
next
  case (Inr ch)
  with assms show ?thesis by (simp add: compose_eq)
qed

lemma resolve_layers_total:
  assumes "\<And>u r. is_ok (resolve_ref u r)" "\<And>s v. \<exists>r. resolve s v = Inr r \<and> digest_ok (par_digest r)"
  shows "is_ok (resolve_layers resolve_ref resolve overrides ls gits pubs)"
proof (induction ls arbitrary: gits pubs)
  case (Cons x ls)
  show ?case
  proof (cases x)
    case (GitLayer g)
    have "is_ok (resolve_git_layer g resolve_ref overrides)"
    proof -
      have "rmap (\<lambda>repo. resolve_repo (gl_name g) (gr_url repo) (gr_ref repo) resolve_ref overrides) rs \<noteq> Inl e" for rs e
        using assms(1) by (induction rs) (auto simp: result_iff resolve_repo_def Let_def is_ok_iff, metis sum.distinct(1))
      then show ?thesis
        by (cases "rmap (\<lambda>repo. resolve_repo (gl_name g) (gr_url repo) (gr_ref repo) resolve_ref overrides) (gl_repos g)")
          (auto simp: resolve_git_layer_def)
    qed
    with GitLayer Cons.IH show ?thesis by (auto simp: is_ok_iff)
  next
    case (PublishedLayer p)
    from assms(2) obtain r where "resolve (pl_source p) (pl_version p) = Inr r" "digest_ok (par_digest r)" by blast
    with PublishedLayer Cons.IH show ?thesis by simp
  qed
qed simp

text \<open>With ports that answer, locking a coherent manifest succeeds.\<close>

lemma build_lock_total:
  assumes "coherent m" "\<And>u r. is_ok (resolve_ref u r)" "\<And>s v. \<exists>r. resolve s v = Inr r \<and> digest_ok (par_digest r)"
  shows "is_ok (build_lock sha resolve_ref resolve m)"
proof -
  have "\<forall>u r. \<exists>c. resolve_ref u r = Inr c" using assms(2) by (simp add: is_ok_iff)
  then obtain c where "\<And>u r. resolve_ref u r = Inr (c u r)" by metis
  moreover have "is_ok (resolve_layers resolve_ref resolve (overrides_dict m) (m_layers m) gits [])" for gits
    by (rule resolve_layers_total) (use assms in auto)
  ultimately show ?thesis
    using compose_coherent [OF assms(1)]
    by (cases "m_enterprise m")
      (auto simp: build_lock_def resolve_core_def resolve_enterprise_def Let_def intro!: is_ok_rbind split: prod.splits)
qed

section \<open>What a clean drift report means\<close>

text \<open>The commit a materialized state holds for a repository of a layer.\<close>

definition state_commit :: "materialized_state \<Rightarrow> string \<Rightarrow> string \<Rightarrow> string option" where
  "state_commit st layer url =
     (case map_of (dict_comp ml_name (\<lambda>l. l) (ms_layers st)) layer of
        None \<Rightarrow> None
      | Some ml \<Rightarrow> map_option mr_commit (map_of (dict_comp mr_url (\<lambda>r. r) (ml_repos ml)) url))"

definition state_has_layer :: "materialized_state \<Rightarrow> string \<Rightarrow> bool" where
  "state_has_layer st layer \<longleftrightarrow> layer \<in> ml_name ` set (ms_layers st)"

lemma layer_drift_Nil_iff:
  "layer_drift (dict_comp ml_name (\<lambda>l. l) (ms_layers st)) l = [] \<longleftrightarrow>
     state_has_layer st (rl_name l) \<and>
     (\<forall>r \<in> set (rl_repos l). state_commit st (rl_name l) (rr_url r) = Some (rr_commit r))"
proof (cases "map_of (dict_comp ml_name (\<lambda>l. l) (ms_layers st)) (rl_name l)")
  case None
  moreover from None have "\<not> state_has_layer st (rl_name l)"
    by (simp add: state_has_layer_def dict_comp_None_iff)
  ultimately show ?thesis by (simp add: layer_drift_def)
next
  case (Some ml)
  then have "state_has_layer st (rl_name l)"
    by (force simp: state_has_layer_def dest!: dict_comp_SomeD)
  with Some show ?thesis
    by (auto simp: layer_drift_def state_commit_def repo_drift_def split: option.splits)
qed

lemma manifest_lock_drift_Nil_iff:
  "manifest_lock_drift_of sha m lock = [] \<longleftrightarrow>
     (\<exists>lf. lock = Some lf \<and> lf_generated_from lf = compute_manifest_hash sha m)"
  by (auto simp: manifest_lock_drift_of_def Let_def split: option.splits)

lemma detect_drift_clean_iff:
  "is_clean (detect_drift sha m lock materialized) \<longleftrightarrow>
     (\<exists>lf. lock = Some lf \<and> lf_generated_from lf = compute_manifest_hash sha m \<and>
        (\<forall>st. materialized = Some st \<longrightarrow>
           (\<forall>l \<in> set (lf_git_layers lf). state_has_layer st (rl_name l) \<and>
              (\<forall>r \<in> set (rl_repos l). state_commit st (rl_name l) (rr_url r) = Some (rr_commit r)))))"
  by (auto simp: is_clean_def detect_drift_def manifest_lock_drift_Nil_iff lock_state_drift_of_def
      layer_drift_Nil_iff split: option.splits)

end
