(* ===== verification/Repo_Url.thy ===== *)
theory Repo_Url
  imports Forge_Prelude
begin

text \<open>
  The repository name derived from a git URL (\<open>_repo_name\<close> of \<open>manifest/projection.py\<close>), with the
  parts of \<open>urllib.parse.urlsplit\<close> it reads: \<open>path\<close>, \<open>hostname\<close> and the \<open>ValueError\<close> that a
  malformed bracketed host raises.
\<close>

section \<open>Splitting a URL\<close>

definition is_alpha :: "char \<Rightarrow> bool" where
  "is_alpha c \<longleftrightarrow> is_lower c \<or> is_upper c"

definition scheme_char :: "char \<Rightarrow> bool" where
  "scheme_char c \<longleftrightarrow> is_alpha c \<or> is_digit c \<or> c \<in> {CHR ''+'', CHR ''-'', CHR ''.''}"

text \<open>Leading C0 controls and spaces go, then tabs and line breaks anywhere.\<close>

definition clean_input :: "string \<Rightarrow> string" where
  "clean_input url = filter (\<lambda>c. cp c \<notin> {9, 10, 13}) (dropWhile (\<lambda>c. cp c \<le> 32) url)"

definition after_scheme :: "string \<Rightarrow> string" where
  "after_scheme url = (case partition_at (CHR '':'') url of
       (scheme, Some rest) \<Rightarrow>
         if scheme \<noteq> [] \<and> is_alpha (hd scheme) \<and> list_all scheme_char scheme then rest else url
     | _ \<Rightarrow> url)"

text \<open>\<open>ipaddress.IPv6Address\<close> on a string.\<close>

definition hextet :: "string \<Rightarrow> bool" where
  "hextet w \<longleftrightarrow> w \<noteq> [] \<and> length w \<le> 4 \<and> list_all (\<lambda>c. is_digit c \<or> in_range 97 102 c \<or> in_range 65 70 c) w"

definition dotted_quad :: "string \<Rightarrow> bool" where
  "dotted_quad s \<longleftrightarrow> length (split_on (CHR ''.'') s) = 4 \<and>
     list_all (\<lambda>w. w \<noteq> [] \<and> list_all is_digit w \<and> length w \<le> 3 \<and> (w = ''0'' \<or> hd w \<noteq> CHR ''0'')
        \<and> foldl (\<lambda>a c. 10 * a + (cp c - 48)) 0 w \<le> 255) (split_on (CHR ''.'') s)"

text \<open>The colon-separated parts; a trailing dotted quad counts as two hextets.\<close>

definition ipv6_parts :: "string \<Rightarrow> string list option" where
  "ipv6_parts s = (let ps = split_on (CHR '':'') s in
     if length ps < 3 then None
     else if CHR ''.'' \<in> set (last ps) then
       (if dotted_quad (last ps) then Some (butlast ps @ [''0'', ''0'']) else None)
     else Some ps)"

definition ipv6_parts_ok :: "string list \<Rightarrow> bool" where
  "ipv6_parts_ok ps \<longleftrightarrow> length ps \<le> 9 \<and>
     (case filter (\<lambda>i. ps ! i = []) [1..<length ps - 1] of
        [] \<Rightarrow> length ps = 8 \<and> list_all hextet ps
      | [k] \<Rightarrow>
          (let hi = take k ps; lo = drop (k + 1) ps;
               hi' = (if hd ps = [] then tl hi else hi); lo' = (if last ps = [] then butlast lo else lo) in
           (hd ps = [] \<longrightarrow> hi' = []) \<and> (last ps = [] \<longrightarrow> lo' = []) \<and>
           length hi' + length lo' < 8 \<and> list_all hextet hi' \<and> list_all hextet lo')
      | _ \<Rightarrow> False)"

definition is_ipv6 :: "string \<Rightarrow> bool" where
  "is_ipv6 s = (case partition_at (CHR ''%'') s of
       (addr, scope) \<Rightarrow>
         (case scope of None \<Rightarrow> True | Some z \<Rightarrow> z \<noteq> [] \<and> CHR ''%'' \<notin> set z) \<and>
         (case ipv6_parts addr of None \<Rightarrow> False | Some ps \<Rightarrow> ipv6_parts_ok ps))"

text \<open>An \<open>IPvFuture\<close> host: \<open>v\<close>, hexadecimal digits, a dot, and anything but a line break.\<close>

definition is_ipvfuture :: "string \<Rightarrow> bool" where
  "is_ipvfuture s = (case partition_at (CHR ''.'') s of
       (v # ver, Some rest) \<Rightarrow> v = CHR ''v'' \<and> ver \<noteq> [] \<and>
         list_all (\<lambda>c. is_digit c \<or> in_range 97 102 c \<or> in_range 65 70 c) ver \<and>
         rest \<noteq> [] \<and> CHR 0x0A \<notin> set rest
     | _ \<Rightarrow> False)"

definition bracketed_host_ok :: "string \<Rightarrow> bool" where
  "bracketed_host_ok host = (if prefix ''v'' host then is_ipvfuture host else is_ipv6 host)"

datatype url_error = InvalidURL

definition check_netloc :: "string \<Rightarrow> (url_error, unit) result" where
  "check_netloc netloc =
     (if CHR ''['' \<in> set netloc \<and> CHR '']'' \<in> set netloc
      then (case partition_at (CHR ''['') netloc of
              (_, Some rest) \<Rightarrow> guard (bracketed_host_ok (before_first (CHR '']'') rest)) InvalidURL
            | _ \<Rightarrow> Inr ())
      else guard (CHR ''['' \<notin> set netloc \<and> CHR '']'' \<notin> set netloc) InvalidURL)"

text \<open>\<open>(netloc, path)\<close> of a URL without query and fragment.\<close>

definition urlsplit :: "string \<Rightarrow> (url_error, string \<times> string) result" where
  "urlsplit url =
     (let rest = after_scheme (clean_input url) in
      if prefix ''//'' rest
      then (let body = drop 2 rest; netloc = takeWhile (\<lambda>c. c \<noteq> CHR ''/'') body in
            rbind (check_netloc netloc) (\<lambda>_. Inr (netloc, drop (length netloc) body)))
      else Inr ([], rest))"

definition url_hostname :: "string \<Rightarrow> string" where
  "url_hostname netloc =
     (let hostinfo = after_last (CHR ''@'') netloc;
          host = (case partition_at (CHR ''['') hostinfo of
                    (_, Some bracketed) \<Rightarrow> before_first (CHR '']'') bracketed
                  | (_, None) \<Rightarrow> before_first (CHR '':'') hostinfo) in
      case partition_at (CHR ''%'') host of
        (h, None) \<Rightarrow> py_lower h
      | (h, Some zone) \<Rightarrow> py_lower h @ CHR ''%'' # zone)"

section \<open>The repository name\<close>

definition repo_name :: "string \<Rightarrow> string" where
  "repo_name url =
     (let clean_url = before_first (CHR ''?'') (before_first (CHR ''#'') url);
          candidate = (case urlsplit clean_url of
             Inl _ \<Rightarrow> ''repository''
           | Inr (netloc, path) \<Rightarrow>
               if strip_char (CHR ''/'') path \<noteq> [] then after_last (CHR ''/'') (rstrip_char (CHR ''/'') path)
               else if url_hostname netloc \<noteq> [] then url_hostname netloc
               else after_last (CHR ''@'') (after_last (CHR '':'') (after_last (CHR ''/'') (rstrip_char (CHR ''/'') clean_url))));
          name = removesuffix candidate ''.git'' in
      if name = [] then ''repository'' else name)"

lemma partition_at_set: "partition_at c s = (a, b) \<Longrightarrow> set a \<subseteq> set s \<and> (\<forall>t. b = Some t \<longrightarrow> set t \<subseteq> set s)"
  by (induction s arbitrary: a b) (auto split: if_splits prod.splits)

lemma set_after_last: "set (after_last c s) \<subseteq> set s"
  by (auto simp: after_last_def dest: set_takeWhileD)

lemma set_before_first: "set (before_first c s) \<subseteq> set s"
  by (auto simp: before_first_def dest: set_takeWhileD)

lemma lower_char_slash: "lower_char c = CHR ''/'' \<longleftrightarrow> c = CHR ''/''"
proof (cases "is_upper c \<or> (in_range 192 222 c \<and> cp c \<noteq> 215)")
  case True
  then have "cp (lower_char c) = cp c + 32" "cp c \<noteq> 47" "cp c + 32 \<noteq> 47"
    by (auto simp: lower_char_def in_range_def cp_def)
  moreover have "cp (CHR ''/'') = 47" by (simp add: cp_def)
  ultimately show ?thesis by metis
qed (auto simp: lower_char_def)

lemma url_hostname_no_slash:
  assumes "CHR ''/'' \<notin> set netloc" shows "CHR ''/'' \<notin> set (url_hostname netloc)"
proof -
  have "set (case partition_at (CHR ''['') h of (_, Some b) \<Rightarrow> before_first (CHR '']'') b
      | (_, None) \<Rightarrow> before_first (CHR '':'') h) \<subseteq> set h" for h
  proof (cases "partition_at (CHR ''['') h")
    case (Pair a b)
    show ?thesis
    proof (cases b)
      case None
      with Pair show ?thesis using set_before_first [of _ h] by simp
    next
      case (Some t)
      with partition_at_set [OF Pair] have "set t \<subseteq> set h" by simp
      with Pair Some show ?thesis using set_before_first [of "CHR '']''" t] by simp
    qed
  qed
  then have host: "set (case partition_at (CHR ''['') (after_last (CHR ''@'') netloc) of
      (_, Some b) \<Rightarrow> before_first (CHR '']'') b
      | (_, None) \<Rightarrow> before_first (CHR '':'') (after_last (CHR ''@'') netloc)) \<subseteq> set netloc"
    using set_after_last by fast
  have "CHR ''/'' \<notin> set (case partition_at (CHR ''%'') h of (a, None) \<Rightarrow> py_lower a
      | (a, Some z) \<Rightarrow> py_lower a @ CHR ''%'' # z)" if h: "CHR ''/'' \<notin> set h" for h
  proof (cases "partition_at (CHR ''%'') h")
    case (Pair a b)
    with h have "CHR ''/'' \<notin> set a" "b = Some z \<Longrightarrow> CHR ''/'' \<notin> set z" for z
      using partition_at_set [OF Pair] by auto
    then show ?thesis
      using Pair by (cases b) (auto simp: py_lower_def lower_char_slash dest: sym)
  qed
  with host assms show ?thesis unfolding url_hostname_def Let_def by blast
qed

lemma set_removesuffix: "set (removesuffix s suf) \<subseteq> set s"
  by (auto simp: removesuffix_def dest: in_set_takeD)

lemma repo_name_no_slash: "CHR ''/'' \<notin> set (repo_name url)"
proof -
  have *: "CHR ''/'' \<notin> set netloc" if "urlsplit u = Inr (netloc, path)" for u netloc path
    using that by (auto simp: urlsplit_def Let_def result_iff dest: set_takeWhileD split: if_splits)
  have "CHR ''/'' \<notin> set (case urlsplit u of
             Inl _ \<Rightarrow> ''repository''
           | Inr (netloc, path) \<Rightarrow>
               if strip_char (CHR ''/'') path \<noteq> [] then after_last (CHR ''/'') (rstrip_char (CHR ''/'') path)
               else if url_hostname netloc \<noteq> [] then url_hostname netloc
               else after_last (CHR ''@'') (after_last (CHR '':'') (after_last (CHR ''/'') (rstrip_char (CHR ''/'') u))))" for u
  proof (cases "urlsplit u")
    case (Inr np)
    obtain netloc path where np: "np = (netloc, path)" by (cases np)
    have "CHR ''/'' \<notin> set (url_hostname netloc)"
      using Inr np * by (intro url_hostname_no_slash) simp
    moreover have "CHR ''/'' \<notin> set (after_last (CHR ''@'') (after_last (CHR '':'') (after_last (CHR ''/'') s)))" for s
      using after_last_free set_after_last by (meson subsetD)
    ultimately show ?thesis by (simp add: Inr np after_last_free)
  qed simp
  then show ?thesis
    unfolding repo_name_def Let_def by (auto dest!: subsetD [OF set_removesuffix])
qed

lemma repo_name_not_Nil: "repo_name url \<noteq> []"
  by (simp add: repo_name_def Let_def)

text \<open>So the name is one path segment, except for the degenerate \<open>.\<close>.\<close>

lemma repo_name_segment: "repo_name url \<noteq> ''.'' \<Longrightarrow> is_segment (repo_name url)"
  by (simp add: is_segment_def repo_name_no_slash repo_name_not_Nil)

lemma strip_char_Nil_iff: "strip_char c s = [] \<longleftrightarrow> (\<forall>x \<in> set s. x = c)"
proof -
  have "strip_char c s = [] \<longleftrightarrow> (\<forall>x \<in> set (dropWhile (\<lambda>x. x = c) s). x = c)"
    by (simp add: strip_char_def rstrip_char_def dropWhile_eq_Nil_conv)
  also have "\<dots> \<longleftrightarrow> dropWhile (\<lambda>x. x = c) s = []"
    by (induction s) auto
  finally show ?thesis by (simp add: dropWhile_eq_Nil_conv)
qed

text \<open>For a URL of the usual shape the name is its last path component: neither the user
  information, nor the host, nor a query or fragment reaches it.\<close>

lemma after_scheme_standard:
  assumes "scheme \<noteq> []" "is_alpha (hd scheme)" "list_all scheme_char scheme"
  shows "after_scheme (scheme @ CHR '':'' # rest) = rest"
proof -
  have "\<not> scheme_char (CHR '':'')" by (simp add: scheme_char_def is_alpha_def in_range_def cp_def)
  with assms(3) have "CHR '':'' \<notin> set scheme" by (auto simp: list_all_iff)
  then have "partition_at (CHR '':'') (scheme @ CHR '':'' # rest) = (scheme, Some rest)"
    by (induction scheme) auto
  with assms show ?thesis by (simp add: after_scheme_def)
qed

definition plain_char :: "char \<Rightarrow> bool" where
  "plain_char c \<longleftrightarrow> cp c > 32 \<and> c \<notin> {CHR ''#'', CHR ''?'', CHR ''['', CHR '']''}"

lemma scheme_char_plain: "scheme_char c \<Longrightarrow> plain_char c"
  by (auto simp: scheme_char_def plain_char_def is_alpha_def in_range_def cp_def)

lemma plain_slashes [simp]: "plain_char (CHR ''/'')" "plain_char (CHR '':'')"
  by (simp_all add: plain_char_def cp_def)

lemma clean_input_plain: "list_all plain_char s \<Longrightarrow> clean_input s = s"
proof (induction s)
  case (Cons c s)
  then have "cp c > 32" "clean_input s = s" by (simp_all add: plain_char_def)
  moreover have "filter (\<lambda>c. cp c \<notin> {9, 10, 13}) s = s"
  proof (rule filter_True, rule ballI)
    fix x assume "x \<in> set s"
    with Cons.prems have "cp x > 32" by (simp add: list_all_iff plain_char_def)
    then show "cp x \<notin> {9, 10, 13}" by simp
  qed
  ultimately show ?case by (simp add: clean_input_def)
qed (simp add: clean_input_def)

text \<open>How a name comes out of the last component of the path, or of the host.\<close>

definition name_of :: "string \<Rightarrow> string" where
  "name_of w = (let n = removesuffix w ''.git'' in if n = [] then ''repository'' else n)"

lemma repo_name_split:
  assumes scheme: "scheme \<noteq> []" "is_alpha (hd scheme)" "list_all scheme_char scheme"
    and plain: "list_all plain_char (scheme @ ''://'' @ netloc @ path)"
    and netloc: "CHR ''/'' \<notin> set netloc" and path: "path = [] \<or> hd path = CHR ''/''"
    and tail: "tail = [] \<or> hd tail = CHR ''?'' \<or> hd tail = CHR ''#''"
  shows "strip_char (CHR ''/'') path \<noteq> [] \<Longrightarrow>
      repo_name (scheme @ ''://'' @ netloc @ path @ tail) = name_of (after_last (CHR ''/'') (rstrip_char (CHR ''/'') path))"
    and "strip_char (CHR ''/'') path = [] \<Longrightarrow> url_hostname netloc \<noteq> [] \<Longrightarrow>
      repo_name (scheme @ ''://'' @ netloc @ path @ tail) = name_of (url_hostname netloc)"
proof -
  let ?u = "scheme @ ''://'' @ netloc @ path"
  have free: "CHR ''#'' \<notin> set ?u" "CHR ''?'' \<notin> set ?u" "CHR ''['' \<notin> set netloc" "CHR '']'' \<notin> set netloc"
    using plain by (auto simp: list_all_iff plain_char_def)
  have cut: "takeWhile (\<lambda>x. x \<noteq> c) (?u @ t) = ?u @ takeWhile (\<lambda>x. x \<noteq> c) t" if "c \<notin> set ?u" for c t
    by (rule takeWhile_append2) (use that in metis)
  have "takeWhile (\<lambda>x. x \<noteq> CHR ''?'') (takeWhile (\<lambda>x. x \<noteq> CHR ''#'') tail) = []"
    using tail by (cases tail) auto
  then have clean: "before_first (CHR ''?'') (before_first (CHR ''#'') (?u @ tail)) = ?u"
    unfolding before_first_def using cut free by simp
  have "after_scheme (clean_input ?u) = ''//'' @ netloc @ path"
    using after_scheme_standard [OF scheme, of "''//'' @ netloc @ path"] clean_input_plain [OF plain] by simp
  moreover have "takeWhile (\<lambda>c. c \<noteq> CHR ''/'') (netloc @ path) = netloc"
    using netloc path by (cases path) (auto simp: takeWhile_append)
  moreover have "check_netloc netloc = Inr ()" using free by (simp add: check_netloc_def)
  ultimately have split: "urlsplit ?u = Inr (netloc, path)" by (simp add: urlsplit_def Let_def)
  show "strip_char (CHR ''/'') path \<noteq> [] \<Longrightarrow>
      repo_name (scheme @ ''://'' @ netloc @ path @ tail) = name_of (after_last (CHR ''/'') (rstrip_char (CHR ''/'') path))"
    "strip_char (CHR ''/'') path = [] \<Longrightarrow> url_hostname netloc \<noteq> [] \<Longrightarrow>
      repo_name (scheme @ ''://'' @ netloc @ path @ tail) = name_of (url_hostname netloc)"
    using clean split unfolding repo_name_def name_of_def Let_def by simp_all
qed

text \<open>The last component of a path, whatever slashes follow it.\<close>

lemma last_component:
  assumes "CHR ''/'' \<notin> set base" "base \<noteq> []"
  shows "strip_char (CHR ''/'') (dir @ ''/'' @ base @ replicate k (CHR ''/'')) \<noteq> []"
    and "after_last (CHR ''/'') (rstrip_char (CHR ''/'') (dir @ ''/'' @ base @ replicate k (CHR ''/''))) = base"
proof -
  have "hd base \<in> set base" using assms(2) by (rule hd_in_set)
  then have "hd base \<in> set (dir @ ''/'' @ base @ replicate k (CHR ''/''))" "hd base \<noteq> CHR ''/''" using assms(1) by (simp, metis)
  then show "strip_char (CHR ''/'') (dir @ ''/'' @ base @ replicate k (CHR ''/'')) \<noteq> []" unfolding strip_char_Nil_iff by blast
  have "rstrip_char (CHR ''/'') (p @ replicate k (CHR ''/'')) = rstrip_char (CHR ''/'') p" for p
    by (simp add: rstrip_char_def dropWhile_append)
  moreover have "rstrip_char (CHR ''/'') (p @ CHR ''/'' # base) = p @ CHR ''/'' # base" for p
    using assms by (cases base rule: rev_cases) (auto simp: rstrip_char_def)
  moreover have "dir @ ''/'' @ base @ replicate k (CHR ''/'') = (dir @ CHR ''/'' # base) @ replicate k (CHR ''/'')" by simp
  ultimately show "after_last (CHR ''/'') (rstrip_char (CHR ''/'') (dir @ ''/'' @ base @ replicate k (CHR ''/''))) = base"
    using after_last_append [OF assms(1)] by metis
qed

text \<open>The host name of a network location, without its user information and port.\<close>

lemma partition_at_None: "c \<notin> set s \<Longrightarrow> partition_at c s = (s, None)"
  by (induction s) auto

lemma after_last_user:
  assumes "user = [] \<or> last user = c" "c \<notin> set host" shows "after_last c (user @ host) = host"
proof (cases user rule: rev_cases)
  case Nil
  from assms(2) have "takeWhile (\<lambda>x. x \<noteq> c) (rev host) = rev host" by (intro takeWhile_eq_all_conv [THEN iffD2]) auto
  then show ?thesis unfolding Nil after_last_def by (simp only: append_Nil rev_rev_ident)
next
  case (snoc us x)
  with assms(1) have "user @ host = us @ c # host" by simp
  then show ?thesis using after_last_append [OF assms(2)] by simp
qed

lemma url_hostname_plain:
  assumes "user = [] \<or> last user = CHR ''@''" "CHR ''@'' \<notin> set host" "CHR ''%'' \<notin> set host" "CHR ''['' \<notin> set host"
  shows "url_hostname (user @ host) = py_lower (before_first (CHR '':'') host)"
proof -
  have "CHR ''%'' \<notin> set (before_first (CHR '':'') host)" using assms(3) set_before_first by fast
  then show ?thesis
    using after_last_user [OF assms(1,2)] by (simp add: url_hostname_def partition_at_None assms(4))
qed

end
