(* ===== verification/Projection.thy ===== *)
theory Projection
  imports Locking Repo_Url "HOL-Library.Multiset"
begin

text \<open>
  Workspace projection (\<open>manifest/projection.py\<close>): the mount table, the checkout plan, promotion to
  a worktree, reading a scanned workspace back, and the validation that selects one bind mount per
  locked repository. A mount table is a dictionary from root keys to paths; a missing key is a
  \<open>KeyError\<close>.
\<close>

section \<open>Mount roots\<close>

type_synonym mount_roots = "(string \<times> path) list"

datatype workspace_error =
    OrphanedLayer string
  | UnknownLayer string
  | RepoNotInLayer string
  | RootKeyError string
  | EvidenceKeyError
  | LayoutMismatch path
  | LockRequired
  | ManifestLockDrift
  | StructuralMismatch
  | DuplicateIdentities
  | ConflictingContainerPaths
  | UnexpectedEvidence string string
  | IncoherentPath string string
  | DuplicateEvidence string string
  | CommitDrift string string
  | MissingEvidence string string
  | DuplicateMaterialized string string
  | MaterializedMismatch
  | MaterializedCommitDrift string string
  | ProjComposition composition_error

definition CONTAINER_MOUNT_BASE :: path where
  "CONTAINER_MOUNT_BASE = Path ''/'' [''mnt'']"

definition system_roots :: "path \<Rightarrow> mount_roots" where
  "system_roots base = [(''community'', path_join base ''community''),
     (''enterprise'', path_join base ''enterprise''), (''worktrees'', path_join base ''worktrees'')]"

definition declared_categories :: "manifest \<Rightarrow> string list" where
  "declared_categories m = sort (remdups (map layer_category (m_layers m)))"

definition build_mount_roots :: "path \<Rightarrow> manifest option \<Rightarrow> mount_roots" where
  "build_mount_roots base manifest =
     (case manifest of
        None \<Rightarrow> system_roots base @ [(''custom'', path_join base ''custom'')]
      | Some m \<Rightarrow>
          fold (\<lambda>category roots.
              AList.update (''custom/'' @ custom_category_folder category)
                (path_join (path_join base ''custom'') (custom_category_folder category)) roots)
            (declared_categories m) (system_roots base))"

definition MOUNT_ROOTS :: mount_roots where
  "MOUNT_ROOTS = build_mount_roots CONTAINER_MOUNT_BASE None"

definition default_container_roots :: "manifest \<Rightarrow> mount_roots" where
  "default_container_roots m = build_mount_roots CONTAINER_MOUNT_BASE (Some m)"

definition root_path :: "mount_roots \<Rightarrow> string \<Rightarrow> (workspace_error, path) result" where
  "root_path roots key = of_option (RootKeyError key) (map_of roots key)"

definition default_root_order :: "mount_roots \<Rightarrow> string list" where
  "default_root_order roots =
     filter (\<lambda>key. map_of roots key \<noteq> None) [''worktrees'', ''community'', ''enterprise'']
     @ sort (filter (prefix ''custom/'') (map fst roots))"

definition ordered_root_keys :: "manifest \<Rightarrow> mount_roots \<Rightarrow> string list" where
  "ordered_root_keys m roots =
     m_mount_priority m @ filter (\<lambda>key. key \<notin> set (m_mount_priority m)) (default_root_order roots)"

definition ordered_addons_roots :: "manifest \<Rightarrow> path \<Rightarrow> (workspace_error, path list) result" where
  "ordered_addons_roots m base =
     (let roots = build_mount_roots base (Some m) in rmap (root_path roots) (ordered_root_keys m roots))"

section \<open>Planning\<close>

record scanned_repo =
  sc_path :: path
  sc_url :: string
  sc_commit :: string

record workspace_plan_entry =
  wp_mount_root :: string
  wp_layer :: string
  wp_url :: string
  wp_commit :: string
  wp_target_path :: path

record mount_evidence =
  me_layer :: string
  me_url :: string
  me_source_path :: path
  me_container_path :: path
  me_read_only :: bool

record unlock_plan =
  up_source :: path
  up_dest :: path
  up_branch :: string

datatype any_layer =
    AnyCore core_layer
  | AnyEnterprise enterprise_layer
  | AnyLayer layer

primrec classify_root :: "any_layer \<Rightarrow> string" where
  "classify_root (AnyCore c) = ''community''"
| "classify_root (AnyEnterprise e) = ''enterprise''"
| "classify_root (AnyLayer l) = custom_root_key (layer_category l)"

definition manifest_layers_by_name :: "manifest \<Rightarrow> (string \<times> any_layer) list" where
  "manifest_layers_by_name m =
     fold (\<lambda>l d. AList.update (layer_name l) (AnyLayer l) d) (m_layers m)
       ((''core'', AnyCore (m_core m))
        # (case m_enterprise m of None \<Rightarrow> [] | Some e \<Rightarrow> [(''enterprise'', AnyEnterprise e)]))"

definition projected_path :: "path \<Rightarrow> string \<Rightarrow> string \<Rightarrow> path" where
  "projected_path root layer url = path_join (path_join root layer) (repo_name url)"

fun plan_repos ::
    "mount_roots \<Rightarrow> string \<Rightarrow> string \<Rightarrow> resolved_repo list \<Rightarrow> (workspace_error, workspace_plan_entry list) result" where
  "plan_repos roots mount_root layer [] = Inr []"
| "plan_repos roots mount_root layer (repo # repos) =
     rbind (root_path roots mount_root) (\<lambda>root.
     rbind (plan_repos roots mount_root layer repos) (\<lambda>steps.
     Inr (\<lparr>wp_mount_root = mount_root, wp_layer = layer, wp_url = rr_url repo, wp_commit = rr_commit repo,
           wp_target_path = projected_path root layer (rr_url repo)\<rparr> # steps)))"

fun plan_layers ::
    "(string \<times> any_layer) list \<Rightarrow> mount_roots \<Rightarrow> resolved_git_layer list \<Rightarrow> (workspace_error, workspace_plan_entry list) result" where
  "plan_layers by_name roots [] = Inr []"
| "plan_layers by_name roots (l # ls) =
     rbind (of_option (OrphanedLayer (rl_name l)) (map_of by_name (rl_name l))) (\<lambda>matched.
     rbind (plan_repos roots (classify_root matched) (rl_name l) (rl_repos l)) (\<lambda>steps.
     rbind (plan_layers by_name roots ls) (\<lambda>rest. Inr (steps @ rest))))"

definition plan_projection ::
    "manifest \<Rightarrow> lockfile \<Rightarrow> mount_roots option \<Rightarrow> (workspace_error, workspace_plan_entry list) result" where
  "plan_projection m lock roots =
     plan_layers (manifest_layers_by_name m)
       (case roots of None \<Rightarrow> default_container_roots m | Some r \<Rightarrow> r) (lf_git_layers lock)"

fun declared_urls :: "any_layer \<Rightarrow> string list" where
  "declared_urls (AnyCore c) = [core_url c]"
| "declared_urls (AnyEnterprise e) = [ent_url e]"
| "declared_urls (AnyLayer (GitLayer g)) = map gr_url (gl_repos g)"
| "declared_urls (AnyLayer (PublishedLayer p)) = []"

definition plan_unlock ::
    "manifest \<Rightarrow> string \<Rightarrow> string \<Rightarrow> mount_roots option \<Rightarrow> (workspace_error, unlock_plan) result" where
  "plan_unlock m layer repo_url roots_opt =
     (let roots = (case roots_opt of None \<Rightarrow> default_container_roots m | Some r \<Rightarrow> r) in
      rbind (of_option (UnknownLayer layer) (map_of (manifest_layers_by_name m) layer)) (\<lambda>matched.
      rbind (guard (repo_url \<in> set (declared_urls matched)) (RepoNotInLayer layer)) (\<lambda>_.
      let effective_url = (case find (\<lambda>ov. ov_layer ov = layer \<and> ov_repo ov = repo_url) (m_overrides m) of
            Some ov \<Rightarrow> ov_fork ov | None \<Rightarrow> repo_url) in
      rbind (root_path roots (classify_root matched)) (\<lambda>root.
      rbind (root_path roots ''worktrees'') (\<lambda>worktrees.
      Inr \<lparr>up_source = projected_path root layer effective_url,
           up_dest = projected_path worktrees layer effective_url,
           up_branch = ''unlock/'' @ layer @ ''/'' @ repo_name effective_url\<rparr>)))))"

text \<open>\<open>project_workspace\<close> over a provider that changes a world \<open>'w\<close> and may raise \<open>'e\<close>.\<close>

fun project_workspace ::
    "(string \<Rightarrow> string \<Rightarrow> path \<Rightarrow> 'w \<Rightarrow> 'w \<times> ('e, unit) result) \<Rightarrow> workspace_plan_entry list \<Rightarrow> 'w \<Rightarrow> 'w \<times> ('e, unit) result" where
  "project_workspace checkout [] w = (w, Inr ())"
| "project_workspace checkout (s # ss) w =
     (case checkout (wp_url s) (wp_commit s) (wp_target_path s) w of
        (w', Inl e) \<Rightarrow> (w', Inl e)
      | (w', Inr _) \<Rightarrow> project_workspace checkout ss w')"

section \<open>Reading a workspace back\<close>

fun match_root_and_layer :: "path \<Rightarrow> mount_roots \<Rightarrow> (string \<times> string) option" where
  "match_root_and_layer p [] = None"
| "match_root_and_layer p ((root_name, base) # roots) =
     (case relative_to p base of
        None \<Rightarrow> match_root_and_layer p roots
      | Some parts \<Rightarrow> if length parts < 2 then None else Some (root_name, hd parts))"

type_synonym layer_repos = "(string \<times> (string \<times> materialized_repo) list) list"

definition put_repo :: "string \<Rightarrow> scanned_repo \<Rightarrow> layer_repos \<Rightarrow> layer_repos" where
  "put_repo layer repo layers =
     (let inner = (case map_of layers layer of None \<Rightarrow> [] | Some d \<Rightarrow> d) in
      AList.update layer
        (AList.update (sc_url repo) \<lparr>mr_url = sc_url repo, mr_commit = sc_commit repo\<rparr> inner) layers)"

fun materialize_loop ::
    "mount_roots \<Rightarrow> scanned_repo list \<Rightarrow> layer_repos \<Rightarrow> (string \<times> scanned_repo) list
     \<Rightarrow> (workspace_error, layer_repos \<times> (string \<times> scanned_repo) list) result" where
  "materialize_loop roots [] layers worktrees = Inr (layers, worktrees)"
| "materialize_loop roots (repo # scanned) layers worktrees =
     rbind (of_option (LayoutMismatch (sc_path repo)) (match_root_and_layer (sc_path repo) roots)) (\<lambda>(root_name, layer).
     if root_name = ''worktrees'' then materialize_loop roots scanned layers (worktrees @ [(layer, repo)])
     else materialize_loop roots scanned (put_repo layer repo layers) worktrees)"

definition materialize_state :: "scanned_repo list \<Rightarrow> mount_roots \<Rightarrow> (workspace_error, materialized_state) result" where
  "materialize_state scanned roots =
     rbind (materialize_loop roots scanned [] []) (\<lambda>(layers, worktrees).
     let layers' = fold (\<lambda>(layer, repo). put_repo layer repo) worktrees layers in
     Inr \<lparr>ms_layers = map (\<lambda>(layer, repos). \<lparr>ml_name = layer, ml_repos = map snd repos\<rparr>) layers'\<rparr>)"

section \<open>The mount-planning view\<close>

definition step_identity :: "workspace_plan_entry \<Rightarrow> string \<times> string" where
  "step_identity s = (wp_layer s, wp_url s)"

datatype source_kind = Worktree | ReadOnly

type_synonym evidence = "((string \<times> string) \<times> (source_kind \<times> scanned_repo) list) list"

definition validate_lock_structure :: "manifest \<Rightarrow> lockfile \<Rightarrow> (workspace_error, unit) result" where
  "validate_lock_structure m lock =
     rbind (lift_error ProjComposition (compose m)) (\<lambda>_.
     guard (expected_singletons m @ expected_git_layers m (m_layers m) = git_shape (lf_git_layers lock)
        \<and> expected_published (m_layers m) = published_shape (lf_published_layers lock)) StructuralMismatch)"

fun index_materialized ::
    "(string \<times> string \<times> string) list \<Rightarrow> ((string \<times> string) \<times> string) list
     \<Rightarrow> (workspace_error, ((string \<times> string) \<times> string) list) result" where
  "index_materialized [] actual = Inr actual"
| "index_materialized ((layer, url, commit) # rest) actual =
     (if map_of actual (layer, url) \<noteq> None then Inl (DuplicateMaterialized layer (repo_name url))
      else index_materialized rest (actual @ [((layer, url), commit)]))"

fun check_commits ::
    "((string \<times> string) \<times> string) list \<Rightarrow> ((string \<times> string) \<times> string) list \<Rightarrow> (workspace_error, unit) result" where
  "check_commits actual [] = Inr ()"
| "check_commits actual ((identity, commit) # rest) =
     (if map_of actual identity \<noteq> Some commit
      then Inl (MaterializedCommitDrift (fst identity) (repo_name (snd identity)))
      else check_commits actual rest)"

definition state_entries :: "materialized_state \<Rightarrow> (string \<times> string \<times> string) list" where
  "state_entries st = concat (map (\<lambda>l. map (\<lambda>r. (ml_name l, mr_url r, mr_commit r)) (ml_repos l)) (ms_layers st))"

definition validate_materialized_state ::
    "materialized_state \<Rightarrow> ((string \<times> string) \<times> string) list \<Rightarrow> (workspace_error, unit) result" where
  "validate_materialized_state st expected =
     rbind (index_materialized (state_entries st) []) (\<lambda>actual.
     rbind (guard (set (map fst actual) = set (map fst expected)) MaterializedMismatch) (\<lambda>_.
     check_commits actual expected))"

fun collect_evidence ::
    "mount_roots \<Rightarrow> ((string \<times> string) \<times> workspace_plan_entry) list \<Rightarrow> scanned_repo list \<Rightarrow> evidence
     \<Rightarrow> (workspace_error, evidence) result" where
  "collect_evidence roots expected [] sources = Inr sources"
| "collect_evidence roots expected (repo # scanned) sources =
     rbind (of_option (LayoutMismatch (sc_path repo)) (match_root_and_layer (sc_path repo) roots)) (\<lambda>(root_name, layer).
     let identity = (layer, sc_url repo) in
     rbind (of_option (UnexpectedEvidence layer (repo_name (sc_url repo))) (map_of expected identity)) (\<lambda>step.
     let kind = (if root_name = ''worktrees'' then Worktree else ReadOnly) in
     rbind (root_path roots (if kind = Worktree then ''worktrees'' else wp_mount_root step)) (\<lambda>root.
     rbind (guard (sc_path repo = projected_path root layer (sc_url repo)) (IncoherentPath layer (repo_name (sc_url repo)))) (\<lambda>_.
     let by_source = (case map_of sources identity of None \<Rightarrow> [] | Some d \<Rightarrow> d) in
     rbind (guard (map_of by_source kind = None) (DuplicateEvidence layer (repo_name (sc_url repo)))) (\<lambda>_.
     collect_evidence roots expected scanned (AList.update identity (by_source @ [(kind, repo)]) sources))))))"

definition select_evidence :: "(source_kind \<times> scanned_repo) list \<Rightarrow> scanned_repo option" where
  "select_evidence by_source =
     (case map_of by_source Worktree of Some r \<Rightarrow> Some r | None \<Rightarrow> map_of by_source ReadOnly)"

definition check_selected ::
    "((string \<times> string) \<times> workspace_plan_entry) list \<Rightarrow> evidence \<Rightarrow> (workspace_error, unit) result" where
  "check_selected expected sources =
     rfold (\<lambda>(identity, by_source) _.
       case (map_of expected identity, select_evidence by_source) of
         (Some step, Some selected) \<Rightarrow>
           guard (sc_commit selected = wp_commit step) (CommitDrift (wp_layer step) (repo_name (wp_url step)))
       | _ \<Rightarrow> Inl EvidenceKeyError) sources ()"

definition mount_of ::
    "mount_roots \<Rightarrow> evidence \<Rightarrow> (string \<times> string) \<times> workspace_plan_entry \<Rightarrow> (workspace_error, mount_evidence) result" where
  "mount_of container_roots sources = (\<lambda>(identity, step).
     let by_source = (case map_of sources identity of None \<Rightarrow> [] | Some d \<Rightarrow> d) in
     rbind (of_option (MissingEvidence (wp_layer step) (repo_name (wp_url step))) (select_evidence by_source)) (\<lambda>ev.
     rbind (root_path container_roots (wp_mount_root step)) (\<lambda>root.
     Inr \<lparr>me_layer = wp_layer step, me_url = wp_url step, me_source_path = sc_path ev,
          me_container_path = projected_path root (wp_layer step) (wp_url step),
          me_read_only = (map_of by_source Worktree = None)\<rparr>)))"

definition container_path_of :: "mount_roots \<Rightarrow> workspace_plan_entry \<Rightarrow> (workspace_error, path) result" where
  "container_path_of container_roots step =
     rbind (root_path container_roots (wp_mount_root step)) (\<lambda>root.
     Inr (projected_path root (wp_layer step) (wp_url step)))"

definition build_mount_planning_view ::
    "(string \<Rightarrow> string) \<Rightarrow> manifest \<Rightarrow> lockfile option \<Rightarrow> scanned_repo list \<Rightarrow> materialized_state
     \<Rightarrow> mount_roots \<Rightarrow> mount_roots option \<Rightarrow> (workspace_error, mount_evidence list) result" where
  "build_mount_planning_view sha m lock_opt scanned state roots container_opt =
     (let container_roots = (case container_opt of None \<Rightarrow> default_container_roots m | Some r \<Rightarrow> r) in
      rbind (of_option LockRequired lock_opt) (\<lambda>lock.
      rbind (guard (manifest_lock_drift (detect_drift sha m (Some lock) None) = []) ManifestLockDrift) (\<lambda>_.
      rbind (validate_lock_structure m lock) (\<lambda>_.
      rbind (plan_projection m lock None) (\<lambda>steps.
      let expected = dict_comp step_identity (\<lambda>s. s) steps in
      rbind (guard (length expected = length steps) DuplicateIdentities) (\<lambda>_.
      rbind (rmap (container_path_of container_roots) steps) (\<lambda>container_paths.
      rbind (guard (card (set container_paths) = length container_paths) ConflictingContainerPaths) (\<lambda>_.
      rbind (collect_evidence roots expected scanned []) (\<lambda>sources.
      rbind (check_selected expected sources) (\<lambda>_.
      rbind (rmap (mount_of container_roots sources) (sort_key fst expected)) (\<lambda>mounts.
      rbind (validate_materialized_state state (map (\<lambda>(identity, step). (identity, wp_commit step)) expected)) (\<lambda>_.
      Inr mounts))))))))))))"

section \<open>The mount table\<close>

text \<open>What reading a workspace back needs of a mount table: no root lies under another.\<close>

locale mount_table =
  fixes roots :: mount_roots
  assumes no_nesting: "map_of roots k = Some p \<Longrightarrow> (k', p') \<in> set roots \<Longrightarrow> path_root p = path_root p' \<Longrightarrow>
      prefix (path_segs p) (path_segs p') \<or> prefix (path_segs p') (path_segs p) \<Longrightarrow> k' = k \<and> p' = p"
begin

text \<open>A checkout under one of the roots is attributed to that root and to its layer.\<close>

lemma match_projected:
  assumes "map_of roots k = Some base" "is_segment layer" "is_segment name"
  shows "match_root_and_layer (path_join (path_join base layer) name) roots = Some (k, layer)"
proof -
  obtain r ss where base: "base = Path r ss" by (cases base)
  have *: "match_root_and_layer (Path r (ss @ [layer, name])) rs = Some (k, layer)"
    if "map_of rs k = Some base" "set rs \<subseteq> set roots" for rs
    using that
  proof (induction rs)
    case (Cons kp rs)
    obtain k' p' where kp: "kp = (k', p')" by (cases kp)
    show ?case
    proof (cases "relative_to (Path r (ss @ [layer, name])) p'")
      case None
      have "k' \<noteq> k"
      proof
        assume "k' = k"
        with Cons.prems kp base have "p' = Path r ss" by simp
        with None show False by simp
      qed
      with Cons None kp show ?thesis by simp
    next
      case (Some parts)
      then have "path_root p' = r" "prefix (path_segs p') (ss @ [layer, name])"
        by (auto simp: relative_to_Some_iff prefix_def path.expand)
      then have "prefix ss (path_segs p') \<or> prefix (path_segs p') ss"
        by (meson prefixI prefix_same_cases)
      moreover have "(k', p') \<in> set roots" using Cons.prems kp by auto
      ultimately have "k' = k \<and> p' = base"
        using no_nesting [OF assms(1), of k' p'] base \<open>path_root p' = r\<close> by simp
      moreover from this Some base have "parts = [layer, name]" by simp
      ultimately show ?thesis using Some kp by simp
    qed
  qed simp
  show ?thesis using * [OF assms(1)] assms base by simp
qed

end

lemma segment_consts [simp]:
  "is_segment ''community''" "is_segment ''enterprise''" "is_segment ''worktrees''" "is_segment ''custom''"
  by (simp_all add: is_segment_def)

text \<open>The table without a manifest is such a table, at any base.\<close>

lemma mount_table_system: "mount_table (build_mount_roots base None)"
proof
  fix k p k' p'
  have shape: "p = Path (path_root base) (path_segs base @ [k])" if "(k, p) \<in> set (build_mount_roots base None)" for k p
    using that by (cases base) (auto simp: build_mount_roots_def system_roots_def)
  assume "map_of (build_mount_roots base None) k = Some p" "(k', p') \<in> set (build_mount_roots base None)"
    and "prefix (path_segs p) (path_segs p') \<or> prefix (path_segs p') (path_segs p)"
  then show "k' = k \<and> p' = p" using shape [of k p] shape [of k' p'] by (auto dest: map_of_SomeD)
qed

interpretation container: mount_table MOUNT_ROOTS
  unfolding MOUNT_ROOTS_def by (rule mount_table_system)

text \<open>A valid category names one folder.\<close>

lemma slug_segment: "slug s \<Longrightarrow> is_segment s"
proof -
  assume s: "slug s"
  then have "\<forall>c \<in> set s. slug_dash_char c" by (simp add: slug_def list_all_iff)
  moreover have "\<not> slug_dash_char (CHR ''/'')" "\<not> slug_dash_char (CHR ''.'')"
    by (simp_all add: slug_dash_char_def slug_char_def in_range_def cp_def)
  ultimately show "is_segment s" using s by (auto simp: is_segment_def slug_def)
qed

lemma category_segment:
  assumes "manifest_valid m" "l \<in> set (m_layers m)"
  shows "is_segment (custom_category_folder (layer_category l))"
proof -
  have "field_errors m = []" using assms(1) by (simp add: manifest_valid_def)
  with assms(2) have "normalize_category (Some (layer_category l)) = Inr (layer_category l)"
    by (auto simp: field_errors_def normalize_category_def Let_def split: sum.splits if_splits)
  then have "re_match CATEGORY_PATTERN (layer_category l)"
    by (auto simp: normalize_category_def Let_def split: if_splits)
  then have "slug (layer_category l) \<or> (\<exists>t. layer_category l = t @ [CHR 0x0A] \<and> slug t)"
    by (simp add: category_match_iff)
  moreover have "is_segment (t @ [CHR 0x0A])" if "slug t" for t
    using slug_segment [OF that] by (auto simp: is_segment_def)
  ultimately show ?thesis
    using slug_segment by (auto simp: custom_category_folder_def is_segment_def)
qed

lemma declared_categories_iff: "c \<in> set (declared_categories m) \<longleftrightarrow> c \<in> layer_category ` set (m_layers m)"
  by (simp add: declared_categories_def)

definition custom_entries :: "path \<Rightarrow> manifest \<Rightarrow> mount_roots" where
  "custom_entries base m = dict_comp custom_root_key
     (\<lambda>c. path_join (path_join base ''custom'') (custom_category_folder c)) (declared_categories m)"

lemma fold_update_disjoint:
  "key ` set xs \<inter> fst ` set d = {} \<Longrightarrow>
     fold (\<lambda>x. AList.update (key x) (val x)) xs (d @ e) = d @ fold (\<lambda>x. AList.update (key x) (val x)) xs e"
proof (induction xs arbitrary: e)
  case (Cons x xs)
  have "AList.update k v (d @ e) = d @ AList.update k v e" if "k \<notin> fst ` set d" for k v
    using that by (induction d) auto
  with Cons show ?case by simp
qed simp

lemma build_mount_roots_eq: "build_mount_roots base (Some m) = system_roots base @ custom_entries base m"
proof -
  have "custom_root_key ` set (declared_categories m) \<inter> fst ` set (system_roots base) = {}"
    by (auto simp: custom_root_key_def system_roots_def)
  note fold_update_disjoint [OF this, of _ "[]", unfolded append_Nil2]
  then show ?thesis
    by (simp only: build_mount_roots_def custom_entries_def dict_comp_def option.case flip: custom_root_key_def)
qed

lemma custom_key_neq [simp]:
  "custom_root_key c \<noteq> ''community''" "custom_root_key c \<noteq> ''enterprise''" "custom_root_key c \<noteq> ''worktrees''"
  by (simp_all add: custom_root_key_def)

lemma custom_key_eq_iff: "custom_root_key c = custom_root_key d \<longleftrightarrow> custom_category_folder c = custom_category_folder d"
  by (simp add: custom_root_key_def)

lemma map_of_mount_roots:
  "map_of (build_mount_roots base (Some m)) ''community'' = Some (path_join base ''community'')"
  "map_of (build_mount_roots base (Some m)) ''enterprise'' = Some (path_join base ''enterprise'')"
  "map_of (build_mount_roots base (Some m)) ''worktrees'' = Some (path_join base ''worktrees'')"
  "l \<in> set (m_layers m) \<Longrightarrow> map_of (build_mount_roots base (Some m)) (custom_root_key (layer_category l)) =
     Some (path_join (path_join base ''custom'') (custom_category_folder (layer_category l)))"
proof -
  assume l: "l \<in> set (m_layers m)"
  let ?k = "custom_root_key (layer_category l)"
  have "map_of (custom_entries base m) ?k \<noteq> None"
    using l by (auto simp: custom_entries_def dict_comp_None_iff declared_categories_iff)
  then obtain p where p: "map_of (custom_entries base m) ?k = Some p" by blast
  then have "p = path_join (path_join base ''custom'') (custom_category_folder (layer_category l))"
    by (auto simp: custom_entries_def custom_key_eq_iff dest!: dict_comp_SomeD)
  with p show "map_of (build_mount_roots base (Some m)) ?k =
     Some (path_join (path_join base ''custom'') (custom_category_folder (layer_category l)))"
    by (simp add: build_mount_roots_eq system_roots_def)
qed (simp_all add: build_mount_roots_eq system_roots_def)

lemma mount_roots_member:
  "(k, p) \<in> set (build_mount_roots base (Some m)) \<Longrightarrow>
     (k, p) \<in> set (system_roots base) \<or>
     (\<exists>l \<in> set (m_layers m). k = custom_root_key (layer_category l) \<and>
        p = path_join (path_join base ''custom'') (custom_category_folder (layer_category l)))"
proof -
  assume "(k, p) \<in> set (build_mount_roots base (Some m))"
  then consider "(k, p) \<in> set (system_roots base)" | "(k, p) \<in> set (custom_entries base m)"
    by (auto simp: build_mount_roots_eq)
  then show ?thesis
  proof cases
    case 2
    then have "map_of (custom_entries base m) k = Some p"
      by (simp add: custom_entries_def distinct_dict_comp)
    then show ?thesis
      by (auto simp: custom_entries_def declared_categories_iff dest!: dict_comp_SomeD)
  qed simp
qed

text \<open>The table of a valid manifest: its roots are siblings, or siblings under \<open>custom\<close>.\<close>

lemma mount_table_manifest:
  assumes "manifest_valid m"
  shows "mount_table (build_mount_roots base (Some m))"
proof
  fix k p k' p'
  obtain r ss where base: "base = Path r ss" by (cases base)
  let ?shape = "\<lambda>k p. (k \<in> {''community'', ''enterprise'', ''worktrees''} \<and> p = Path r (ss @ [k])) \<or>
     (\<exists>w. k = ''custom/'' @ w \<and> p = Path r (ss @ [''custom'', w]))"
  have shape: "?shape k p" if "(k, p) \<in> set (build_mount_roots base (Some m))" for k p
    using mount_roots_member [OF that]
  proof
    assume "(k, p) \<in> set (system_roots base)"
    then show ?thesis using base by (auto simp: system_roots_def)
  next
    assume "\<exists>l \<in> set (m_layers m). k = custom_root_key (layer_category l) \<and>
        p = path_join (path_join base ''custom'') (custom_category_folder (layer_category l))"
    then obtain l where l: "l \<in> set (m_layers m)" "k = custom_root_key (layer_category l)"
        "p = path_join (path_join base ''custom'') (custom_category_folder (layer_category l))" by blast
    then show ?thesis
      using category_segment [OF assms l(1)] by (simp add: base custom_root_key_def)
  qed
  assume "map_of (build_mount_roots base (Some m)) k = Some p" and k': "(k', p') \<in> set (build_mount_roots base (Some m))"
    and "prefix (path_segs p) (path_segs p') \<or> prefix (path_segs p') (path_segs p)"
  moreover from this have "?shape k p" by (intro shape map_of_SomeD)
  ultimately show "k' = k \<and> p' = p"
    using shape [OF k'] by (elim disjE conjE exE insertE emptyE) simp_all
qed

section \<open>The order of the addons path\<close>

lemma distinct_mount_roots: "distinct (map fst (build_mount_roots base (Some m)))"
proof -
  have "distinct (map fst (system_roots base))" by (simp add: system_roots_def)
  moreover have "fst ` set (system_roots base) \<inter> fst ` set (custom_entries base m) = {}"
    by (auto simp: custom_entries_def set_dict_comp_keys system_roots_def dest: sym)
  ultimately show ?thesis
    by (simp add: build_mount_roots_eq custom_entries_def distinct_dict_comp)
qed

lemma mount_root_keys: "set (map fst (build_mount_roots base (Some m))) = set (valid_mount_keys m)"
  by (auto simp: build_mount_roots_eq custom_entries_def set_dict_comp_keys declared_categories_def
      system_roots_def valid_mount_keys_def SYSTEM_MOUNT_ROOTS_def image_image)

lemma default_root_order_perm:
  "mset (default_root_order (build_mount_roots base (Some m))) = mset (map fst (build_mount_roots base (Some m)))"
proof -
  have "filter (prefix ''custom/'') (map fst (custom_entries base m)) = map fst (custom_entries base m)"
  proof (rule filter_True, rule ballI)
    fix k assume "k \<in> set (map fst (custom_entries base m))"
    then obtain c where "k = custom_root_key c"
      by (auto simp: custom_entries_def set_dict_comp_keys)
    then show "prefix ''custom/'' k" by (simp add: custom_root_key_def)
  qed
  from arg_cong [OF this, of mset] show ?thesis
    by (simp add: default_root_order_def map_of_mount_roots) (simp add: build_mount_roots_eq system_roots_def)
qed

lemma ordered_root_keys_perm:
  assumes "manifest_valid m"
  shows "mset (ordered_root_keys m (build_mount_roots base (Some m))) = mset (map fst (build_mount_roots base (Some m)))"
proof -
  let ?R = "build_mount_roots base (Some m)"
  have d: "distinct (default_root_order ?R)" "set (default_root_order ?R) = set (map fst ?R)"
    using default_root_order_perm distinct_mount_roots by (metis mset_eq_imp_distinct_iff, metis mset_eq_setD)
  have p: "distinct (m_mount_priority m)" "set (m_mount_priority m) \<subseteq> set (map fst ?R)"
    using assms mount_root_keys [of base m] by (auto simp: manifest_valid_def)
  have "distinct (ordered_root_keys m ?R)" using p d by (auto simp: ordered_root_keys_def)
  moreover have "set (ordered_root_keys m ?R) = set (map fst ?R)"
    unfolding ordered_root_keys_def using p(2) d(2) by auto
  ultimately show ?thesis
    using distinct_mount_roots [of base m] set_eq_iff_mset_eq_distinct by blast
qed

text \<open>For a valid manifest every root is listed once, the priority roots first in their order.\<close>

lemma rmap_root_path:
  "set ks \<subseteq> set (map fst roots) \<Longrightarrow> rmap (root_path roots) ks = Inr (map (\<lambda>k. the (map_of roots k)) ks)"
proof (rule rmap_total)
  fix k assume "set ks \<subseteq> set (map fst roots)" "k \<in> set ks"
  then have "map_of roots k \<noteq> None" by (auto simp: map_of_eq_None_iff)
  then show "root_path roots k = Inr (the (map_of roots k))" by (auto simp: root_path_def)
qed

lemma ordered_addons_roots_eq:
  assumes "manifest_valid m"
  shows "ordered_addons_roots m base = Inr (map (\<lambda>k. the (map_of (build_mount_roots base (Some m)) k))
    (ordered_root_keys m (build_mount_roots base (Some m))))"
  unfolding ordered_addons_roots_def Let_def
  using mset_eq_setD [OF ordered_root_keys_perm [OF assms, of base]] by (intro rmap_root_path) simp

lemma ordered_addons_roots_spec:
  assumes "manifest_valid m"
  obtains ps where "ordered_addons_roots m base = Inr ps"
    "mset ps = mset (map snd (build_mount_roots base (Some m)))"
    "map Inr (take (length (m_mount_priority m)) ps) = map (root_path (build_mount_roots base (Some m))) (m_mount_priority m)"
proof -
  let ?R = "build_mount_roots base (Some m)"
  let ?ks = "ordered_root_keys m ?R"
  have "mset (map (\<lambda>k. the (map_of ?R k)) ?ks) = mset (map (\<lambda>k. the (map_of ?R k)) (map fst ?R))"
    using ordered_root_keys_perm [OF assms, of base] by (simp only: mset_map)
  also have "map (\<lambda>k. the (map_of ?R k)) (map fst ?R) = map snd ?R"
    using distinct_mount_roots [of base m] by (auto simp: map_of_is_SomeI)
  finally have "mset (map (\<lambda>k. the (map_of ?R k)) ?ks) = mset (map snd ?R)" .
  moreover have "root_path ?R k = Inr (the (map_of ?R k))" if "k \<in> set (m_mount_priority m)" for k
  proof -
    have "k \<in> set (map fst ?R)" using that assms mount_root_keys [of base m] by (auto simp: manifest_valid_def)
    then have "map_of ?R k \<noteq> None" by (auto simp: map_of_eq_None_iff)
    then show ?thesis by (auto simp: root_path_def)
  qed
  ultimately show ?thesis
    using that [OF ordered_addons_roots_eq [OF assms]] by (simp add: ordered_root_keys_def)
qed

end
