(* ===== verification/Mount_View.thy ===== *)
theory Mount_View
  imports Projection
begin

text \<open>
  What the projection plan and the mount-planning view guarantee. \<open>plan_projection\<close> plans exactly the
  locked repositories, each under the root its layer classifies to; \<open>build_mount_planning_view\<close>
  accepts a scan only when every locked repository has one authoritative checkout at its locked
  commit; and a workspace produced by the plan is read back without drift.
\<close>

section \<open>The plan lists the locked repositories\<close>

definition layer_repos :: "resolved_git_layer list \<Rightarrow> (string \<times> string \<times> string) list" where
  "layer_repos ls = concat (map (\<lambda>l. map (\<lambda>r. (rl_name l, rr_url r, rr_commit r)) (rl_repos l)) ls)"

definition locked_repos :: "lockfile \<Rightarrow> (string \<times> string \<times> string) list" where
  "locked_repos lock = layer_repos (lf_git_layers lock)"

definition step_facts :: "workspace_plan_entry \<Rightarrow> string \<times> string \<times> string" where
  "step_facts s = (wp_layer s, wp_url s, wp_commit s)"

text \<open>A step that is where its layer belongs.\<close>

definition step_placed :: "manifest \<Rightarrow> mount_roots \<Rightarrow> workspace_plan_entry \<Rightarrow> bool" where
  "step_placed m roots s \<longleftrightarrow> (\<exists>a root. map_of (manifest_layers_by_name m) (wp_layer s) = Some a \<and>
     wp_mount_root s = classify_root a \<and> map_of roots (classify_root a) = Some root \<and>
     wp_target_path s = projected_path root (wp_layer s) (wp_url s))"

definition plan_step :: "string \<Rightarrow> path \<Rightarrow> string \<Rightarrow> resolved_repo \<Rightarrow> workspace_plan_entry" where
  "plan_step key root layer repo = \<lparr>wp_mount_root = key, wp_layer = layer, wp_url = rr_url repo,
     wp_commit = rr_commit repo, wp_target_path = projected_path root layer (rr_url repo)\<rparr>"

lemma plan_repos_eq:
  "plan_repos roots k layer rs =
     (if rs = [] then Inr [] else rbind (root_path roots k) (\<lambda>root. Inr (map (plan_step k root layer) rs)))"
proof (induction rs)
  case (Cons r rs)
  then show ?case by (cases "root_path roots k") (auto simp: plan_step_def)
qed simp

lemma plan_layers_steps:
  assumes "plan_layers (manifest_layers_by_name m) roots ls = Inr steps"
  shows "map step_facts steps = layer_repos ls" "\<forall>s \<in> set steps. step_placed m roots s"
  using assms
proof (induction ls arbitrary: steps)
  case (Cons l ls)
  {
    case 1
    then obtain a steps1 rest where *: "map_of (manifest_layers_by_name m) (rl_name l) = Some a"
      "plan_repos roots (classify_root a) (rl_name l) (rl_repos l) = Inr steps1"
      "plan_layers (manifest_layers_by_name m) roots ls = Inr rest" "steps = steps1 @ rest"
      by (auto simp: result_iff)
    from *(2) have "map step_facts steps1 = map (\<lambda>r. (rl_name l, rr_url r, rr_commit r)) (rl_repos l)"
      by (auto simp: plan_repos_eq result_iff plan_step_def step_facts_def split: if_splits)
    with Cons.IH(1) [OF *(3)] *(4) show ?case by (simp add: layer_repos_def)
  next
    case 2
    then obtain a steps1 rest where *: "map_of (manifest_layers_by_name m) (rl_name l) = Some a"
      "plan_repos roots (classify_root a) (rl_name l) (rl_repos l) = Inr steps1"
      "plan_layers (manifest_layers_by_name m) roots ls = Inr rest" "steps = steps1 @ rest"
      by (auto simp: result_iff)
    from *(1,2) have "\<forall>s \<in> set steps1. step_placed m roots s"
      by (auto simp: plan_repos_eq root_path_def result_iff plan_step_def step_placed_def split: if_splits)
    with Cons.IH(2) [OF *(3)] *(4) show ?case by auto
  }
qed (auto simp: layer_repos_def)

lemma classify_root_known:
  assumes "map_of (manifest_layers_by_name m) n = Some a"
  shows "\<exists>p. map_of (build_mount_roots base (Some m)) (classify_root a) = Some p"
proof -
  have "a \<in> range AnyCore \<or> a \<in> range AnyEnterprise \<or> a \<in> AnyLayer ` set (m_layers m)"
    using assms unfolding manifest_layers_by_name_def map_of_fold_update
    by (auto split: option.splits if_splits dest!: map_of_SomeD)
  then show ?thesis by (auto simp: map_of_mount_roots)
qed

lemma map_of_manifest_layers:
  "map_of (manifest_layers_by_name m) n = None \<longleftrightarrow>
     n \<noteq> ''core'' \<and> (n = ''enterprise'' \<longrightarrow> m_enterprise m = None) \<and> n \<notin> layer_name ` set (m_layers m)"
proof -
  have "map_of (manifest_layers_by_name m) n = None \<longleftrightarrow> n \<notin> fst ` set (manifest_layers_by_name m)"
    by (simp add: map_of_eq_None_iff)
  then show ?thesis
    unfolding manifest_layers_by_name_def set_fold_update_keys by (auto split: option.splits)
qed

lemma plan_layers_total:
  assumes "\<forall>l \<in> set ls. map_of (manifest_layers_by_name m) (rl_name l) \<noteq> None"
  shows "is_ok (plan_layers (manifest_layers_by_name m) (build_mount_roots base (Some m)) ls)"
  using assms
proof (induction ls)
  case (Cons l ls)
  then obtain a where a: "map_of (manifest_layers_by_name m) (rl_name l) = Some a" by auto
  with classify_root_known obtain p where "map_of (build_mount_roots base (Some m)) (classify_root a) = Some p" by blast
  then have "is_ok (plan_repos (build_mount_roots base (Some m)) (classify_root a) (rl_name l) (rl_repos l))"
    by (simp add: plan_repos_eq root_path_def)
  with Cons a show ?case by (auto intro!: is_ok_rbind)
qed simp

lemma expected_layer_names:
  "fst ` set (expected_singletons m @ expected_git_layers m (m_layers m)) \<subseteq>
     {n. map_of (manifest_layers_by_name m) n \<noteq> None}"
proof -
  have "fst ` set (expected_git_layers m ls) \<subseteq> layer_name ` set ls" for ls
    by (induction ls rule: expected_git_layers.induct) auto
  moreover have "fst ` set (expected_singletons m) \<subseteq> {n. map_of (manifest_layers_by_name m) n \<noteq> None}"
    unfolding map_of_manifest_layers by (auto simp: expected_singletons_def split: option.splits)
  moreover have "layer_name ` set (m_layers m) \<subseteq> {n. map_of (manifest_layers_by_name m) n \<noteq> None}"
    unfolding map_of_manifest_layers by blast
  ultimately show ?thesis unfolding set_append image_Un by blast
qed

text \<open>Every lock with the structure the manifest expects can be projected.\<close>

lemma plan_projection_total:
  assumes "git_shape (lf_git_layers lock) = expected_singletons m @ expected_git_layers m (m_layers m)"
    and "roots = None \<or> roots = Some (build_mount_roots base (Some m))"
  obtains steps where "plan_projection m lock roots = Inr steps"
proof -
  have "rl_name ` set (lf_git_layers lock) = fst ` set (git_shape (lf_git_layers lock))"
    by (force simp: git_shape_def)
  then have "\<forall>l \<in> set (lf_git_layers lock). map_of (manifest_layers_by_name m) (rl_name l) \<noteq> None"
    using expected_layer_names [of m] assms(1) by auto
  then have ok: "\<exists>x. plan_layers (manifest_layers_by_name m) (build_mount_roots b (Some m)) (lf_git_layers lock) = Inr x" for b
    using plan_layers_total by (simp add: is_ok_iff)
  show ?thesis
    using assms(2) that ok [of CONTAINER_MOUNT_BASE] ok [of base]
    by (auto simp: plan_projection_def default_container_roots_def)
qed

lemma plan_projection_steps:
  assumes "plan_projection m lock roots = Inr steps"
  shows "map step_facts steps = locked_repos lock"
    "\<forall>s \<in> set steps. step_placed m (case roots of None \<Rightarrow> default_container_roots m | Some r \<Rightarrow> r) s"
  using plan_layers_steps assms by (auto simp: plan_projection_def locked_repos_def)

section \<open>What the scan is checked for\<close>

definition evidence_key :: "mount_roots \<Rightarrow> scanned_repo \<Rightarrow> (source_kind \<times> string \<times> string) option" where
  "evidence_key roots r = map_option (\<lambda>(root, layer).
     (if root = ''worktrees'' then Worktree else ReadOnly, layer, sc_url r)) (match_root_and_layer (sc_path r) roots)"

definition by_source_of :: "evidence \<Rightarrow> string \<times> string \<Rightarrow> (source_kind \<times> scanned_repo) list" where
  "by_source_of sources identity = (case map_of sources identity of None \<Rightarrow> [] | Some d \<Rightarrow> d)"

text \<open>The collected evidence is exactly the scan, indexed by identity and kind.\<close>

definition evidence_inv :: "mount_roots \<Rightarrow> ((string \<times> string) \<times> workspace_plan_entry) list \<Rightarrow> scanned_repo set \<Rightarrow> evidence \<Rightarrow> bool" where
  "evidence_inv roots expected rs sources \<longleftrightarrow>
     (\<forall>identity kind r. map_of (by_source_of sources identity) kind = Some r \<longleftrightarrow>
        r \<in> rs \<and> evidence_key roots r = Some (kind, identity)) \<and>
     (\<forall>identity d. map_of sources identity = Some d \<longrightarrow> d \<noteq> [] \<and> map_of expected identity \<noteq> None) \<and>
     distinct (map fst sources)"

lemma by_source_of_update [simp]:
  "by_source_of (AList.update identity d sources) identity' = (if identity' = identity then d else by_source_of sources identity')"
  by (simp add: by_source_of_def dict_simps)

lemma map_of_snoc: "map_of d k = None \<Longrightarrow> map_of (d @ [(k, v)]) k' = (if k' = k then Some v else map_of d k')"
  by (simp add: map_add_def split: option.split)

lemma collect_evidence_Cons:
  assumes "collect_evidence roots expected (repo # scanned) sources = Inr sources'"
  obtains kind identity step root where "evidence_key roots repo = Some (kind, identity)" "snd identity = sc_url repo"
    "map_of expected identity = Some step"
    "map_of roots (if kind = Worktree then ''worktrees'' else wp_mount_root step) = Some root"
    "sc_path repo = projected_path root (fst identity) (sc_url repo)"
    "map_of (by_source_of sources identity) kind = None"
    "collect_evidence roots expected scanned
       (AList.update identity (by_source_of sources identity @ [(kind, repo)]) sources) = Inr sources'"
proof -
  from assms obtain root_name layer step root where
    "match_root_and_layer (sc_path repo) roots = Some (root_name, layer)"
    "map_of expected (layer, sc_url repo) = Some step"
    "map_of roots (if (if root_name = ''worktrees'' then Worktree else ReadOnly) = Worktree
       then ''worktrees'' else wp_mount_root step) = Some root"
    "sc_path repo = projected_path root layer (sc_url repo)"
    "map_of (by_source_of sources (layer, sc_url repo)) (if root_name = ''worktrees'' then Worktree else ReadOnly) = None"
    "collect_evidence roots expected scanned (AList.update (layer, sc_url repo)
      (by_source_of sources (layer, sc_url repo) @ [(if root_name = ''worktrees'' then Worktree else ReadOnly, repo)]) sources) = Inr sources'"
    by (auto simp: result_iff root_path_def Let_def by_source_of_def split: prod.splits)
  then show ?thesis
    using that [of "if root_name = ''worktrees'' then Worktree else ReadOnly" "(layer, sc_url repo)" step root]
    by (simp add: evidence_key_def)
qed

lemma collect_evidence_inv:
  assumes "collect_evidence roots expected scanned sources = Inr sources'" "evidence_inv roots expected rs sources"
  shows "evidence_inv roots expected (rs \<union> set scanned) sources'"
  using assms
proof (induction scanned arbitrary: rs sources)
  case (Cons repo scanned)
  from Cons.prems(1) obtain kind identity step root where
    key: "evidence_key roots repo = Some (kind, identity)" and step: "map_of expected identity = Some step"
    and fresh: "map_of (by_source_of sources identity) kind = None"
    and rest: "collect_evidence roots expected scanned
       (AList.update identity (by_source_of sources identity @ [(kind, repo)]) sources) = Inr sources'"
    by (rule collect_evidence_Cons)
  have none: "r \<notin> rs" if "evidence_key roots r = Some (kind, identity)" for r
    using Cons.prems(2) fresh that unfolding evidence_inv_def by (metis option.distinct(1))
  have "evidence_inv roots expected (insert repo rs)
      (AList.update identity (by_source_of sources identity @ [(kind, repo)]) sources)"
    using Cons.prems(2) key step fresh none unfolding evidence_inv_def by_source_of_update
    by (auto simp: map_of_snoc dict_simps distinct_update simp del: map_of_append split: if_splits)
  from Cons.IH [OF rest this] show ?case by simp
qed simp

lemma collect_evidence_paths:
  assumes "collect_evidence roots expected scanned sources = Inr sources'" "r \<in> set scanned"
    and "evidence_key roots r = Some (kind, identity)"
  shows "\<exists>step root. map_of expected identity = Some step \<and>
    map_of roots (if kind = Worktree then ''worktrees'' else wp_mount_root step) = Some root \<and>
    sc_path r = projected_path root (fst identity) (snd identity)"
  using assms
proof (induction scanned arbitrary: sources)
  case (Cons repo scanned)
  from Cons.prems(1) show ?case
  proof (rule collect_evidence_Cons)
    fix kind' identity' step root
    assume *: "evidence_key roots repo = Some (kind', identity')" "snd identity' = sc_url repo" "map_of expected identity' = Some step"
      "map_of roots (if kind' = Worktree then ''worktrees'' else wp_mount_root step) = Some root"
      "sc_path repo = projected_path root (fst identity') (sc_url repo)"
      "collect_evidence roots expected scanned
       (AList.update identity' (by_source_of sources identity' @ [(kind', repo)]) sources) = Inr sources'"
    show ?thesis
    proof (cases "r = repo")
      case True
      with * Cons.prems(3) show ?thesis by auto
    next
      case False
      with Cons.prems(2) have "r \<in> set scanned" by simp
      from Cons.IH [OF *(6) this Cons.prems(3)] show ?thesis .
    qed
  qed
qed simp

lemma check_selected_Inr_iff:
  "check_selected expected sources = Inr u \<longleftrightarrow>
     (\<forall>(identity, d) \<in> set sources. \<exists>step r. map_of expected identity = Some step \<and> select_evidence d = Some r
        \<and> sc_commit r = wp_commit step)"
proof -
  have "rfold (\<lambda>(identity, by_source) _.
       case (map_of expected identity, select_evidence by_source) of
         (Some step, Some selected) \<Rightarrow>
           guard (sc_commit selected = wp_commit step) (CommitDrift (wp_layer step) (repo_name (wp_url step)))
       | _ \<Rightarrow> Inl EvidenceKeyError) sources v = Inr u \<longleftrightarrow>
     (\<forall>(identity, d) \<in> set sources. \<exists>step r. map_of expected identity = Some step \<and> select_evidence d = Some r
        \<and> sc_commit r = wp_commit step)" for v
    by (induction sources arbitrary: v) (auto simp: result_iff split: option.splits)
  then show ?thesis by (simp add: check_selected_def)
qed

section \<open>What an accepted view guarantees\<close>

lemma map_sort_key: "map f (sort_key f xs) = sort (map f xs)"
  by (rule properties_for_sort [symmetric]) simp_all

lemma ex_unit_iff: "(\<exists>u::unit. P u) \<longleftrightarrow> P ()"
  by auto

lemma view_stages:
  assumes "build_mount_planning_view sha m lock_opt scanned state roots container = Inr mounts"
  obtains lock steps container_paths sources where
    "lock_opt = Some lock" "lf_generated_from lock = compute_manifest_hash sha m"
    "coherent m" "lock_matches m lock" "plan_projection m lock None = Inr steps"
    "distinct (map step_identity steps)"
    "rmap (container_path_of (case container of None \<Rightarrow> default_container_roots m | Some r \<Rightarrow> r)) steps = Inr container_paths"
    "distinct container_paths"
    "collect_evidence roots (map (\<lambda>s. (step_identity s, s)) steps) scanned [] = Inr sources"
    "check_selected (map (\<lambda>s. (step_identity s, s)) steps) sources = Inr ()"
    "rmap (mount_of (case container of None \<Rightarrow> default_container_roots m | Some r \<Rightarrow> r) sources)
       (sort_key fst (map (\<lambda>s. (step_identity s, s)) steps)) = Inr mounts"
    "validate_materialized_state state (map (\<lambda>s. (step_identity s, wp_commit s)) steps) = Inr ()"
proof -
  from assms obtain lock steps container_paths sources where
    *: "lock_opt = Some lock" "manifest_lock_drift_of sha m (Some lock) = []"
    "validate_lock_structure m lock = Inr ()" "plan_projection m lock None = Inr steps"
    "length (dict_comp step_identity (\<lambda>s. s) steps) = length steps"
    "rmap (container_path_of (case container of None \<Rightarrow> default_container_roots m | Some r \<Rightarrow> r)) steps = Inr container_paths"
    "card (set container_paths) = length container_paths"
    "collect_evidence roots (dict_comp step_identity (\<lambda>s. s) steps) scanned [] = Inr sources"
    "check_selected (dict_comp step_identity (\<lambda>s. s) steps) sources = Inr ()"
    "rmap (mount_of (case container of None \<Rightarrow> default_container_roots m | Some r \<Rightarrow> r) sources)
       (sort_key fst (dict_comp step_identity (\<lambda>s. s) steps)) = Inr mounts"
    "validate_materialized_state state (map (\<lambda>(identity, step). (identity, wp_commit step)) (dict_comp step_identity (\<lambda>s. s) steps)) = Inr ()"
    unfolding build_mount_planning_view_def Let_def detect_drift_def drift_report.simps rbind_Inr_iff guard_Inr_iff of_option_Inr_iff
      ex_unit_iff sum.inject
    by blast
  have d: "distinct (map step_identity steps)" using *(5) by (simp add: length_dict_comp_iff)
  then have e: "dict_comp step_identity (\<lambda>s. s) steps = map (\<lambda>s. (step_identity s, s)) steps"
    by (rule dict_comp_distinct)
  have c: "coherent m \<and> lock_matches m lock"
    using *(3) unfolding validate_lock_structure_def lock_matches_def
    by (auto simp: result_iff compose_eq)
  have h: "lf_generated_from lock = compute_manifest_hash sha m"
    using *(2) by (simp add: manifest_lock_drift_Nil_iff)
  have v: "validate_materialized_state state (map (\<lambda>s. (step_identity s, wp_commit s)) steps) = Inr ()"
    using *(11) unfolding e by (simp add: comp_def)
  show ?thesis
    by (rule that [OF *(1) h conjunct1 [OF c] conjunct2 [OF c] *(4) d *(6) card_distinct [OF *(7)]
          *(8) [unfolded e] *(9) [unfolded e] *(10) [unfolded e] v])
qed

definition mount_identity :: "mount_evidence \<Rightarrow> string \<times> string" where
  "mount_identity e = (me_layer e, me_url e)"

text \<open>One mount's evidence: the authoritative scanned checkout of its repository, at the locked commit.\<close>

definition mount_sound :: "mount_roots \<Rightarrow> lockfile \<Rightarrow> scanned_repo list \<Rightarrow> mount_evidence \<Rightarrow> bool" where
  "mount_sound roots lock scanned e \<longleftrightarrow>
     (\<exists>r \<in> set scanned. sc_path r = me_source_path e \<and>
        evidence_key roots r = Some (if me_read_only e then ReadOnly else Worktree, mount_identity e) \<and>
        (me_layer e, me_url e, sc_commit r) \<in> set (locked_repos lock)) \<and>
     (me_read_only e \<longleftrightarrow> (\<forall>r \<in> set scanned. evidence_key roots r \<noteq> Some (Worktree, mount_identity e)))"

lemma mount_of_sound:
  assumes mount: "mount_of container_roots sources (step_identity s, s) = Inr e"
    and inv: "evidence_inv roots (map (\<lambda>s. (step_identity s, s)) steps) (set scanned) sources"
    and sel: "check_selected (map (\<lambda>s. (step_identity s, s)) steps) sources = Inr ()"
    and d: "distinct (map step_identity steps)" and s: "s \<in> set steps"
    and locked: "map step_facts steps = locked_repos lock"
  shows "mount_identity e = step_identity s" "Inr (me_container_path e) = container_path_of container_roots s"
    "mount_sound roots lock scanned e"
proof -
  let ?d = "by_source_of sources (step_identity s)"
  from mount obtain r root where r: "select_evidence ?d = Some r" and root: "map_of container_roots (wp_mount_root s) = Some root"
    and e: "e = \<lparr>me_layer = wp_layer s, me_url = wp_url s, me_source_path = sc_path r,
          me_container_path = projected_path root (wp_layer s) (wp_url s),
          me_read_only = (map_of ?d Worktree = None)\<rparr>"
    unfolding mount_of_def Let_def prod.case by (auto simp: result_iff root_path_def by_source_of_def)
  show id: "mount_identity e = step_identity s" using e by (simp add: mount_identity_def step_identity_def)
  show "Inr (me_container_path e) = container_path_of container_roots s"
    using e root by (simp add: container_path_of_def root_path_def)
  have iff: "map_of ?d kind = Some r' \<longleftrightarrow> r' \<in> set scanned \<and> evidence_key roots r' = Some (kind, step_identity s)" for kind r'
    using inv unfolding evidence_inv_def by blast
  have kind: "map_of ?d (if me_read_only e then ReadOnly else Worktree) = Some r"
    using r e by (auto simp: select_evidence_def split: option.splits)
  have lookup: "map_of (map (\<lambda>s. (step_identity s, s)) steps) (step_identity s) = Some s"
    using d s by (intro map_of_is_SomeI) (auto simp: comp_def)
  have "?d \<noteq> []" using r by (auto simp: select_evidence_def)
  then have "(step_identity s, ?d) \<in> set sources"
    by (auto simp: by_source_of_def dest: map_of_SomeD split: option.splits)
  with sel r lookup have "sc_commit r = wp_commit s" by (auto simp: check_selected_Inr_iff)
  moreover have "step_facts s \<in> set (locked_repos lock)" using s locked by (metis image_eqI list.set_map)
  ultimately have "(me_layer e, me_url e, sc_commit r) \<in> set (locked_repos lock)" using e by (simp add: step_facts_def)
  moreover have "me_read_only e \<longleftrightarrow> (\<forall>r \<in> set scanned. evidence_key roots r \<noteq> Some (Worktree, mount_identity e))"
  proof -
    have "me_read_only e \<longleftrightarrow> map_of ?d Worktree = None" using e by simp
    also have "\<dots> \<longleftrightarrow> (\<forall>r'. map_of ?d Worktree \<noteq> Some r')" by simp
    finally show ?thesis using iff id by auto
  qed
  moreover have "r \<in> set scanned \<and> evidence_key roots r = Some (if me_read_only e then ReadOnly else Worktree, mount_identity e)"
    using iff [of "if me_read_only e then ReadOnly else Worktree" r] kind id by simp
  moreover have "sc_path r = me_source_path e" using e by simp
  ultimately show "mount_sound roots lock scanned e" unfolding mount_sound_def by blast
qed

lemma mount_view_sound:
  assumes "build_mount_planning_view sha m lock_opt scanned state roots container = Inr mounts"
  obtains lock where "lock_opt = Some lock" "lf_generated_from lock = compute_manifest_hash sha m"
    "coherent m" "lock_matches m lock"
    "map mount_identity mounts = sort (map (\<lambda>(layer, url, commit). (layer, url)) (locked_repos lock))"
    "distinct (map mount_identity mounts)"
    "distinct (map me_container_path mounts)"
    "\<forall>e \<in> set mounts. mount_sound roots lock scanned e"
  using assms
proof (rule view_stages)
  fix lock steps container_paths sources
  let ?C = "case container of None \<Rightarrow> default_container_roots m | Some r \<Rightarrow> r"
  let ?E = "map (\<lambda>s. (step_identity s, s)) steps"
  assume lock: "lock_opt = Some lock" "lf_generated_from lock = compute_manifest_hash sha m" "coherent m" "lock_matches m lock"
    and plan: "plan_projection m lock None = Inr steps" and d: "distinct (map step_identity steps)"
    and paths: "rmap (container_path_of ?C) steps = Inr container_paths" "distinct container_paths"
    and collect: "collect_evidence roots ?E scanned [] = Inr sources" and sel: "check_selected ?E sources = Inr ()"
    and mounts: "rmap (mount_of ?C sources) (sort_key fst ?E) = Inr mounts"
  note locked = plan_projection_steps(1) [OF plan]
  have "evidence_inv roots ?E {} []" by (simp add: evidence_inv_def by_source_of_def)
  from collect_evidence_inv [OF collect this] have inv: "evidence_inv roots ?E (set scanned) sources" by simp
  have all: "list_all2 (\<lambda>x e. mount_identity e = fst x \<and> Inr (me_container_path e) = container_path_of ?C (snd x)
      \<and> mount_sound roots lock scanned e) (sort_key fst ?E) mounts"
  proof -
    have "list_all2 (\<lambda>x e. mount_of ?C sources x = Inr e) (sort_key fst ?E) mounts"
      using mounts by (simp add: rmap_Inr_iff)
    then show ?thesis
    proof (rule list.rel_mono_strong)
      fix x e assume "x \<in> set (sort_key fst ?E)" and e: "mount_of ?C sources x = Inr e"
      then obtain s where "s \<in> set steps" "x = (step_identity s, s)" by auto
      then show "mount_identity e = fst x \<and> Inr (me_container_path e) = container_path_of ?C (snd x) \<and> mount_sound roots lock scanned e"
        using mount_of_sound [OF _ inv sel d _ locked, of ?C s e] e by simp
    qed
  qed
  have ids: "map mount_identity mounts = sort (map step_identity steps)"
  proof -
    have "list_all2 (\<lambda>x e. mount_identity e = fst x) (sort_key fst ?E) mounts"
      using all by (rule list.rel_mono_strong) simp
    then have "map mount_identity mounts = map fst (sort_key fst ?E)"
      by (simp add: list_all2_conv_all_nth list_eq_iff_nth_eq)
    then show ?thesis by (simp add: map_sort_key comp_def)
  qed
  have "map step_identity steps = map (\<lambda>(layer, url, commit). (layer, url)) (locked_repos lock)"
    unfolding locked [symmetric] by (simp add: step_facts_def step_identity_def)
  with ids have ids': "map mount_identity mounts = sort (map (\<lambda>(layer, url, commit). (layer, url)) (locked_repos lock))"
    by simp
  have dids: "distinct (map mount_identity mounts)" using ids d by simp
  have "map (\<lambda>e. Inr (me_container_path e)) mounts = map (\<lambda>x. container_path_of ?C (snd x)) (sort_key fst ?E)"
    using all by (simp add: list_all2_conv_all_nth list_eq_iff_nth_eq)
  moreover have "distinct (map (\<lambda>x. container_path_of ?C (snd x)) (sort_key fst ?E))"
  proof -
    have "map (container_path_of ?C) steps = map Inr container_paths"
      using paths(1) by (simp add: rmap_Inr_iff list_all2_conv_all_nth list_eq_iff_nth_eq)
    moreover have "distinct (map Inr container_paths)" using paths(2) by (simp add: distinct_map)
    ultimately have "distinct (map (\<lambda>x. container_path_of ?C (snd x)) ?E)" by (simp add: comp_def)
    moreover have "mset (map f (sort_key fst ?E)) = mset (map f ?E)" for f :: "_ \<Rightarrow> (workspace_error, path) result"
      by (simp only: mset_map mset_sort)
    ultimately show ?thesis using mset_eq_imp_distinct_iff by blast
  qed
  moreover have "map (\<lambda>e. Inr (me_container_path e)) mounts = map Inr (map me_container_path mounts)" by simp
  ultimately have dpaths: "distinct (map me_container_path mounts)" by (metis distinct_map)
  have "\<forall>e \<in> set mounts. mount_sound roots lock scanned e"
    using all by (auto simp: list_all2_conv_all_nth in_set_conv_nth)
  from that [OF lock ids' dids dpaths this] show ?thesis .
qed

end
