(* ===== verification/Workspace_Roundtrip.thy ===== *)
theory Workspace_Roundtrip
  imports Mount_View
begin

text \<open>
  Reading a workspace back: what \<open>materialize_state\<close> reports of a scan, and that a workspace checked
  out by the projection plan of a lock is read back without drift and accepted for mounting.
\<close>

section \<open>What a scan is materialized to\<close>

definition lookup :: "layer_repos \<Rightarrow> string \<Rightarrow> string \<Rightarrow> string option" where
  "lookup layers layer url =
     (case map_of layers layer of None \<Rightarrow> None | Some d \<Rightarrow> map_option mr_commit (map_of d url))"

definition layers_inv :: "layer_repos \<Rightarrow> bool" where
  "layers_inv layers \<longleftrightarrow> distinct (map fst layers) \<and>
     (\<forall>(layer, d) \<in> set layers. d \<noteq> [] \<and> distinct (map fst d) \<and> (\<forall>(u, r) \<in> set d. mr_url r = u))"

lemma lookup_put_repo:
  "lookup (put_repo layer repo layers) l u =
     (if l = layer \<and> u = sc_url repo then Some (sc_commit repo) else lookup layers l u)"
  by (auto simp: lookup_def put_repo_def Let_def dict_simps split: option.splits)

lemma update_not_Nil [simp, intro]: "AList.update k v d \<noteq> []"
  by (cases d) auto

lemma set_update_subset: "set (AList.update k v d) \<subseteq> insert (k, v) (set d)"
  by (induction d) auto

lemma update_all: "P v \<Longrightarrow> \<forall>x \<in> set d. P (snd x) \<Longrightarrow> \<forall>x \<in> set (AList.update k v d). P (snd x)"
  by (induction d) auto

lemma layers_inv_put_repo:
  assumes "layers_inv layers" shows "layers_inv (put_repo layer repo layers)"
proof -
  let ?d = "case map_of layers layer of None \<Rightarrow> [] | Some d \<Rightarrow> d"
  let ?new = "AList.update (sc_url repo) \<lparr>mr_url = sc_url repo, mr_commit = sc_commit repo\<rparr> ?d"
  let ?ok = "\<lambda>d. d \<noteq> [] \<and> distinct (map fst d) \<and> (\<forall>(u, r) \<in> set d. mr_url r = u)"
  have d: "distinct (map fst ?d)" "\<forall>(u, r) \<in> set ?d. mr_url r = u"
    using assms by (auto simp: layers_inv_def split: option.splits dest!: map_of_SomeD)
  have "mr_url r = u" if "(u, r) \<in> set ?new" for u r
    using subsetD [OF set_update_subset that] d(2) by auto
  then have "?ok ?new" using distinct_update [OF d(1)] by (intro conjI update_not_Nil) auto
  moreover have "\<forall>x \<in> set layers. ?ok (snd x)" using assms unfolding layers_inv_def by (simp add: case_prod_unfold)
  ultimately have "\<forall>x \<in> set (AList.update layer ?new layers). ?ok (snd x)"
    by (rule update_all)
  moreover have "distinct (map fst (AList.update layer ?new layers))"
    using assms by (intro distinct_update) (simp add: layers_inv_def)
  ultimately show ?thesis
    unfolding layers_inv_def put_repo_def Let_def by (simp add: case_prod_unfold)
qed

definition state_of :: "layer_repos \<Rightarrow> materialized_state" where
  "state_of layers = \<lparr>ms_layers = map (\<lambda>(layer, repos). \<lparr>ml_name = layer, ml_repos = map snd repos\<rparr>) layers\<rparr>"

lemma state_of_lookup:
  assumes "layers_inv layers"
  shows "state_commit (state_of layers) l u = lookup layers l u"
    "state_has_layer (state_of layers) l \<longleftrightarrow> (\<exists>u. lookup layers l u \<noteq> None)"
proof -
  let ?L = "ms_layers (state_of layers)"
  have names: "map ml_name ?L = map fst layers" by (auto simp: state_of_def)
  have "dict_comp ml_name (\<lambda>l. l) ?L = map (\<lambda>x. (ml_name x, x)) ?L"
    using assms names by (intro dict_comp_distinct) (simp add: layers_inv_def)
  also have "map_of \<dots> l = map_option (\<lambda>d. \<lparr>ml_name = l, ml_repos = map snd d\<rparr>) (map_of layers l)" for l
    unfolding state_of_def by (induction layers) auto
  finally have by_name: "map_of (dict_comp ml_name (\<lambda>l. l) ?L) l =
      map_option (\<lambda>d. \<lparr>ml_name = l, ml_repos = map snd d\<rparr>) (map_of layers l)" for l .
  have inner: "map_of (dict_comp mr_url (\<lambda>r. r) (map snd d)) u = map_of d u" if "map_of layers l = Some d" for d u
  proof -
    from that assms have d: "distinct (map fst d)" "\<forall>(u, r) \<in> set d. mr_url r = u"
      by (auto simp: layers_inv_def dest!: map_of_SomeD)
    then have keys: "map (\<lambda>x. mr_url (snd x)) d = map fst d" by auto
    have "dict_comp mr_url (\<lambda>r. r) (map snd d) = map (\<lambda>x. (mr_url (snd x), snd x)) d"
      using d(1) by (subst dict_comp_distinct) (simp_all add: comp_def flip: keys)
    also have "\<dots> = d" using d(2) by (intro map_idI) auto
    finally show ?thesis by simp
  qed
  show "state_commit (state_of layers) l u = lookup layers l u"
    using by_name [of l] inner by (auto simp: state_commit_def lookup_def split: option.splits)
  have "state_has_layer (state_of layers) l \<longleftrightarrow> map_of layers l \<noteq> None"
    by (auto simp: state_has_layer_def state_of_def map_of_eq_None_iff image_iff split: prod.splits) force+
  moreover have "\<exists>u. map_of d u \<noteq> None" if "map_of layers l = Some d" for d
    using assms that by (cases d) (auto simp: layers_inv_def dest!: map_of_SomeD)
  ultimately show "state_has_layer (state_of layers) l \<longleftrightarrow> (\<exists>u. lookup layers l u \<noteq> None)"
    by (cases "map_of layers l") (auto simp: lookup_def)
qed

text \<open>The commit of the last scanned checkout of a repository, of one kind.\<close>

definition scan_commit :: "mount_roots \<Rightarrow> scanned_repo list \<Rightarrow> source_kind \<Rightarrow> string \<times> string \<Rightarrow> string option" where
  "scan_commit roots scanned kind identity =
     map_of (rev (map (\<lambda>r. (evidence_key roots r, sc_commit r)) scanned)) (Some (kind, identity))"

lemma fold_put_repo:
  "lookup (fold (\<lambda>(layer, repo). put_repo layer repo) ws layers) l u =
     (case map_of (rev (map (\<lambda>(layer, repo). ((layer, sc_url repo), sc_commit repo)) ws)) (l, u) of
        Some c \<Rightarrow> Some c | None \<Rightarrow> lookup layers l u)"
  by (induction ws arbitrary: layers) (auto simp: lookup_put_repo map_add_def split: option.splits)

lemma layers_inv_fold: "layers_inv layers \<Longrightarrow> layers_inv (fold (\<lambda>(layer, repo). put_repo layer repo) ws layers)"
  by (induction ws arbitrary: layers) (auto simp: layers_inv_put_repo)

lemma materialize_loop_Cons:
  assumes "materialize_loop roots (repo # scanned) layers ws = Inr r"
  obtains (worktree) layer where "match_root_and_layer (sc_path repo) roots = Some (''worktrees'', layer)"
      "materialize_loop roots scanned layers (ws @ [(layer, repo)]) = Inr r"
    | (other) root layer where "match_root_and_layer (sc_path repo) roots = Some (root, layer)" "root \<noteq> ''worktrees''"
      "materialize_loop roots scanned (put_repo layer repo layers) ws = Inr r"
  using assms by (auto simp: result_iff split: if_splits prod.splits)

lemma materialize_loop_spec:
  assumes "materialize_loop roots scanned layers ws = Inr (layers', ws')" "layers_inv layers"
  shows "layers_inv layers'"
    "lookup layers' l u = (case scan_commit roots scanned ReadOnly (l, u) of Some c \<Rightarrow> Some c | None \<Rightarrow> lookup layers l u)"
    "map_of (rev (map (\<lambda>(layer, repo). ((layer, sc_url repo), sc_commit repo)) ws')) (l, u) =
       (case scan_commit roots scanned Worktree (l, u) of Some c \<Rightarrow> Some c
        | None \<Rightarrow> map_of (rev (map (\<lambda>(layer, repo). ((layer, sc_url repo), sc_commit repo)) ws)) (l, u))"
  using assms
proof (induction scanned arbitrary: layers ws)
  case Nil
  case 1 then show ?case using Nil by simp
  case 2 then show ?case using Nil by (simp add: scan_commit_def)
  case 3 then show ?case using Nil by (simp add: scan_commit_def)
next
  case (Cons repo scanned)
  case 1
  from 1(1) show ?case
    by (rule materialize_loop_Cons) (use Cons.IH(1) 1(2) layers_inv_put_repo in blast)+
  case 2
  from 2(1) show ?case
  proof (rule materialize_loop_Cons)
    fix layer
    assume "match_root_and_layer (sc_path repo) roots = Some (''worktrees'', layer)"
      and rest: "materialize_loop roots scanned layers (ws @ [(layer, repo)]) = Inr (layers', ws')"
    then show ?thesis
      unfolding Cons.IH(2) [OF rest 2(2)] by (simp add: scan_commit_def evidence_key_def map_add_def split: option.split)
  next
    fix root layer
    assume "match_root_and_layer (sc_path repo) roots = Some (root, layer)" "root \<noteq> ''worktrees''"
      and rest: "materialize_loop roots scanned (put_repo layer repo layers) ws = Inr (layers', ws')"
    then show ?thesis
      unfolding Cons.IH(2) [OF rest layers_inv_put_repo [OF 2(2)]]
      by (auto simp: scan_commit_def evidence_key_def lookup_put_repo map_add_def split: option.split)
  qed
  case 3
  from 3(1) show ?case
  proof (rule materialize_loop_Cons)
    fix layer
    assume "match_root_and_layer (sc_path repo) roots = Some (''worktrees'', layer)"
      and rest: "materialize_loop roots scanned layers (ws @ [(layer, repo)]) = Inr (layers', ws')"
    then show ?thesis
      unfolding Cons.IH(3) [OF rest 3(2)] by (auto simp: scan_commit_def evidence_key_def map_add_def split: option.split)
  next
    fix root layer
    assume "match_root_and_layer (sc_path repo) roots = Some (root, layer)" "root \<noteq> ''worktrees''"
      and rest: "materialize_loop roots scanned (put_repo layer repo layers) ws = Inr (layers', ws')"
    then show ?thesis
      unfolding Cons.IH(3) [OF rest layers_inv_put_repo [OF 3(2)]]
      by (simp add: scan_commit_def evidence_key_def map_add_def split: option.split)
  qed
qed

lemma materialize_loop_total:
  "is_ok (materialize_loop roots scanned layers ws) \<longleftrightarrow> (\<forall>r \<in> set scanned. match_root_and_layer (sc_path r) roots \<noteq> None)"
proof (induction scanned arbitrary: layers ws)
  case (Cons repo scanned)
  then show ?case by (cases "match_root_and_layer (sc_path repo) roots") (auto split: if_splits)
qed simp

text \<open>A scan materializes exactly when every path fits the layout; a promoted worktree wins over
  the read-only checkout of the same repository, whatever the scan order.\<close>

lemma materialize_state_total:
  "is_ok (materialize_state scanned roots) \<longleftrightarrow> (\<forall>r \<in> set scanned. match_root_and_layer (sc_path r) roots \<noteq> None)"
  using materialize_loop_total [of roots scanned "[]" "[]"]
  by (cases "materialize_loop roots scanned [] []") (auto simp: materialize_state_def Let_def split: prod.splits)

lemma materialize_state_eq:
  assumes "materialize_state scanned roots = Inr st"
  obtains layers where "layers_inv layers" "st = state_of layers"
    "\<And>l u. lookup layers l u = (case scan_commit roots scanned Worktree (l, u) of
       Some c \<Rightarrow> Some c | None \<Rightarrow> scan_commit roots scanned ReadOnly (l, u))"
proof -
  from assms obtain layers ws where loop: "materialize_loop roots scanned [] [] = Inr (layers, ws)"
    and st: "st = state_of (fold (\<lambda>(layer, repo). put_repo layer repo) ws layers)"
    by (auto simp: materialize_state_def result_iff state_of_def split: prod.splits)
  have nil: "layers_inv []" by (simp add: layers_inv_def)
  show ?thesis
  proof (rule that [OF layers_inv_fold [OF materialize_loop_spec(1) [OF loop nil]] st])
    show "lookup (fold (\<lambda>(layer, repo). put_repo layer repo) ws layers) l u =
      (case scan_commit roots scanned Worktree (l, u) of
       Some c \<Rightarrow> Some c | None \<Rightarrow> scan_commit roots scanned ReadOnly (l, u))" for l u
      unfolding fold_put_repo materialize_loop_spec(2) [OF loop nil] materialize_loop_spec(3) [OF loop nil]
      by (simp add: lookup_def split: option.splits)
  qed
qed

section \<open>The materialized-state check\<close>

lemma index_materialized_distinct:
  "distinct (map fst actual @ map (\<lambda>(l, u, c). (l, u)) es) \<Longrightarrow>
     index_materialized es actual = Inr (actual @ map (\<lambda>(l, u, c). ((l, u), c)) es)"
proof (induction es arbitrary: actual)
  case (Cons e es)
  obtain l u c where e: "e = (l, u, c)" by (cases e)
  with Cons.prems have "map_of actual (l, u) = None" by (auto simp: map_of_eq_None_iff)
  moreover have "distinct (map fst (actual @ [((l, u), c)]) @ map (\<lambda>(l, u, c). (l, u)) es)"
    using Cons.prems e by auto
  from Cons.IH [OF this] have "index_materialized es (actual @ [((l, u), c)]) =
      Inr (actual @ ((l, u), c) # map (\<lambda>(l, u, c). ((l, u), c)) es)" by simp
  ultimately show ?case using e by simp
qed simp

lemma check_commits_Inr_iff: "check_commits actual es = Inr u \<longleftrightarrow> (\<forall>(identity, c) \<in> set es. map_of actual identity = Some c)"
  by (induction actual es rule: check_commits.induct) auto

lemma state_entries_state_of:
  assumes "layers_inv layers"
  shows "distinct (map (\<lambda>(l, u, c). (l, u)) (state_entries (state_of layers)))"
    "(l, u, c) \<in> set (state_entries (state_of layers)) \<longleftrightarrow> lookup layers l u = Some c"
proof -
  have entries: "state_entries (state_of layers) =
      concat (map (\<lambda>(l, d). map (\<lambda>(u, r). (l, u, mr_commit r)) d) layers)"
    using assms unfolding state_entries_def state_of_def layers_inv_def
    by (auto intro!: arg_cong [of _ _ concat] simp: case_prod_unfold)
  have "distinct (map (\<lambda>(l, u, c). (l, u)) (concat (map (\<lambda>(l, d). map (\<lambda>(u, r). (l, u, mr_commit r)) d) layers)))"
    if "layers_inv layers" for layers
    using that
  proof (induction layers)
    case (Cons x layers)
    obtain l d where x: "x = (l, d)" by (cases x)
    have "layers_inv layers" "distinct (map fst d)" using Cons.prems x by (auto simp: layers_inv_def)
    moreover have "map (\<lambda>(l, u, c). (l, u)) (map (\<lambda>(u, r). (l, u, mr_commit r)) d) = map (\<lambda>u. (l, u)) (map fst d)"
      by (simp add: case_prod_unfold)
    moreover have "distinct (map (\<lambda>u. (l, u)) (map fst d))"
      using \<open>distinct (map fst d)\<close> unfolding distinct_map [of "\<lambda>u. (l, u)"] by (simp add: inj_on_def)
    moreover have "l \<notin> fst ` set layers" using Cons.prems x by (simp add: layers_inv_def)
    ultimately show ?case
      using Cons.IH x by (simp only: list.map concat.simps map_append distinct_append prod.case) force
  qed simp
  with assms entries show "distinct (map (\<lambda>(l, u, c). (l, u)) (state_entries (state_of layers)))" by simp
  have "(l, u, c) \<in> set (state_entries (state_of layers)) \<longleftrightarrow>
      (\<exists>d r. (l, d) \<in> set layers \<and> (u, r) \<in> set d \<and> mr_commit r = c)"
    unfolding entries by force
  also have "\<dots> \<longleftrightarrow> (\<exists>d r. map_of layers l = Some d \<and> map_of d u = Some r \<and> mr_commit r = c)"
  proof -
    have "map_of layers l = Some d \<longleftrightarrow> (l, d) \<in> set layers" for d
      using assms by (simp add: layers_inv_def)
    moreover have "map_of d u = Some r \<longleftrightarrow> (u, r) \<in> set d" if "(l, d) \<in> set layers" for d r
      using assms that by (intro map_of_eq_Some_iff) (auto simp: layers_inv_def)
    ultimately show ?thesis by blast
  qed
  also have "\<dots> \<longleftrightarrow> lookup layers l u = Some c" by (auto simp: lookup_def split: option.splits)
  finally show "(l, u, c) \<in> set (state_entries (state_of layers)) \<longleftrightarrow> lookup layers l u = Some c" .
qed

lemma validate_state_of:
  assumes inv: "layers_inv layers" and d: "distinct (map fst expected)"
    and eq: "\<And>l u. lookup layers l u = map_of expected (l, u)"
  shows "validate_materialized_state (state_of layers) expected = Inr ()"
proof -
  let ?A = "map (\<lambda>(l, u, c). ((l, u), c)) (state_entries (state_of layers))"
  have keys: "map fst ?A = map (\<lambda>(l, u, c). (l, u)) (state_entries (state_of layers))"
    by (simp add: case_prod_unfold)
  have idx: "index_materialized (state_entries (state_of layers)) [] = Inr ?A"
    using index_materialized_distinct [of "[]"] state_entries_state_of(1) [OF inv] by simp
  have mem: "((l, u), c) \<in> set ?A \<longleftrightarrow> ((l, u), c) \<in> set expected" for l u c
  proof -
    have "((l, u), c) \<in> set ?A \<longleftrightarrow> (l, u, c) \<in> set (state_entries (state_of layers))" by force
    then show ?thesis using state_entries_state_of(2) [OF inv] eq d by simp
  qed
  then have sets: "set ?A = set expected" unfolding set_eq_iff split_paired_All by blast
  then have "set (map fst ?A) = set (map fst expected)" unfolding set_map by simp
  moreover have "check_commits ?A expected = Inr ()"
  proof -
    have dA: "distinct (map fst ?A)" unfolding keys by (rule state_entries_state_of(1) [OF inv])
    have "map_of ?A identity = Some c" if "(identity, c) \<in> set expected" for identity c
      using that unfolding sets [symmetric] by (rule map_of_is_SomeI [OF dA])
    then show ?thesis unfolding check_commits_Inr_iff by blast
  qed
  ultimately show ?thesis by (simp only: validate_materialized_state_def idx rbind.simps guard_simps simp_thms)
qed

lemma map_of_rev_distinct: "distinct (map fst xs) \<Longrightarrow> map_of (rev xs) = map_of xs"
  by (rule map_of_eqI) (auto simp: map_of_eq_Some_iff distinct_map rev_map [symmetric])

section \<open>Checking out a plan and reading it back\<close>

text \<open>What a scan finds after every step of a plan was checked out.\<close>

definition scan_of :: "workspace_plan_entry list \<Rightarrow> scanned_repo list" where
  "scan_of steps = map (\<lambda>s. \<lparr>sc_path = wp_target_path s, sc_url = wp_url s, sc_commit = wp_commit s\<rparr>) steps"

text \<open>The locks whose checkouts do not collide: layer and repository names are path segments, no two
  repositories of a layer share a name, and every layer has a repository.\<close>

definition projectable :: "lockfile \<Rightarrow> bool" where
  "projectable lock \<longleftrightarrow>
     (\<forall>(layer, url, commit) \<in> set (locked_repos lock). is_segment layer \<and> repo_name url \<noteq> ''.'') \<and>
     distinct (map (\<lambda>(layer, url, commit). (layer, repo_name url)) (locked_repos lock)) \<and>
     (\<forall>l \<in> set (lf_git_layers lock). rl_repos l \<noteq> [])"

lemma classify_root_not_worktrees: "classify_root a \<noteq> ''worktrees''"
  by (cases a) simp_all

lemma placed_evidence_key:
  assumes "manifest_valid m" "step_placed m (build_mount_roots base (Some m)) s"
    and "is_segment (wp_layer s)" "is_segment (repo_name (wp_url s))"
  shows "evidence_key (build_mount_roots base (Some m)) \<lparr>sc_path = wp_target_path s, sc_url = wp_url s, sc_commit = c\<rparr> =
    Some (ReadOnly, step_identity s)"
    "match_root_and_layer (wp_target_path s) (build_mount_roots base (Some m)) = Some (wp_mount_root s, wp_layer s)"
proof -
  from assms(2) obtain a root where a: "wp_mount_root s = classify_root a"
    "map_of (build_mount_roots base (Some m)) (classify_root a) = Some root"
    "wp_target_path s = projected_path root (wp_layer s) (wp_url s)"
    by (auto simp: step_placed_def)
  from mount_table.match_projected [OF mount_table_manifest [OF assms(1)] a(2) assms(3,4)]
  show *: "match_root_and_layer (wp_target_path s) (build_mount_roots base (Some m)) = Some (wp_mount_root s, wp_layer s)"
    by (simp add: a projected_path_def)
  show "evidence_key (build_mount_roots base (Some m)) \<lparr>sc_path = wp_target_path s, sc_url = wp_url s, sc_commit = c\<rparr> =
    Some (ReadOnly, step_identity s)"
    using * classify_root_not_worktrees [of a] a(1) by (simp add: evidence_key_def step_identity_def)
qed

lemma plan_steps_segments:
  assumes "plan_projection m lock roots = Inr steps" "projectable lock"
  shows "\<forall>s \<in> set steps. is_segment (wp_layer s) \<and> is_segment (repo_name (wp_url s))"
    "distinct (map (\<lambda>s. (wp_layer s, repo_name (wp_url s))) steps)" "distinct (map step_identity steps)"
proof -
  note facts = plan_projection_steps(1) [OF assms(1)]
  have "\<forall>x \<in> set (map step_facts steps). is_segment (fst x) \<and> repo_name (fst (snd x)) \<noteq> ''.''"
    using assms(2) unfolding facts projectable_def by auto
  then show "\<forall>s \<in> set steps. is_segment (wp_layer s) \<and> is_segment (repo_name (wp_url s))"
    by (auto simp: step_facts_def intro: repo_name_segment)
  have "distinct (map (\<lambda>(layer, url, commit). (layer, repo_name url)) (map step_facts steps))"
    using assms(2) unfolding facts projectable_def by simp
  then show d: "distinct (map (\<lambda>s. (wp_layer s, repo_name (wp_url s))) steps)"
    by (simp add: comp_def step_facts_def)
  have "distinct (map (\<lambda>(l, u). (l, repo_name u)) (map step_identity steps))"
    using d by (simp add: comp_def step_identity_def)
  then show "distinct (map step_identity steps)" by (metis distinct_map)
qed

lemma projected_path_inject:
  assumes "is_segment l" "is_segment (repo_name u)" "is_segment l'" "is_segment (repo_name u')"
    and "projected_path p l u = projected_path q l' u'"
  shows "l = l' \<and> repo_name u = repo_name u'"
  using assms by (cases p; cases q) (simp add: projected_path_def)

lemma collect_evidence_total:
  assumes "\<forall>r \<in> set scanned. \<exists>root_name layer step root. match_root_and_layer (sc_path r) roots = Some (root_name, layer) \<and>
      root_name \<noteq> ''worktrees'' \<and> map_of expected (layer, sc_url r) = Some step \<and>
      map_of roots (wp_mount_root step) = Some root \<and> sc_path r = projected_path root layer (sc_url r)"
    and "distinct (map (evidence_key roots) scanned)"
    and "\<forall>r \<in> set scanned. \<forall>identity. evidence_key roots r = Some (ReadOnly, identity) \<longrightarrow>
      map_of (by_source_of sources identity) ReadOnly = None"
  shows "is_ok (collect_evidence roots expected scanned sources)"
  using assms
proof (induction scanned arbitrary: sources)
  case (Cons r scanned)
  from Cons.prems(1) obtain root_name layer step root where
    r: "match_root_and_layer (sc_path r) roots = Some (root_name, layer)" "root_name \<noteq> ''worktrees''"
      "map_of expected (layer, sc_url r) = Some step" "map_of roots (wp_mount_root step) = Some root"
      "sc_path r = projected_path root layer (sc_url r)" by auto
  let ?id = "(layer, sc_url r)"
  have key: "evidence_key roots r = Some (ReadOnly, ?id)" using r(1,2) by (simp add: evidence_key_def)
  with Cons.prems(3) have fresh: "map_of (by_source_of sources ?id) ReadOnly = None" by simp
  have "is_ok (collect_evidence roots expected scanned
      (AList.update ?id (by_source_of sources ?id @ [(ReadOnly, r)]) sources))"
  proof (rule Cons.IH)
    show "distinct (map (evidence_key roots) scanned)" using Cons.prems(2) by simp
    show "\<forall>r' \<in> set scanned. \<forall>identity. evidence_key roots r' = Some (ReadOnly, identity) \<longrightarrow>
      map_of (by_source_of (AList.update ?id (by_source_of sources ?id @ [(ReadOnly, r)]) sources) identity) ReadOnly = None"
    proof (intro ballI allI impI)
      fix r' identity assume r': "r' \<in> set scanned" "evidence_key roots r' = Some (ReadOnly, identity)"
      with Cons.prems(2) key have "identity \<noteq> ?id" by (auto simp: image_iff)
      with r' Cons.prems(3) show "map_of (by_source_of (AList.update ?id (by_source_of sources ?id @ [(ReadOnly, r)]) sources) identity) ReadOnly = None"
        by (cases identity) simp
    qed
  qed (use Cons.prems(1) in simp)
  with r fresh show ?case by (simp add: root_path_def Let_def by_source_of_def)
qed simp

lemma same_mount_root:
  "step_placed m roots s \<Longrightarrow> step_placed m roots' s' \<Longrightarrow> wp_layer s = wp_layer s' \<Longrightarrow> wp_mount_root s = wp_mount_root s'"
  by (auto simp: step_placed_def)

text \<open>The scan of a checked-out plan, indexed: every locked repository is there, read-only, at its
  locked commit, and nothing else is.\<close>

lemma scan_commit_scan_of:
  assumes key: "\<forall>s \<in> set steps. evidence_key roots \<lparr>sc_path = wp_target_path s, sc_url = wp_url s, sc_commit = wp_commit s\<rparr> =
      Some (ReadOnly, step_identity s)"
    and d: "distinct (map step_identity steps)"
  shows "scan_commit roots (scan_of steps) Worktree identity = None"
    "scan_commit roots (scan_of steps) ReadOnly identity = map_of (map (\<lambda>s. (step_identity s, wp_commit s)) steps) identity"
proof -
  have index: "map (\<lambda>r. (evidence_key roots r, sc_commit r)) (scan_of steps) =
      map (\<lambda>s. (Some (ReadOnly, step_identity s), wp_commit s)) steps"
    using key by (simp add: scan_of_def)
  have rev: "map_of (rev (map (\<lambda>s. (Some (ReadOnly, step_identity s), wp_commit s)) steps)) =
      map_of (map (\<lambda>s. (Some (ReadOnly, step_identity s), wp_commit s)) steps)"
    using d by (intro map_of_rev_distinct) (simp add: comp_def distinct_map inj_on_def)
  show "scan_commit roots (scan_of steps) Worktree identity = None"
    unfolding scan_commit_def index rev by (induction steps) auto
  show "scan_commit roots (scan_of steps) ReadOnly identity = map_of (map (\<lambda>s. (step_identity s, wp_commit s)) steps) identity"
    unfolding scan_commit_def index rev by (induction steps) auto
qed

lemma roundtrip_state:
  assumes valid: "manifest_valid m" and ok: "projectable lock"
    and plan: "plan_projection m lock (Some (build_mount_roots base (Some m))) = Inr steps"
  obtains layers where "materialize_state (scan_of steps) (build_mount_roots base (Some m)) = Inr (state_of layers)"
    "layers_inv layers" "\<And>l u. lookup layers l u = map_of (map (\<lambda>s. (step_identity s, wp_commit s)) steps) (l, u)"
proof -
  let ?R = "build_mount_roots base (Some m)"
  note seg = plan_steps_segments [OF plan ok]
  have placed: "\<forall>s \<in> set steps. step_placed m ?R s" using plan_projection_steps(2) [OF plan] by simp
  have key: "\<forall>s \<in> set steps. evidence_key ?R \<lparr>sc_path = wp_target_path s, sc_url = wp_url s, sc_commit = wp_commit s\<rparr> =
      Some (ReadOnly, step_identity s)"
    using placed_evidence_key(1) [OF valid] placed seg(1) by blast
  have "is_ok (materialize_state (scan_of steps) ?R)"
    unfolding materialize_state_total using placed_evidence_key(2) [OF valid] placed seg(1) by (auto simp: scan_of_def)
  then obtain st where st: "materialize_state (scan_of steps) ?R = Inr st" by (auto simp: is_ok_iff)
  from st obtain layers where l: "layers_inv layers" "st = state_of layers"
    "\<And>l u. lookup layers l u = (case scan_commit ?R (scan_of steps) Worktree (l, u) of
       Some c \<Rightarrow> Some c | None \<Rightarrow> scan_commit ?R (scan_of steps) ReadOnly (l, u))"
    by (rule materialize_state_eq) blast
  then show ?thesis
    using that [of layers] st scan_commit_scan_of [OF key seg(3)] by simp
qed

lemma roundtrip_clean:
  assumes "manifest_valid m" "projectable lock"
    and hash: "lf_generated_from lock = compute_manifest_hash sha m"
    and plan: "plan_projection m lock (Some (build_mount_roots base (Some m))) = Inr steps"
  shows "\<exists>st. materialize_state (scan_of steps) (build_mount_roots base (Some m)) = Inr st \<and>
    is_clean (detect_drift sha m (Some lock) (Some st))"
proof (rule roundtrip_state [OF assms(1,2) plan])
  fix layers
  assume st: "materialize_state (scan_of steps) (build_mount_roots base (Some m)) = Inr (state_of layers)"
    and inv: "layers_inv layers"
    and look: "\<And>l u. lookup layers l u = map_of (map (\<lambda>s. (step_identity s, wp_commit s)) steps) (l, u)"
  have d: "distinct (map fst (map (\<lambda>s. (step_identity s, wp_commit s)) steps))"
    using plan_steps_segments(3) [OF plan assms(2)] by (simp add: comp_def)
  have commit: "state_commit (state_of layers) (rl_name l) (rr_url r) = Some (rr_commit r)"
    if "l \<in> set (lf_git_layers lock)" "r \<in> set (rl_repos l)" for l r
  proof -
    from that have "(rl_name l, rr_url r, rr_commit r) \<in> set (locked_repos lock)"
      by (auto simp: locked_repos_def layer_repos_def)
    then have "(rl_name l, rr_url r, rr_commit r) \<in> step_facts ` set steps"
      using plan_projection_steps(1) [OF plan] by (metis list.set_map)
    then have "((rl_name l, rr_url r), rr_commit r) \<in> set (map (\<lambda>s. (step_identity s, wp_commit s)) steps)"
      by (auto simp: step_facts_def step_identity_def)
    from map_of_is_SomeI [OF d this] show ?thesis by (simp add: state_of_lookup(1) [OF inv] look)
  qed
  have "state_has_layer (state_of layers) (rl_name l)" if l: "l \<in> set (lf_git_layers lock)" for l
  proof -
    from assms(2) l have "rl_repos l \<noteq> []" by (simp add: projectable_def)
    then have r: "hd (rl_repos l) \<in> set (rl_repos l)" by simp
    from commit [OF l r] show ?thesis
      unfolding state_of_lookup(2) [OF inv] state_of_lookup(1) [OF inv] by blast
  qed
  with commit hash st show ?thesis unfolding detect_drift_clean_iff by blast
qed

lemma container_paths_distinct:
  assumes ok: "projectable lock" and plan: "plan_projection m lock None = Inr steps"
  obtains paths where "rmap (container_path_of (default_container_roots m)) steps = Inr paths" "distinct paths"
proof -
  let ?C = "default_container_roots m"
  let ?p = "\<lambda>s. projected_path (the (map_of ?C (wp_mount_root s))) (wp_layer s) (wp_url s)"
  have placed: "\<forall>s \<in> set steps. step_placed m ?C s" using plan_projection_steps(2) [OF plan] by simp
  have "rmap (container_path_of ?C) steps = Inr (map ?p steps)"
  proof (rule rmap_total)
    fix s assume "s \<in> set steps"
    with placed obtain root where "map_of ?C (wp_mount_root s) = Some root" by (auto simp: step_placed_def)
    then show "container_path_of ?C s = Inr (?p s)" by (simp add: container_path_of_def root_path_def)
  qed
  moreover have "distinct (map ?p steps)"
  proof -
    note seg = plan_steps_segments [OF plan ok]
    have "inj_on ?p (set steps)"
    proof (rule inj_onI)
      fix s t assume s: "s \<in> set steps" and t: "t \<in> set steps" and eq: "?p s = ?p t"
      have "(wp_layer s, repo_name (wp_url s)) = (wp_layer t, repo_name (wp_url t))"
        using projected_path_inject [OF _ _ _ _ eq] seg(1) s t by simp
      then show "s = t" using seg(2) s t by (auto simp: distinct_map dest: inj_onD)
    qed
    moreover have "distinct steps" using seg(2) by (simp add: distinct_map)
    ultimately show ?thesis by (simp add: distinct_map)
  qed
  ultimately show ?thesis using that by blast
qed

text \<open>The host plan and the container plan of a lock differ in their target paths only.\<close>

lemma plan_partner:
  assumes "plan_projection m lock R = Inr steps" "plan_projection m lock R' = Inr csteps" "s \<in> set steps"
  obtains c where "c \<in> set csteps" "step_facts c = step_facts s" "wp_mount_root c = wp_mount_root s"
proof -
  have "map step_facts steps = map step_facts csteps"
    using plan_projection_steps(1) [OF assms(1)] plan_projection_steps(1) [OF assms(2)] by simp
  with assms(3) have "step_facts s \<in> step_facts ` set csteps" by (metis image_eqI list.set_map)
  then obtain c where c: "c \<in> set csteps" "step_facts c = step_facts s" by auto
  moreover from c have "wp_layer c = wp_layer s" by (simp add: step_facts_def)
  ultimately show ?thesis
    using that same_mount_root plan_projection_steps(2) [OF assms(1)] plan_projection_steps(2) [OF assms(2)] assms(3) by metis
qed

lemma step_lookup:
  "distinct (map step_identity steps) \<Longrightarrow> c \<in> set steps \<Longrightarrow>
     map_of (map (\<lambda>s. (step_identity s, s)) steps) (step_identity c) = Some c"
  by (intro map_of_is_SomeI) (auto simp: comp_def)

lemma roundtrip_keys:
  assumes "manifest_valid m" "projectable lock"
    and "plan_projection m lock (Some (build_mount_roots base (Some m))) = Inr steps" "s \<in> set steps"
  shows "evidence_key (build_mount_roots base (Some m)) \<lparr>sc_path = wp_target_path s, sc_url = wp_url s, sc_commit = wp_commit s\<rparr> =
      Some (ReadOnly, step_identity s)"
    "match_root_and_layer (wp_target_path s) (build_mount_roots base (Some m)) = Some (wp_mount_root s, wp_layer s)"
  using placed_evidence_key [OF assms(1)] plan_projection_steps(2) [OF assms(3)] plan_steps_segments(1) [OF assms(3,2)] assms(4)
  by auto

lemma roundtrip_collect:
  assumes valid: "manifest_valid m" and ok: "projectable lock"
    and plan: "plan_projection m lock (Some (build_mount_roots base (Some m))) = Inr steps"
    and cplan: "plan_projection m lock None = Inr csteps"
  shows "is_ok (collect_evidence (build_mount_roots base (Some m)) (map (\<lambda>s. (step_identity s, s)) csteps) (scan_of steps) [])"
proof (rule collect_evidence_total)
  let ?R = "build_mount_roots base (Some m)" and ?E = "map (\<lambda>s. (step_identity s, s)) csteps"
  show "\<forall>r \<in> set (scan_of steps). \<exists>root_name layer step root. match_root_and_layer (sc_path r) ?R = Some (root_name, layer) \<and>
      root_name \<noteq> ''worktrees'' \<and> map_of ?E (layer, sc_url r) = Some step \<and>
      map_of ?R (wp_mount_root step) = Some root \<and> sc_path r = projected_path root layer (sc_url r)"
  proof
    fix r assume "r \<in> set (scan_of steps)"
    then obtain s where s: "s \<in> set steps" "sc_path r = wp_target_path s" "sc_url r = wp_url s" by (auto simp: scan_of_def)
    from plan cplan s(1) obtain c where c: "c \<in> set csteps" "step_facts c = step_facts s" "wp_mount_root c = wp_mount_root s"
      by (rule plan_partner)
    have "map_of ?E (wp_layer s, wp_url s) = Some c"
      using step_lookup [OF plan_steps_segments(3) [OF cplan ok] c(1)] c(2) by (simp add: step_identity_def step_facts_def)
    moreover obtain root where root: "map_of ?R (wp_mount_root s) = Some root" "wp_target_path s = projected_path root (wp_layer s) (wp_url s)"
        "wp_mount_root s \<noteq> ''worktrees''"
      using plan_projection_steps(2) [OF plan] s(1) classify_root_not_worktrees by (auto simp: step_placed_def)
    ultimately show "\<exists>root_name layer step root. match_root_and_layer (sc_path r) ?R = Some (root_name, layer) \<and>
        root_name \<noteq> ''worktrees'' \<and> map_of ?E (layer, sc_url r) = Some step \<and>
        map_of ?R (wp_mount_root step) = Some root \<and> sc_path r = projected_path root layer (sc_url r)"
      using roundtrip_keys(2) [OF valid ok plan s(1)]
      by (intro exI [of _ "wp_mount_root s"] exI [of _ "wp_layer s"] exI [of _ c] exI [of _ root]) (simp add: s c(3))
  qed
  have eq: "map (evidence_key ?R) (scan_of steps) = map (\<lambda>x. Some (ReadOnly, x)) (map step_identity steps)"
    using roundtrip_keys(1) [OF valid ok plan] by (simp add: scan_of_def)
  show "distinct (map (evidence_key ?R) (scan_of steps))"
    unfolding eq distinct_map [of "\<lambda>x. Some (ReadOnly, x)"]
    using plan_steps_segments(3) [OF plan ok] by (simp add: inj_on_def)
qed (simp add: by_source_of_def)

lemma roundtrip_evidence:
  assumes valid: "manifest_valid m" and ok: "projectable lock"
    and plan: "plan_projection m lock (Some (build_mount_roots base (Some m))) = Inr steps"
    and cplan: "plan_projection m lock None = Inr csteps"
  obtains sources where
    "collect_evidence (build_mount_roots base (Some m)) (map (\<lambda>s. (step_identity s, s)) csteps) (scan_of steps) [] = Inr sources"
    "distinct (map fst sources)" "\<forall>i. map_of sources i \<noteq> None \<longrightarrow> i \<in> step_identity ` set csteps"
    "\<forall>c \<in> set csteps. \<exists>r. select_evidence (by_source_of sources (step_identity c)) = Some r \<and> sc_commit r = wp_commit c"
proof -
  let ?R = "build_mount_roots base (Some m)" and ?E = "map (\<lambda>s. (step_identity s, s)) csteps"
  let ?scan = "\<lambda>s. \<lparr>sc_path = wp_target_path s, sc_url = wp_url s, sc_commit = wp_commit s\<rparr>"
  note key = roundtrip_keys(1) [OF valid ok plan]
  obtain sources where src: "collect_evidence ?R ?E (scan_of steps) [] = Inr sources"
    using roundtrip_collect [OF assms] by (auto simp: is_ok_iff)
  have "evidence_inv ?R ?E {} []" by (simp add: evidence_inv_def by_source_of_def)
  from collect_evidence_inv [OF src this] have inv: "evidence_inv ?R ?E (set (scan_of steps)) sources" by simp
  have found: "map_of (by_source_of sources i) kind = Some r \<longleftrightarrow> r \<in> set (scan_of steps) \<and> evidence_key ?R r = Some (kind, i)" for i kind r
    using inv unfolding evidence_inv_def by blast
  have no_worktree: "map_of (by_source_of sources i) Worktree = None" for i
  proof (rule ccontr)
    assume "map_of (by_source_of sources i) Worktree \<noteq> None"
    then obtain r where "r \<in> set (scan_of steps)" "evidence_key ?R r = Some (Worktree, i)" using found by blast
    with key show False by (auto simp: scan_of_def)
  qed
  have "\<exists>r. select_evidence (by_source_of sources (step_identity c)) = Some r \<and> sc_commit r = wp_commit c" if c: "c \<in> set csteps" for c
  proof -
    from cplan plan c obtain s where s: "s \<in> set steps" "step_facts s = step_facts c" by (rule plan_partner)
    then have "map_of (by_source_of sources (step_identity s)) ReadOnly = Some (?scan s)"
      using found key by (auto simp: scan_of_def)
    with no_worktree s(2) show ?thesis by (auto simp: select_evidence_def step_facts_def step_identity_def)
  qed
  moreover have "i \<in> step_identity ` set csteps" if i: "map_of sources i \<noteq> None" for i
  proof -
    from i inv have "map_of ?E i \<noteq> None" unfolding evidence_inv_def by blast
    then have "i \<in> fst ` set ?E" unfolding map_of_eq_None_iff by blast
    then show ?thesis by (simp add: image_image)
  qed
  moreover have "distinct (map fst sources)" using inv by (simp add: evidence_inv_def)
  ultimately show ?thesis using that src by blast
qed

text \<open>The workspace a lock projects to is accepted for mounting: the view has a read-only bind for
  every locked repository.\<close>

lemma roundtrip_view:
  assumes valid: "manifest_valid m" and coh: "coherent m" and matches: "lock_matches m lock"
    and hash: "lf_generated_from lock = compute_manifest_hash sha m" and ok: "projectable lock"
    and plan: "plan_projection m lock (Some (build_mount_roots base (Some m))) = Inr steps"
    and state: "materialize_state (scan_of steps) (build_mount_roots base (Some m)) = Inr st"
  shows "is_ok (build_mount_planning_view sha m (Some lock) (scan_of steps) st (build_mount_roots base (Some m)) None)"
proof -
  let ?R = "build_mount_roots base (Some m)" and ?C = "default_container_roots m"
  have shape: "git_shape (lf_git_layers lock) = expected_singletons m @ expected_git_layers m (m_layers m)"
    using matches by (simp add: lock_matches_def)
  obtain csteps where cplan: "plan_projection m lock None = Inr csteps"
    using plan_projection_total [OF shape] by blast
  let ?E = "map (\<lambda>s. (step_identity s, s)) csteps"
  note cd = plan_steps_segments(3) [OF cplan ok]
  have dict: "dict_comp step_identity (\<lambda>s. s) csteps = ?E" by (rule dict_comp_distinct [OF cd])
  obtain paths where paths: "rmap (container_path_of ?C) csteps = Inr paths" "distinct paths"
    using container_paths_distinct [OF ok cplan] .
  from valid ok plan cplan obtain sources where
    src: "collect_evidence ?R ?E (scan_of steps) [] = Inr sources" "distinct (map fst sources)"
    and dom: "\<forall>i. map_of sources i \<noteq> None \<longrightarrow> i \<in> step_identity ` set csteps"
    and sel: "\<forall>c \<in> set csteps. \<exists>r. select_evidence (by_source_of sources (step_identity c)) = Some r \<and> sc_commit r = wp_commit c"
    by (rule roundtrip_evidence)
  have checked: "check_selected ?E sources = Inr ()"
    unfolding check_selected_Inr_iff
  proof clarify
    fix l u d assume "((l, u), d) \<in> set sources"
    with src(2) have lookup: "map_of sources (l, u) = Some d" by simp
    with dom obtain c where c: "c \<in> set csteps" "step_identity c = (l, u)" by (metis imageE option.distinct(1))
    with lookup sel step_lookup [OF cd c(1)]
    show "\<exists>step r. map_of ?E (l, u) = Some step \<and> select_evidence d = Some r \<and> sc_commit r = wp_commit step"
      by (auto simp: by_source_of_def dest!: bspec [OF sel])
  qed
  have "\<exists>e. mount_of ?C sources x = Inr e" if "x \<in> set (sort_key fst ?E)" for x
  proof -
    from that obtain c where c: "c \<in> set csteps" "x = (step_identity c, c)" by auto
    with plan_projection_steps(2) [OF cplan] obtain root where "map_of ?C (wp_mount_root c) = Some root"
      by (auto simp: step_placed_def)
    with c sel show ?thesis
      by (fastforce simp: mount_of_def Let_def root_path_def by_source_of_def dest!: bspec [OF sel])
  qed
  then have mounts: "is_ok (rmap (mount_of ?C sources) (sort_key fst ?E))" by (rule rmap_is_ok)
  obtain layers where layers: "st = state_of layers" "layers_inv layers"
    "\<And>l u. lookup layers l u = map_of (map (\<lambda>s. (step_identity s, wp_commit s)) steps) (l, u)"
    using roundtrip_state [OF valid ok plan] state by (metis sum.inject(2))
  have "map (\<lambda>s. (step_identity s, wp_commit s)) steps = map (\<lambda>s. (step_identity s, wp_commit s)) csteps"
  proof -
    have "map step_facts steps = map step_facts csteps"
      using plan_projection_steps(1) [OF plan] plan_projection_steps(1) [OF cplan] by simp
    from arg_cong [OF this, of "map (\<lambda>(l, u, c). ((l, u), c))"] show ?thesis
      by (simp add: comp_def step_facts_def step_identity_def)
  qed
  with layers have "validate_materialized_state st (map (\<lambda>(identity, step). (identity, wp_commit step)) ?E) = Inr ()"
    using validate_state_of [OF layers(2), of "map (\<lambda>s. (step_identity s, wp_commit s)) csteps"] cd by (simp add: comp_def)
  then show ?thesis
    using hash coh matches cplan dict cd paths src(1) checked mounts
    by (auto simp: build_mount_planning_view_def Let_def detect_drift_def manifest_lock_drift_of_def is_ok_iff
        validate_lock_structure_def compose_coherent lock_matches_def distinct_card)
qed

end
