(* ===== verification/Demo_Project.thy ===== *)
theory Demo_Project
  imports Workspace_Roundtrip
begin

text \<open>
  A concrete project at which the manifest properties are instantiated: an enterprise manifest with an
  overridden git layer and a published layer, ports that answer, an injective stand-in for the hash,
  and the lock they give.
\<close>

definition demo_manifest :: manifest where
  "demo_manifest = \<lparr>m_name = ''acme'', m_odoo_version = ''18.0'', m_edition = Enterprise,
     m_core = \<lparr>core_url = ''https://github.com/odoo/odoo.git'', core_ref = None\<rparr>,
     m_enterprise = Some \<lparr>ent_url = ''git@github.com:odoo/enterprise.git'', ent_ref = Some ''18.0-stable''\<rparr>,
     m_layers = [GitLayer \<lparr>gl_name = ''oca'',
         gl_repos = [\<lparr>gr_url = ''https://github.com/OCA/web.git'', gr_ref = ''18.0''\<rparr>], gl_category = ''custom''\<rparr>,
       PublishedLayer \<lparr>pl_name = ''base'', pl_source = ''registry/base'', pl_version = ''1.2'',
         pl_category = ''shared'', pl_requires_enterprise = True\<rparr>],
     m_client = \<lparr>cl_addons_path = Path [] [''addons''], cl_python_requirements = None\<rparr>,
     m_overrides = [\<lparr>ov_layer = ''oca'', ov_repo = ''https://github.com/OCA/web.git'',
       ov_fork = ''https://github.com/acme/web.git'', ov_ref = ''fix''\<rparr>],
     m_workspace = None, m_backend = None, m_mount_priority = [''custom/default'']\<rparr>"

definition demo_provider :: source_provider where
  "demo_provider url ref = Inr ''c0ffee''"

definition demo_digest :: string where
  "demo_digest = ''sha256:'' @ replicate 64 (CHR ''0'')"

definition demo_resolver :: artifact_resolver where
  "demo_resolver source version = Inr \<lparr>par_source = source, par_version = version, par_digest = demo_digest\<rparr>"

definition demo_hash :: "string \<Rightarrow> string" where
  "demo_hash s = s"

definition demo_lock :: lockfile where
  "demo_lock = \<lparr>lf_schema_version = 2, lf_generated_from = compute_manifest_hash demo_hash demo_manifest,
     lf_git_layers = [
       \<lparr>rl_name = ''core'', rl_repos = [\<lparr>rr_url = ''https://github.com/odoo/odoo.git'', rr_ref = ''18.0'', rr_commit = ''c0ffee''\<rparr>]\<rparr>,
       \<lparr>rl_name = ''enterprise'', rl_repos = [\<lparr>rr_url = ''git@github.com:odoo/enterprise.git'', rr_ref = ''18.0-stable'', rr_commit = ''c0ffee''\<rparr>]\<rparr>,
       \<lparr>rl_name = ''oca'', rl_repos = [\<lparr>rr_url = ''https://github.com/acme/web.git'', rr_ref = ''fix'', rr_commit = ''c0ffee''\<rparr>]\<rparr>],
     lf_published_layers = [\<lparr>rp_name = ''base'', rp_source = ''registry/base'', rp_version = ''1.2'', rp_digest = demo_digest\<rparr>]\<rparr>"

definition demo_base :: path where
  "demo_base = Path ''/'' [''srv'', ''acme'']"

lemma demo_fields:
  "m_core demo_manifest = \<lparr>core_url = ''https://github.com/odoo/odoo.git'', core_ref = None\<rparr>"
  "m_enterprise demo_manifest = Some \<lparr>ent_url = ''git@github.com:odoo/enterprise.git'', ent_ref = Some ''18.0-stable''\<rparr>"
  "m_odoo_version demo_manifest = ''18.0''"
  by (simp_all add: demo_manifest_def)

lemma demo_manifest_valid: "manifest_valid demo_manifest"
  by code_simp

lemma demo_coherent: "coherent demo_manifest"
proof -
  have "is_ok (compose demo_manifest)" by code_simp
  then show ?thesis by (auto simp: is_ok_iff compose_eq)
qed

lemma demo_faithful: "faithful_resolver demo_resolver"
  by (simp add: faithful_resolver_def demo_resolver_def)

lemma demo_paths_ok: "paths_ok (m_client demo_manifest)"
  by (simp add: paths_ok_def demo_manifest_def wf_path_def is_segment_def)

lemma demo_digest_ok: "digest_ok demo_digest"
  by code_simp

lemma demo_build_lock: "build_lock demo_hash demo_provider demo_resolver demo_manifest = Inr demo_lock"
proof -
  have "resolve_layers demo_provider demo_resolver (overrides_dict demo_manifest) (m_layers demo_manifest) gits [] =
    Inr (gits @ [\<lparr>rl_name = ''oca'', rl_repos = [\<lparr>rr_url = ''https://github.com/acme/web.git'', rr_ref = ''fix'', rr_commit = ''c0ffee''\<rparr>]\<rparr>],
      [\<lparr>rp_name = ''base'', rp_source = ''registry/base'', rp_version = ''1.2'', rp_digest = demo_digest\<rparr>])" for gits
    by code_simp
  then show ?thesis
    by (simp add: build_lock_def compose_coherent [OF demo_coherent] demo_lock_def resolve_core_def resolve_enterprise_def
        demo_fields demo_provider_def resolve_default_ref_def)
qed

lemma demo_repo_names:
  "repo_name ''https://github.com/odoo/odoo.git'' = ''odoo''"
  "repo_name ''git@github.com:odoo/enterprise.git'' = ''enterprise''"
  "repo_name ''https://github.com/acme/web.git'' = ''web''"
  by code_simp+

lemma demo_projectable: "projectable demo_lock"
  by (simp add: projectable_def locked_repos_def layer_repos_def demo_lock_def demo_repo_names is_segment_def)

lemma demo_lock_ok: "lockfile_ok demo_lock"
  by (simp add: lockfile_ok_def demo_lock_def demo_digest_ok)

end
