(* ===== verification/Module_Deps.thy ===== *)
theory Module_Deps
  imports Forge_Prelude
begin

text \<open>
  Module-dependency validation over an addons path (\<open>manifest/module_deps.py\<close>). The file system is a
  record of the four calls the code makes, each of which may raise \<open>OSError\<close>; \<open>literal_eval\<close> stands for
  \<open>ast.literal_eval\<close>, with \<open>CaughtLiteralError\<close> for the four exceptions the code catches and \<open>LiteralTypeError\<close> for the
  \<open>TypeError\<close> of an unhashable key or element, which it does not catch.
\<close>

datatype pyval =
    PNone
  | PBool bool
  | PInt int
  | PStr string
  | PList "pyval list"
  | PTuple "pyval list"
  | PDict "(pyval \<times> pyval) list"
  | POther string

record odoo_module =
  om_name :: string
  om_depends :: "string list"
  om_installable :: bool

type_synonym module_index = "(string \<times> odoo_module) list"

datatype literal_error = CaughtLiteralError | LiteralTypeError

datatype read_error = ReadOSError | ReadUnicodeError

record file_system =
  fs_is_dir :: "path \<Rightarrow> (unit, bool) result"
  fs_iterdir :: "path \<Rightarrow> (unit, string list) result"
  fs_is_file :: "path \<Rightarrow> (unit, bool) result"
  fs_read_text :: "path \<Rightarrow> (read_error, string) result"

datatype module_error =
    MalformedManifest path
  | NotADict path
  | InvalidDepends path
  | InvalidInstallable path
  | CannotInspectRoot path
  | CannotListRoot path
  | CannotInspectModule path
  | CannotInspectManifest path
  | CannotReadManifest path
  | UndecodableManifest
  | UnhashableLiteral

text \<open>\<open>path.parent.name\<close>: the segment before the last one, if any.\<close>

definition parent_name :: "path \<Rightarrow> string" where
  "parent_name p = (case rev (path_segs p) of _ # n # _ \<Rightarrow> n | _ \<Rightarrow> [])"

fun str_items :: "pyval list \<Rightarrow> string list option" where
  "str_items [] = Some []"
| "str_items (PStr s # vs) = map_option (\<lambda>ss. s # ss) (str_items vs)"
| "str_items (v # vs) = None"

definition parse_manifest_source ::
    "(string \<Rightarrow> (literal_error, pyval) result) \<Rightarrow> string \<Rightarrow> path \<Rightarrow> (module_error, odoo_module) result" where
  "parse_manifest_source literal_eval text path =
     (case literal_eval text of
        Inl CaughtLiteralError \<Rightarrow> Inl (MalformedManifest path)
      | Inl LiteralTypeError \<Rightarrow> Inl UnhashableLiteral
      | Inr (PDict d) \<Rightarrow>
          rbind (case map_of d (PStr ''depends'') of
                   None \<Rightarrow> Inr []
                 | Some (PList vs) \<Rightarrow> of_option (InvalidDepends path) (str_items vs)
                 | Some _ \<Rightarrow> Inl (InvalidDepends path)) (\<lambda>depends.
          rbind (case map_of d (PStr ''installable'') of
                   None \<Rightarrow> Inr True
                 | Some (PBool b) \<Rightarrow> Inr b
                 | Some _ \<Rightarrow> Inl (InvalidInstallable path)) (\<lambda>installable.
          Inr \<lparr>om_name = parent_name path, om_depends = depends, om_installable = installable\<rparr>))
      | Inr _ \<Rightarrow> Inl (NotADict path))"

definition on_error :: "'f \<Rightarrow> ('e, 'a) result \<Rightarrow> ('f, 'a) result" where
  "on_error f r = (case r of Inl _ \<Rightarrow> Inl f | Inr x \<Rightarrow> Inr x)"

text \<open>One entry of one root. \<open>None\<close> skips it.\<close>

definition index_entry ::
    "(string \<Rightarrow> (literal_error, pyval) result) \<Rightarrow> file_system \<Rightarrow> path \<Rightarrow> string \<Rightarrow> module_index \<Rightarrow> (module_error, module_index) result" where
  "index_entry literal_eval fs root name index =
     (let entry = path_join root name; manifest_path = path_join entry ''__manifest__.py'' in
      rbind (on_error (CannotInspectModule entry) (fs_is_dir fs entry)) (\<lambda>is_dir.
      if \<not> is_dir then Inr index else
      rbind (on_error (CannotInspectManifest manifest_path) (fs_is_file fs manifest_path)) (\<lambda>is_file.
      if \<not> is_file then Inr index
      else if map_of index name \<noteq> None then Inr index else
      rbind (case fs_read_text fs manifest_path of
               Inl ReadOSError \<Rightarrow> Inl (CannotReadManifest manifest_path)
             | Inl ReadUnicodeError \<Rightarrow> Inl UndecodableManifest
             | Inr text \<Rightarrow> Inr text) (\<lambda>text.
      rbind (parse_manifest_source literal_eval text manifest_path) (\<lambda>module.
      Inr (AList.update name module index))))))"

definition index_root ::
    "(string \<Rightarrow> (literal_error, pyval) result) \<Rightarrow> file_system \<Rightarrow> path \<Rightarrow> module_index \<Rightarrow> (module_error, module_index) result" where
  "index_root literal_eval fs root index =
     rbind (on_error (CannotInspectRoot root) (fs_is_dir fs root)) (\<lambda>is_dir.
     if \<not> is_dir then Inr index else
     rbind (on_error (CannotListRoot root) (fs_iterdir fs root)) (\<lambda>names.
     rfold (index_entry literal_eval fs root) (sort names) index))"

definition build_module_index ::
    "(string \<Rightarrow> (literal_error, pyval) result) \<Rightarrow> file_system \<Rightarrow> path list \<Rightarrow> (module_error, module_index) result" where
  "build_module_index literal_eval fs roots = rfold (index_root literal_eval fs) roots []"

definition installable_names :: "module_index \<Rightarrow> string list" where
  "installable_names index = map fst (filter (\<lambda>(name, module). om_installable module) index)"

definition find_missing_dependencies :: "module_index \<Rightarrow> (string \<times> string set) list" where
  "find_missing_dependencies index =
     fold (\<lambda>(name, module) missing.
        if \<not> om_installable module then missing
        else let unsatisfied = set (filter (\<lambda>dep. dep \<notin> set (installable_names index)) (om_depends module)) in
             if unsatisfied \<noteq> {} then AList.update name unsatisfied missing else missing) index []"

section \<open>Missing dependencies\<close>

definition provides :: "module_index \<Rightarrow> string \<Rightarrow> bool" where
  "provides index dep \<longleftrightarrow> (\<exists>module. map_of index dep = Some module \<and> om_installable module)"

lemma installable_names_iff:
  "distinct (map fst index) \<Longrightarrow> dep \<in> set (installable_names index) \<longleftrightarrow> provides index dep"
  by (force simp: installable_names_def provides_def)

lemma fold_missing:
  assumes "distinct (map fst xs)" "fst ` set xs \<inter> fst ` set acc = {}"
  shows "map_of (fold (\<lambda>(name, module) missing.
        if \<not> om_installable module then missing
        else let unsatisfied = set (filter (\<lambda>dep. dep \<notin> N) (om_depends module)) in
             if unsatisfied \<noteq> {} then AList.update name unsatisfied missing else missing) xs acc) n =
    (case map_of xs n of
       Some module \<Rightarrow> if om_installable module \<and> {dep \<in> set (om_depends module). dep \<notin> N} \<noteq> {}
                      then Some {dep \<in> set (om_depends module). dep \<notin> N} else map_of acc n
     | None \<Rightarrow> map_of acc n)"
  using assms
proof (induction xs arbitrary: acc)
  case (Cons x xs)
  obtain name module where x: "x = (name, module)" by (cases x)
  let ?u = "{dep \<in> set (om_depends module). dep \<notin> N}"
  let ?acc = "if om_installable module \<and> ?u \<noteq> {} then AList.update name ?u acc else acc"
  have name: "name \<notin> fst ` set xs" "map_of acc name = None"
    using Cons.prems x by (auto simp: map_of_eq_None_iff)
  have "fst ` set xs \<inter> fst ` set ?acc = {}"
    using Cons.prems x name(1) by (auto simp: dom_update)
  moreover have "distinct (map fst xs)" using Cons.prems by simp
  ultimately have IH: "map_of (fold (\<lambda>(name, module) missing.
        if \<not> om_installable module then missing
        else let unsatisfied = set (filter (\<lambda>dep. dep \<notin> N) (om_depends module)) in
             if unsatisfied \<noteq> {} then AList.update name unsatisfied missing else missing) xs ?acc) n =
    (case map_of xs n of
       Some module \<Rightarrow> if om_installable module \<and> {dep \<in> set (om_depends module). dep \<notin> N} \<noteq> {}
                      then Some {dep \<in> set (om_depends module). dep \<notin> N} else map_of ?acc n
     | None \<Rightarrow> map_of ?acc n)"
    by (intro Cons.IH)
  have step: "(case x of (name, module) \<Rightarrow> \<lambda>missing. if \<not> om_installable module then missing
        else let unsatisfied = set (filter (\<lambda>dep. dep \<notin> N) (om_depends module)) in
             if unsatisfied \<noteq> {} then AList.update name unsatisfied missing else missing) acc = ?acc"
    by (simp add: x Let_def)
  show ?case
  proof (cases "n = name")
    case True
    then have "map_of xs n = None" using name by (simp add: map_of_eq_None_iff)
    then show ?thesis unfolding fold_simps step IH using True x name by (simp add: dict_simps)
  next
    case False
    then show ?thesis unfolding fold_simps step IH using x by (simp add: dict_simps split: option.split) blast
  qed
qed simp

lemma map_of_missing:
  assumes "distinct (map fst index)"
  shows "map_of (find_missing_dependencies index) name = Some S \<longleftrightarrow>
    (\<exists>module. map_of index name = Some module \<and> om_installable module \<and>
       S = {dep \<in> set (om_depends module). \<not> provides index dep} \<and> S \<noteq> {})"
proof -
  have "{dep \<in> D. dep \<notin> set (installable_names index)} = {dep \<in> D. \<not> provides index dep}" for D
    using installable_names_iff [OF assms] by blast
  then show ?thesis
    unfolding find_missing_dependencies_def using fold_missing [OF assms, of "[]" "set (installable_names index)" name]
    by (auto split: option.splits if_splits)
qed

section \<open>The index\<close>

text \<open>A root offers a module when it is a directory with that subdirectory and manifest file.\<close>

definition offers :: "file_system \<Rightarrow> path \<Rightarrow> string \<Rightarrow> bool" where
  "offers fs root name \<longleftrightarrow> fs_is_dir fs root = Inr True \<and>
     (\<exists>names. fs_iterdir fs root = Inr names \<and> name \<in> set names) \<and>
     fs_is_dir fs (path_join root name) = Inr True \<and>
     fs_is_file fs (path_join (path_join root name) ''__manifest__.py'') = Inr True"

definition parsed_from ::
    "(string \<Rightarrow> (literal_error, pyval) result) \<Rightarrow> file_system \<Rightarrow> path \<Rightarrow> string \<Rightarrow> odoo_module \<Rightarrow> bool" where
  "parsed_from literal_eval fs root name module \<longleftrightarrow>
     (\<exists>text. fs_read_text fs (path_join (path_join root name) ''__manifest__.py'') = Inr text \<and>
        parse_manifest_source literal_eval text (path_join (path_join root name) ''__manifest__.py'') = Inr module)"

lemma on_error_Inr_iff [result_iff]: "on_error f r = Inr x \<longleftrightarrow> r = Inr x"
  by (cases r) (simp_all add: on_error_def)

definition has_manifest :: "file_system \<Rightarrow> path \<Rightarrow> string \<Rightarrow> bool" where
  "has_manifest fs root name \<longleftrightarrow> fs_is_dir fs (path_join root name) = Inr True \<and>
     fs_is_file fs (path_join (path_join root name) ''__manifest__.py'') = Inr True"

text \<open>A scan that offers the modules \<open>N\<close> of a root extends an index: known names keep their module,
  and a new name is in \<open>N\<close> and has the module its manifest gives.\<close>

definition extends_index ::
    "(string \<Rightarrow> (literal_error, pyval) result) \<Rightarrow> file_system \<Rightarrow> path \<Rightarrow> string set \<Rightarrow> module_index \<Rightarrow> module_index \<Rightarrow> bool" where
  "extends_index literal_eval fs root N index index' \<longleftrightarrow>
     (\<forall>n module. map_of index n = Some module \<longrightarrow> map_of index' n = Some module) \<and>
     (\<forall>n. map_of index n = None \<longrightarrow> (map_of index' n = None \<longleftrightarrow> n \<notin> N)) \<and>
     (\<forall>n module. map_of index n = None \<longrightarrow> map_of index' n = Some module \<longrightarrow> parsed_from literal_eval fs root n module) \<and>
     (distinct (map fst index) \<longrightarrow> distinct (map fst index'))"

lemma extends_indexD:
  assumes "extends_index literal_eval fs root N index index'"
  shows "map_of index n = Some module \<Longrightarrow> map_of index' n = Some module"
    "map_of index n = None \<Longrightarrow> map_of index' n = None \<longleftrightarrow> n \<notin> N"
    "map_of index n = None \<Longrightarrow> map_of index' n = Some module \<Longrightarrow> parsed_from literal_eval fs root n module"
    "distinct (map fst index) \<Longrightarrow> distinct (map fst index')"
  using assms unfolding extends_index_def by blast+

lemma extends_indexI:
  assumes "index' = index \<and> (N \<subseteq> {n. map_of index n \<noteq> None}) \<or>
    (\<exists>module. index' = AList.update name module index \<and> N = {name} \<and> map_of index name = None \<and>
       parsed_from literal_eval fs root name module)"
  shows "extends_index literal_eval fs root N index index'"
  using assms by (auto simp: extends_index_def dict_simps distinct_update split: if_splits)

lemma extends_index_trans:
  assumes "extends_index literal_eval fs root N index index1" "extends_index literal_eval fs root N' index1 index2"
  shows "extends_index literal_eval fs root (N \<union> N') index index2"
proof -
  note e = extends_indexD [OF assms(1)] and f = extends_indexD [OF assms(2)]
  have "map_of index2 n = None \<longleftrightarrow> n \<notin> N \<union> N'" if n: "map_of index n = None" for n
    using e(2) [OF n] f(1,2) [of n] by (cases "map_of index1 n") auto
  moreover have "parsed_from literal_eval fs root n module"
    if n: "map_of index n = None" "map_of index2 n = Some module" for n module
    using e(3) [OF n(1)] f(1,3) [of n] n(2) by (cases "map_of index1 n") auto
  ultimately show ?thesis unfolding extends_index_def using e(1,4) f(1,4) by blast
qed

lemma index_entry_extends:
  assumes "index_entry literal_eval fs root name index = Inr index'"
  shows "extends_index literal_eval fs root {n. n = name \<and> has_manifest fs root n} index index'"
proof (rule extends_indexI)
  show "index' = index \<and> {n. n = name \<and> has_manifest fs root n} \<subseteq> {n. map_of index n \<noteq> None} \<or>
    (\<exists>module. index' = AList.update name module index \<and> {n. n = name \<and> has_manifest fs root n} = {name} \<and>
       map_of index name = None \<and> parsed_from literal_eval fs root name module)"
    using assms
    by (auto simp: index_entry_def Let_def result_iff parsed_from_def has_manifest_def
        split: if_splits sum.splits read_error.splits)
qed

lemma index_entries_extend:
  assumes "rfold (index_entry literal_eval fs root) names index = Inr index'"
  shows "extends_index literal_eval fs root {n \<in> set names. has_manifest fs root n} index index'"
  using assms
proof (induction names arbitrary: index)
  case Nil
  then show ?case by (intro extends_indexI) simp
next
  case (Cons x names)
  then obtain index1 where step: "index_entry literal_eval fs root x index = Inr index1"
    and rest: "rfold (index_entry literal_eval fs root) names index1 = Inr index'"
    by (auto simp: result_iff)
  have "{n \<in> set (x # names). has_manifest fs root n} =
      {n. n = x \<and> has_manifest fs root n} \<union> {n \<in> set names. has_manifest fs root n}" by auto
  with extends_index_trans [OF index_entry_extends [OF step] Cons.IH [OF rest]] show ?case by simp
qed

lemma index_root_extends:
  assumes "index_root literal_eval fs root index = Inr index'"
  shows "extends_index literal_eval fs root {n. offers fs root n} index index'"
proof (cases "fs_is_dir fs root = Inr True")
  case True
  with assms obtain names where names: "fs_iterdir fs root = Inr names"
    "rfold (index_entry literal_eval fs root) (sort names) index = Inr index'"
    by (auto simp: index_root_def result_iff)
  have "{n. offers fs root n} = {n \<in> set (sort names). has_manifest fs root n}"
    using True names by (auto simp: offers_def has_manifest_def)
  with index_entries_extend [OF names(2)] show ?thesis by simp
next
  case False
  with assms have "index' = index" "{n. offers fs root n} = {}"
    by (auto simp: index_root_def result_iff offers_def split: if_splits)
  then show ?thesis by (intro extends_indexI) simp
qed

text \<open>Every module that some root offers is indexed, and it is the one of the first root that
  offers it.\<close>

definition first_offer ::
    "(string \<Rightarrow> (literal_error, pyval) result) \<Rightarrow> file_system \<Rightarrow> path list \<Rightarrow> string \<Rightarrow> odoo_module \<Rightarrow> bool" where
  "first_offer literal_eval fs roots n module \<longleftrightarrow>
     (\<exists>before root after. roots = before @ root # after \<and> (\<forall>r \<in> set before. \<not> offers fs r n) \<and>
        offers fs root n \<and> parsed_from literal_eval fs root n module)"

lemma first_offer_here: "offers fs r n \<Longrightarrow> parsed_from literal_eval fs r n module \<Longrightarrow> first_offer literal_eval fs (r # roots) n module"
  unfolding first_offer_def by (intro exI [of _ "[]"]) auto

lemma first_offer_later: "\<not> offers fs r n \<Longrightarrow> first_offer literal_eval fs roots n module \<Longrightarrow> first_offer literal_eval fs (r # roots) n module"
  unfolding first_offer_def by (metis append_Cons set_ConsD)

lemma build_module_index_lookup:
  assumes "rfold (index_root literal_eval fs) roots index = Inr index'"
  shows "(map_of index n \<noteq> None \<longrightarrow> map_of index' n = map_of index n) \<and>
    (map_of index n = None \<longrightarrow> (map_of index' n \<noteq> None \<longleftrightarrow> (\<exists>root \<in> set roots. offers fs root n)) \<and>
       (\<forall>module. map_of index' n = Some module \<longrightarrow> first_offer literal_eval fs roots n module)) \<and>
    (distinct (map fst index) \<longrightarrow> distinct (map fst index'))"
  using assms
proof (induction roots arbitrary: index)
  case (Cons r roots)
  then obtain index1 where step: "index_root literal_eval fs r index = Inr index1"
    and rest: "rfold (index_root literal_eval fs) roots index1 = Inr index'"
    by (auto simp: result_iff)
  note IH = Cons.IH [OF rest] and e = extends_indexD [OF index_root_extends [OF step]]
  show ?case
  proof (cases "map_of index n")
    case None
    show ?thesis
    proof (cases "map_of index1 n")
      case (Some module)
      with e(2,3) [OF None] have "offers fs r n" "parsed_from literal_eval fs r n module" by auto
      with IH None Some e(4) show ?thesis by (simp add: first_offer_here)
    next
      case new: None
      with e(2) [OF None] have "\<not> offers fs r n" by simp
      with IH None new e(4) show ?thesis by (simp add: first_offer_later)
    qed
  next
    case (Some module)
    with IH e(1,4) show ?thesis by simp
  qed
qed simp

lemma parse_manifest_source_name:
  "parse_manifest_source literal_eval text path = Inr module \<Longrightarrow> om_name module = parent_name path"
  by (auto simp: parse_manifest_source_def result_iff split: option.splits pyval.splits sum.splits literal_error.splits)

section \<open>Properties\<close>

text \<open>C15: in an index built from an ordered list of roots a name is present exactly when some root
  offers a module of that name, and it is the module of the first root that offers it, whose name is
  the directory name. The reported missing dependencies are, for every installable module that has
  some, exactly those of its dependencies no installable module of the index provides.\<close>

theorem module_index_first_root_wins:
  assumes "build_module_index literal_eval fs roots = Inr index"
  shows "(map_of index n \<noteq> None \<longleftrightarrow> (\<exists>root. root \<in> set roots \<and> offers fs root n)) \<and>
    (map_of index n = Some module \<longrightarrow> first_offer literal_eval fs roots n module) \<and>
    (map_of (find_missing_dependencies index) n = Some S \<longleftrightarrow>
      (\<exists>module. map_of index n = Some module \<and> om_installable module \<and>
         S = {dep \<in> set (om_depends module). \<not> provides index dep} \<and> S \<noteq> {}))"
  using build_module_index_lookup [OF assms [unfolded build_module_index_def], of n]
    map_of_missing [of index n S] by auto

text \<open>Two roots that both offer \<open>sale\<close>; only the second offers \<open>stock\<close>.\<close>

definition demo_literal_eval :: "string \<Rightarrow> (literal_error, pyval) result" where
  "demo_literal_eval text =
     (if text = ''A'' then Inr (PDict [(PStr ''depends'', PList [PStr ''stock'', PStr ''mail''])])
      else if text = ''B'' then Inr (PDict []) else Inl CaughtLiteralError)"

definition demo_fs :: file_system where
  "demo_fs = \<lparr>fs_is_dir = (\<lambda>p. Inr True),
     fs_iterdir = (\<lambda>p. Inr (if p = Path ''/'' [''r1''] then [''sale''] else [''sale'', ''stock''])),
     fs_is_file = (\<lambda>p. Inr True),
     fs_read_text = (\<lambda>p. Inr (if p = Path ''/'' [''r1'', ''sale'', ''__manifest__.py''] then ''A'' else ''B''))\<rparr>"

theorem module_index_first_root_wins_witness:
  "map_of (find_missing_dependencies [(''sale'', \<lparr>om_name = ''sale'', om_depends = [''stock'', ''mail''], om_installable = True\<rparr>),
      (''stock'', \<lparr>om_name = ''stock'', om_depends = [], om_installable = True\<rparr>)]) ''sale'' = Some {''mail''}"
proof -
  have "build_module_index demo_literal_eval demo_fs [Path ''/'' [''r1''], Path ''/'' [''r2'']] =
      Inr [(''sale'', \<lparr>om_name = ''sale'', om_depends = [''stock'', ''mail''], om_installable = True\<rparr>),
        (''stock'', \<lparr>om_name = ''stock'', om_depends = [], om_installable = True\<rparr>)]"
    by code_simp
  from module_index_first_root_wins [OF this, of "''sale''" _ "{''mail''}"] show ?thesis
    by (auto simp: provides_def)
qed

end
