(* ===== verification/Durable_Ops.thy ===== *)
theory Durable_Ops
  imports Py_Regex
begin

text \<open>
  Durable operations (\<open>durable_operations/types.py\<close>, \<open>durable_operations/service.py\<close>) and the record
  their store returns (\<open>ports/durable_operation_store.py\<close>). A revision is a natural number
  (\<open>Field(ge=0)\<close>); a pydantic validator or \<open>__post_init__\<close> is a constructor that may fail.
\<close>

section \<open>Values\<close>

definition identifier_char :: "char \<Rightarrow> bool" where
  "identifier_char c \<longleftrightarrow> is_lower c \<or> is_upper c \<or> is_digit c \<or> c = CHR ''_'' \<or> c = CHR ''-''"

definition SAFE_IDENTIFIER :: rx where
  "SAFE_IDENTIFIER = rseq [RCaret, rplus (RCls identifier_char), RDollar]"

definition dash_or_underscore :: rx where
  "dash_or_underscore = ropt (RCls (\<lambda>c. c = CHR ''_'' \<or> c = CHR ''-''))"

definition SENSITIVE_TEXT :: rx where
  "SENSITIVE_TEXT = ralts [
     rseq [RWordB,
       ralts [rseq [rlit_i ''api'', dash_or_underscore, rlit_i ''key''],
         rseq [rlit_i ''artifact'', dash_or_underscore, rlit_i ''bytes''],
         rlit_i ''authorization'', rlit_i ''bearer'', rlit_i ''credential'', rlit_i ''password'',
         rlit_i ''passwd'', rlit_i ''secret'', rlit_i ''token''],
       RWordB, RStar (RCls py_isspace), ropt (RCls (\<lambda>c. c = CHR ''='' \<or> c = CHR '':''))],
     rlit ''://'', rlit ''@'']"

definition is_safe_identifier :: "string \<Rightarrow> bool" where
  "is_safe_identifier value \<longleftrightarrow> re_fullmatch SAFE_IDENTIFIER value \<and> \<not> re_search SENSITIVE_TEXT value"

datatype lifecycle_state =
    ACCEPTED | IN_PROGRESS | RECONCILIATION_REQUIRED | TERMINAL_PENDING
  | SUCCEEDED | FAILED | CLEANUP_REQUIRED | CLOSED

record durable_identity =
  operation_id :: string
  request_digest :: string

definition matches_request_digest :: "durable_identity \<Rightarrow> string \<Rightarrow> bool" where
  "matches_request_digest i digest \<longleftrightarrow> request_digest i = digest"

type_synonym operation_revision = nat

record redacted_evidence =
  re_event :: string
  re_summary :: string
  re_references :: "string list"

datatype durable_error =
    EmptyIdentityField
  | SensitiveEvidence
  | UnsafeReference
  | UnsafeOwnedResource
  | ReplayConflictError string string string
  | CannotRegress lifecycle_state lifecycle_state
  | CannotOverwriteOutcome lifecycle_state lifecycle_state
  | NoTerminalCommit lifecycle_state
  | EmptyPhase
  | OutcomeNotTerminal
  | CommitWithoutEvidence
  | UnsafeCompensationError string string
  | ResidualNotSurfaced
  | OutcomeNotExposed

definition mk_identity :: "string \<Rightarrow> string \<Rightarrow> (durable_error, durable_identity) result" where
  "mk_identity oid digest =
     rbind (guard (oid \<noteq> [] \<and> digest \<noteq> []) EmptyIdentityField) (\<lambda>_.
     Inr \<lparr>operation_id = oid, request_digest = digest\<rparr>)"

definition validate_redacted_text :: "string \<Rightarrow> (durable_error, string) result" where
  "validate_redacted_text value =
     (if value = [] \<or> re_search SENSITIVE_TEXT value then Inl SensitiveEvidence else Inr value)"

definition validate_safe_references :: "string list \<Rightarrow> (durable_error, string list) result" where
  "validate_safe_references values =
     (if list_all is_safe_identifier values then Inr values else Inl UnsafeReference)"

definition mk_evidence :: "string \<Rightarrow> string \<Rightarrow> string list \<Rightarrow> (durable_error, redacted_evidence) result" where
  "mk_evidence event summary references =
     rbind (validate_redacted_text event) (\<lambda>e.
     rbind (validate_redacted_text summary) (\<lambda>s.
     rbind (validate_safe_references references) (\<lambda>r.
     Inr \<lparr>re_event = e, re_summary = s, re_references = r\<rparr>)))"

record compensation_scope =
  cs_operation_id :: string
  owned_resource_ids :: "string list"

definition validate_owned_resource_ids :: "string list \<Rightarrow> (durable_error, string list) result" where
  "validate_owned_resource_ids values =
     (if list_all is_safe_identifier values then Inr values else Inl UnsafeOwnedResource)"

definition mk_scope :: "string \<Rightarrow> string list \<Rightarrow> (durable_error, compensation_scope) result" where
  "mk_scope oid ids = rbind (validate_owned_resource_ids ids) (\<lambda>v.
     Inr \<lparr>cs_operation_id = oid, owned_resource_ids = v\<rparr>)"

definition owns :: "compensation_scope \<Rightarrow> string \<Rightarrow> bool" where
  "owns scope resource_id \<longleftrightarrow> resource_id \<in> set (owned_resource_ids scope)"

section \<open>Transition rules\<close>

datatype recovery_action = RESUME | RECONCILE | SURFACE_RESIDUAL | NO_RECOVERY_REQUIRED

record durable_checkpoint =
  cp_revision :: operation_revision
  cp_phase :: string
  cp_evidence :: redacted_evidence

record recovery_plan =
  rec_action :: recovery_action
  rec_revision :: operation_revision
  rec_checkpoint :: "durable_checkpoint option"
  rec_reason :: string

record terminal_commit_bundle =
  tc_expected_revision :: operation_revision
  tc_outcome :: lifecycle_state
  tc_evidence :: "redacted_evidence list"
  tc_residual_cleanup :: "redacted_evidence list"

primrec LIFECYCLE_ORDER :: "lifecycle_state \<Rightarrow> nat" where
  "LIFECYCLE_ORDER ACCEPTED = 0"
| "LIFECYCLE_ORDER IN_PROGRESS = 1"
| "LIFECYCLE_ORDER RECONCILIATION_REQUIRED = 2"
| "LIFECYCLE_ORDER TERMINAL_PENDING = 3"
| "LIFECYCLE_ORDER SUCCEEDED = 4"
| "LIFECYCLE_ORDER FAILED = 4"
| "LIFECYCLE_ORDER CLEANUP_REQUIRED = 5"
| "LIFECYCLE_ORDER CLOSED = 6"

definition TERMINAL_OUTCOMES :: "lifecycle_state list" where
  "TERMINAL_OUTCOMES = [SUCCEEDED, FAILED]"

definition RESOLVED_STATES :: "lifecycle_state list" where
  "RESOLVED_STATES = TERMINAL_OUTCOMES @ [CLOSED]"

definition POST_COMMIT_STATES :: "lifecycle_state list" where
  "POST_COMMIT_STATES = TERMINAL_OUTCOMES @ [CLEANUP_REQUIRED, CLOSED]"

definition next_revision :: "operation_revision \<Rightarrow> operation_revision" where
  "next_revision r = r + 1"

definition replay_or_conflict :: "durable_identity \<Rightarrow> string \<Rightarrow> (durable_error, durable_identity) result" where
  "replay_or_conflict recorded submitted =
     (if \<not> matches_request_digest recorded submitted
      then Inl (ReplayConflictError (operation_id recorded) (request_digest recorded) submitted)
      else Inr recorded)"

definition advance_lifecycle ::
    "lifecycle_state \<Rightarrow> operation_revision \<Rightarrow> lifecycle_state \<Rightarrow> (durable_error, lifecycle_state \<times> operation_revision) result" where
  "advance_lifecycle current revision target =
     (if LIFECYCLE_ORDER target < LIFECYCLE_ORDER current then Inl (CannotRegress current target)
      else if current \<in> set TERMINAL_OUTCOMES \<and> target \<in> set TERMINAL_OUTCOMES \<and> target \<noteq> current
      then Inl (CannotOverwriteOutcome current target)
      else if target \<in> set POST_COMMIT_STATES \<and> current \<notin> set POST_COMMIT_STATES
      then Inl (NoTerminalCommit target)
      else Inr (target, next_revision revision))"

definition save_checkpoint ::
    "operation_revision \<Rightarrow> string \<Rightarrow> redacted_evidence \<Rightarrow> (durable_error, durable_checkpoint) result" where
  "save_checkpoint revision phase evidence =
     (if phase = [] then Inl EmptyPhase
      else Inr \<lparr>cp_revision = revision, cp_phase = phase, cp_evidence = evidence\<rparr>)"

definition UNKNOWN_OUTCOME_REASON :: string where
  "UNKNOWN_OUTCOME_REASON = ''mutation outcome is unknown without a durable checkpoint''"

definition plan_recovery ::
    "lifecycle_state \<Rightarrow> operation_revision \<Rightarrow> durable_checkpoint option \<Rightarrow> bool \<Rightarrow> recovery_plan" where
  "plan_recovery state revision checkpoint mutation_attempted =
     (if state \<in> set RESOLVED_STATES
      then \<lparr>rec_action = NO_RECOVERY_REQUIRED, rec_revision = revision, rec_checkpoint = checkpoint,
            rec_reason = ''operation is already resolved''\<rparr>
      else if state = CLEANUP_REQUIRED
      then \<lparr>rec_action = SURFACE_RESIDUAL, rec_revision = revision, rec_checkpoint = checkpoint,
            rec_reason = ''residual cleanup remains open''\<rparr>
      else if state = RECONCILIATION_REQUIRED
      then \<lparr>rec_action = RECONCILE, rec_revision = revision, rec_checkpoint = checkpoint,
            rec_reason = ''mutation outcome requires reconciliation''\<rparr>
      else case checkpoint of
        None \<Rightarrow>
          if mutation_attempted
          then \<lparr>rec_action = RECONCILE, rec_revision = revision, rec_checkpoint = None, rec_reason = UNKNOWN_OUTCOME_REASON\<rparr>
          else \<lparr>rec_action = RESUME, rec_revision = revision, rec_checkpoint = None,
                rec_reason = ''no mutation has been attempted''\<rparr>
      | Some c \<Rightarrow> \<lparr>rec_action = RESUME, rec_revision = next_revision (cp_revision c), rec_checkpoint = checkpoint,
                   rec_reason = ''resume from durable checkpoint''\<rparr>)"

definition build_terminal_commit ::
    "operation_revision \<Rightarrow> lifecycle_state \<Rightarrow> redacted_evidence list \<Rightarrow> redacted_evidence list
     \<Rightarrow> (durable_error, terminal_commit_bundle) result" where
  "build_terminal_commit expected_revision outcome evidence residual_cleanup =
     (if outcome \<notin> set TERMINAL_OUTCOMES then Inl OutcomeNotTerminal
      else if evidence = [] then Inl CommitWithoutEvidence
      else Inr \<lparr>tc_expected_revision = expected_revision, tc_outcome = outcome, tc_evidence = evidence,
                tc_residual_cleanup = residual_cleanup\<rparr>)"

definition ensure_compensation_target :: "compensation_scope \<Rightarrow> string \<Rightarrow> (durable_error, string) result" where
  "ensure_compensation_target scope resource_id =
     (if \<not> owns scope resource_id then Inl (UnsafeCompensationError resource_id (cs_operation_id scope))
      else Inr resource_id)"

section \<open>The durable record\<close>

record durable_record =
  dr_identity :: durable_identity
  dr_revision :: operation_revision
  dr_lifecycle :: lifecycle_state
  dr_checkpoint :: "durable_checkpoint option"
  dr_terminal_commit :: "terminal_commit_bundle option"
  dr_recovery_evidence :: "redacted_evidence list"

definition RESIDUAL_LIFECYCLES :: "lifecycle_state list" where
  "RESIDUAL_LIFECYCLES = [CLEANUP_REQUIRED, CLOSED]"

definition check_record :: "durable_record \<Rightarrow> (durable_error, durable_record) result" where
  "check_record r =
     (case dr_terminal_commit r of
        None \<Rightarrow> Inr r
      | Some c \<Rightarrow>
          if tc_residual_cleanup c \<noteq> [] then
            (if dr_lifecycle r \<notin> set RESIDUAL_LIFECYCLES then Inl ResidualNotSurfaced else Inr r)
          else if dr_lifecycle r \<noteq> tc_outcome c then Inl OutcomeNotExposed
          else Inr r)"

section \<open>Lifecycles never regress and never mint an outcome\<close>

text \<open>A ranked state machine whose steps never lower the rank and raise the revision by one, and
  which no step brings into its guarded states.\<close>

locale ranked_machine =
  fixes rank :: "'s \<Rightarrow> nat" and step :: "'s \<Rightarrow> nat \<Rightarrow> 's \<Rightarrow> ('e, 's \<times> nat) result" and guarded :: "'s set"
  assumes step_rank: "step s r t = Inr (s', r') \<Longrightarrow> rank s \<le> rank s' \<and> r' = Suc r"
    and step_guarded: "step s r t = Inr (s', r') \<Longrightarrow> s' \<in> guarded \<Longrightarrow> s \<in> guarded"
begin

lemma run_rank:
  assumes "rfold (\<lambda>t (s, r). step s r t) ts (s, r) = Inr (s', r')"
  shows "rank s \<le> rank s' \<and> r' = r + length ts"
  using assms
proof (induction ts arbitrary: s r)
  case (Cons t ts)
  then obtain s1 r1 where "step s r t = Inr (s1, r1)" "rfold (\<lambda>t (s, r). step s r t) ts (s1, r1) = Inr (s', r')"
    by (auto simp: result_iff)
  with Cons.IH step_rank show ?case by fastforce
qed simp

lemma run_guarded:
  assumes "rfold (\<lambda>t (s, r). step s r t) ts (s, r) = Inr (s', r')" "s \<notin> guarded"
  shows "s' \<notin> guarded"
  using assms
proof (induction ts arbitrary: s r)
  case (Cons t ts)
  then obtain s1 r1 where "step s r t = Inr (s1, r1)" "rfold (\<lambda>t (s, r). step s r t) ts (s1, r1) = Inr (s', r')"
    by (auto simp: result_iff)
  with Cons step_guarded show ?case by blast
qed simp

end

lemmas lifecycle_sets = TERMINAL_OUTCOMES_def RESOLVED_STATES_def POST_COMMIT_STATES_def RESIDUAL_LIFECYCLES_def

lemma advance_lifecycle_Inr_iff:
  "advance_lifecycle s r t = Inr (s', r') \<longleftrightarrow> s' = t \<and> r' = Suc r \<and> LIFECYCLE_ORDER s \<le> LIFECYCLE_ORDER t \<and>
     (s \<in> set TERMINAL_OUTCOMES \<longrightarrow> t \<in> set TERMINAL_OUTCOMES \<longrightarrow> t = s) \<and>
     (t \<in> set POST_COMMIT_STATES \<longrightarrow> s \<in> set POST_COMMIT_STATES)"
  by (auto simp: advance_lifecycle_def next_revision_def)

interpretation lifecycle: ranked_machine LIFECYCLE_ORDER advance_lifecycle "set POST_COMMIT_STATES"
  by unfold_locales (auto simp: advance_lifecycle_Inr_iff)

text \<open>A run of accepted transitions of one operation.\<close>

definition run_lifecycle ::
    "lifecycle_state list \<Rightarrow> lifecycle_state \<times> operation_revision \<Rightarrow> (durable_error, lifecycle_state \<times> operation_revision) result" where
  "run_lifecycle targets = rfold (\<lambda>t (s, r). advance_lifecycle s r t) targets"

lemma run_keeps_outcome:
  assumes "run_lifecycle ts (s, r) = Inr (s', r')" "s \<in> set TERMINAL_OUTCOMES" "s' \<in> set TERMINAL_OUTCOMES"
  shows "s' = s"
proof -
  have "rfold (\<lambda>t (s, r). advance_lifecycle s r t) ts (s, r) = Inr (s', r') \<Longrightarrow>
      s \<in> set TERMINAL_OUTCOMES \<Longrightarrow> s' \<in> set TERMINAL_OUTCOMES \<Longrightarrow> s' = s"
  proof (induction ts arbitrary: s r)
    case (Cons t ts)
    then obtain s1 r1 where step: "advance_lifecycle s r t = Inr (s1, r1)"
      and rest: "rfold (\<lambda>t (s, r). advance_lifecycle s r t) ts (s1, r1) = Inr (s', r')"
      by (auto simp: result_iff)
    have "LIFECYCLE_ORDER s1 \<le> LIFECYCLE_ORDER s'" "LIFECYCLE_ORDER s' = 4"
      using lifecycle.run_rank [OF rest] Cons.prems(3) by (auto simp: lifecycle_sets)
    with step Cons.prems(2) have "s1 = s"
      by (cases s1) (auto simp: advance_lifecycle_Inr_iff lifecycle_sets)
    with Cons rest show ?case by blast
  qed simp
  with assms show ?thesis by (simp add: run_lifecycle_def)
qed

lemma check_record_Inr_iff:
  "check_record r = Inr r' \<longleftrightarrow> r' = r \<and>
     (\<forall>c. dr_terminal_commit r = Some c \<longrightarrow>
        (if tc_residual_cleanup c = [] then dr_lifecycle r = tc_outcome c
         else dr_lifecycle r \<in> set RESIDUAL_LIFECYCLES))"
  by (auto simp: check_record_def split: option.splits)

section \<open>Evidence carries no connection material\<close>

definition has_infix :: "string \<Rightarrow> string \<Rightarrow> bool" where
  "has_infix w s \<longleftrightarrow> (\<exists>a b. s = a @ w @ b)"

lemma search_lit: "has_infix w s \<Longrightarrow> re_search (rlit w) s"
proof -
  assume "has_infix w s"
  then obtain a b where s: "s = a @ w @ b" by (auto simp: has_infix_def)
  then have "rxm s (rlit w) (length a) (length a + length w)" by (simp add: rxm_lit)
  moreover have "length a \<le> length s" using s by simp
  ultimately show ?thesis unfolding re_search_iff by blast
qed

lemma sensitive_separators:
  assumes "\<not> re_search SENSITIVE_TEXT s"
  shows "\<not> has_infix ''://'' s" "CHR ''@'' \<notin> set s"
proof -
  have alt: "re_search (rlit ''://'') s \<or> re_search (rlit ''@'') s \<Longrightarrow> re_search SENSITIVE_TEXT s"
    unfolding re_search_iff SENSITIVE_TEXT_def ralts.simps rxm.simps(4) by blast
  with assms show "\<not> has_infix ''://'' s" using search_lit by blast
  from alt assms have "\<not> has_infix ''@'' s" using search_lit by blast
  then show "CHR ''@'' \<notin> set s" unfolding has_infix_def by (metis append_Cons append_Nil split_list)
qed

lemma safe_identifier_chars: "is_safe_identifier s \<Longrightarrow> s \<noteq> [] \<and> list_all identifier_char s"
  unfolding is_safe_identifier_def SAFE_IDENTIFIER_def fullmatch_anchored fullmatch_plus_cls list_all_iff by blast

section \<open>Properties\<close>

text \<open>C16: whatever transitions are accepted for one operation, its rank never falls, the revision counts
  the transitions, a post-commit state is never entered from before the terminal commit, and a
  recorded outcome is never replaced by the other one.\<close>

theorem lifecycle_never_regresses:
  assumes "run_lifecycle targets (s, r) = Inr (s', r')"
  shows "LIFECYCLE_ORDER s \<le> LIFECYCLE_ORDER s' \<and> r' = r + length targets \<and>
    (s' \<in> set POST_COMMIT_STATES \<longrightarrow> s \<in> set POST_COMMIT_STATES) \<and>
    (s \<in> set TERMINAL_OUTCOMES \<longrightarrow> s' \<in> set TERMINAL_OUTCOMES \<longrightarrow> s' = s)"
  using assms run_keeps_outcome [OF assms] unfolding run_lifecycle_def
  using lifecycle.run_rank lifecycle.run_guarded by blast

theorem lifecycle_never_regresses_witness:
  "run_lifecycle [IN_PROGRESS, RECONCILIATION_REQUIRED, TERMINAL_PENDING] (ACCEPTED, 0) = Inr (TERMINAL_PENDING, 3) \<and>
   LIFECYCLE_ORDER ACCEPTED \<le> LIFECYCLE_ORDER TERMINAL_PENDING"
proof -
  have run: "run_lifecycle [IN_PROGRESS, RECONCILIATION_REQUIRED, TERMINAL_PENDING] (ACCEPTED, 0) = Inr (TERMINAL_PENDING, 3)"
    by code_simp
  with lifecycle_never_regresses [OF run] show ?thesis by blast
qed

text \<open>Recovery resumes an operation only before a terminal commit, outside reconciliation, and when
  the outcome of its mutation is known: a checkpoint exists or no mutation was attempted. From a
  checkpoint it resumes one revision later. An operation with an unknown outcome is reconciled.\<close>

theorem recovery_never_resumes_unknown:
  "(rec_action (plan_recovery state revision checkpoint attempted) = RESUME \<longleftrightarrow>
      state \<in> {ACCEPTED, IN_PROGRESS, TERMINAL_PENDING} \<and> \<not> (checkpoint = None \<and> attempted)) \<and>
   (rec_action (plan_recovery state revision checkpoint attempted) = RECONCILE \<longleftrightarrow>
      state = RECONCILIATION_REQUIRED \<or> state \<in> {ACCEPTED, IN_PROGRESS, TERMINAL_PENDING} \<and> checkpoint = None \<and> attempted) \<and>
   rec_revision (plan_recovery IN_PROGRESS revision (Some c) attempted) = cp_revision c + 1"
  by (cases state) (auto simp: plan_recovery_def lifecycle_sets next_revision_def split: option.splits)

end
