(* ===== verification/Effects.thy ===== *)
theory Effects
  imports Forge_Prelude
begin

text \<open>
  Programs with effects: a program takes the world and returns the changed world together with a
  value or the exception it raised, so the effects before a raise are kept. \<open>wp\<close> is the weakest
  precondition for a postcondition on normal return and one on exceptional return; its rules are
  collected in \<open>wp_rules\<close> and let \<open>simp\<close> run a program symbolically.
\<close>

named_theorems wp_rules \<open>weakest preconditions of programs\<close>

type_synonym ('s, 'e, 'a) prog = "'s \<Rightarrow> 's \<times> ('e, 'a) result"

definition ret :: "'a \<Rightarrow> ('s, 'e, 'a) prog" where
  "ret x = (\<lambda>s. (s, Inr x))"

definition raise_exn :: "'e \<Rightarrow> ('s, 'e, 'a) prog" where
  "raise_exn e = (\<lambda>s. (s, Inl e))"

definition sbind :: "('s, 'e, 'a) prog \<Rightarrow> ('a \<Rightarrow> ('s, 'e, 'b) prog) \<Rightarrow> ('s, 'e, 'b) prog" where
  "sbind m f = (\<lambda>s. case m s of (s', Inl e) \<Rightarrow> (s', Inl e) | (s', Inr x) \<Rightarrow> f x s')"

definition sthen :: "('s, 'e, 'a) prog \<Rightarrow> ('s, 'e, 'b) prog \<Rightarrow> ('s, 'e, 'b) prog" where
  "sthen m k = sbind m (\<lambda>_. k)"

text \<open>\<open>try: m except e: h(e)\<close>.\<close>

definition try_catch :: "('s, 'e, 'a) prog \<Rightarrow> ('e \<Rightarrow> ('s, 'e, 'a) prog) \<Rightarrow> ('s, 'e, 'a) prog" where
  "try_catch m h = (\<lambda>s. case m s of (s', Inl e) \<Rightarrow> h e s' | (s', Inr x) \<Rightarrow> (s', Inr x))"

text \<open>\<open>try: m finally: f\<close>.\<close>

definition finally_do :: "('s, 'e, 'a) prog \<Rightarrow> ('s, 'e, unit) prog \<Rightarrow> ('s, 'e, 'a) prog" where
  "finally_do m f = (\<lambda>s. case m s of (s', r) \<Rightarrow> (case f s' of (s'', Inl e) \<Rightarrow> (s'', Inl e) | (s'', Inr _) \<Rightarrow> (s'', r)))"

definition gets :: "('s \<Rightarrow> 'a) \<Rightarrow> ('s, 'e, 'a) prog" where
  "gets f = (\<lambda>s. (s, Inr (f s)))"

definition modify :: "('s \<Rightarrow> 's) \<Rightarrow> ('s, 'e, unit) prog" where
  "modify f = (\<lambda>s. (f s, Inr ()))"

definition lift_result :: "('e, 'a) result \<Rightarrow> ('s, 'e, 'a) prog" where
  "lift_result r = (\<lambda>s. (s, r))"

definition do_when :: "bool \<Rightarrow> ('s, 'e, unit) prog \<Rightarrow> ('s, 'e, unit) prog" where
  "do_when b m = (if b then m else ret ())"

text \<open>A loop that collects its results.\<close>

fun smap :: "('a \<Rightarrow> ('s, 'e, 'b) prog) \<Rightarrow> 'a list \<Rightarrow> ('s, 'e, 'b list) prog" where
  "smap f [] = ret []"
| "smap f (x # xs) = sbind (f x) (\<lambda>y. sbind (smap f xs) (\<lambda>ys. ret (y # ys)))"

definition wp :: "('s, 'e, 'a) prog \<Rightarrow> ('a \<Rightarrow> 's \<Rightarrow> bool) \<Rightarrow> ('e \<Rightarrow> 's \<Rightarrow> bool) \<Rightarrow> 's \<Rightarrow> bool" where
  "wp m Q R s = (case m s of (s', Inl e) \<Rightarrow> R e s' | (s', Inr x) \<Rightarrow> Q x s')"

lemma wp_ret [wp_rules]: "wp (ret x) Q R s = Q x s"
  by (simp add: wp_def ret_def)

lemma wp_raise [wp_rules]: "wp (raise_exn e) Q R s = R e s"
  by (simp add: wp_def raise_exn_def)

lemma wp_bind [wp_rules]: "wp (sbind m f) Q R s = wp m (\<lambda>x. wp (f x) Q R) R s"
  by (simp add: wp_def sbind_def split: prod.split sum.split)

lemma wp_then [wp_rules]: "wp (sthen m k) Q R s = wp m (\<lambda>_. wp k Q R) R s"
  by (simp add: sthen_def wp_bind)

lemma wp_try [wp_rules]: "wp (try_catch m h) Q R s = wp m Q (\<lambda>e. wp (h e) Q R) s"
  by (simp add: wp_def try_catch_def split: prod.split sum.split)

lemma wp_finally [wp_rules]:
  "wp (finally_do m f) Q R s = wp m (\<lambda>x. wp f (\<lambda>_. Q x) R) (\<lambda>e. wp f (\<lambda>_. R e) R) s"
  by (simp add: wp_def finally_do_def split: prod.split sum.split)

lemma wp_gets [wp_rules]: "wp (gets f) Q R s = Q (f s) s"
  by (simp add: wp_def gets_def)

lemma wp_modify [wp_rules]: "wp (modify f) Q R s = Q () (f s)"
  by (simp add: wp_def modify_def)

lemma wp_lift [wp_rules]: "wp (lift_result r) Q R s = (case r of Inl e \<Rightarrow> R e s | Inr x \<Rightarrow> Q x s)"
  by (simp add: wp_def lift_result_def)

lemma wp_when [wp_rules]: "wp (do_when b m) Q R s = (if b then wp m Q R s else Q () s)"
  by (simp add: do_when_def wp_ret)

lemma wp_if [wp_rules]: "wp (if b then m else k) Q R s = (if b then wp m Q R s else wp k Q R s)"
  by simp

lemma wp_option [wp_rules]:
  "wp (case x of None \<Rightarrow> m | Some y \<Rightarrow> f y) Q R s = (case x of None \<Rightarrow> wp m Q R s | Some y \<Rightarrow> wp (f y) Q R s)"
  by (cases x) simp_all

lemma wp_prod [wp_rules]: "wp (case p of (a, b) \<Rightarrow> f a b) Q R s = (case p of (a, b) \<Rightarrow> wp (f a b) Q R s)"
  by (cases p) simp

lemma wp_let [wp_rules]: "wp (let x = t in f x) Q R s = (let x = t in wp (f x) Q R s)"
  by simp

lemma wp_mono:
  assumes "wp m Q R s" "\<And>x s'. Q x s' \<Longrightarrow> Q' x s'" "\<And>e s'. R e s' \<Longrightarrow> R' e s'"
  shows "wp m Q' R' s"
  using assms by (auto simp: wp_def split: prod.splits sum.splits)

lemma wp_conj: "wp m (\<lambda>x s. Q x s \<and> Q' x s) (\<lambda>e s. R e s \<and> R' e s) s \<longleftrightarrow> wp m Q R s \<and> wp m Q' R' s"
  by (auto simp: wp_def split: prod.splits sum.splits)

lemma wp_result: "wp m Q R s \<Longrightarrow> m s = (s', Inr x) \<Longrightarrow> Q x s'"
  by (simp add: wp_def)

lemma wp_raised: "wp m Q R s \<Longrightarrow> m s = (s', Inl e) \<Longrightarrow> R e s'"
  by (simp add: wp_def)

lemma wpI: "(\<And>s' x. m s = (s', Inr x) \<Longrightarrow> Q x s') \<Longrightarrow> (\<And>s' e. m s = (s', Inl e) \<Longrightarrow> R e s') \<Longrightarrow> wp m Q R s"
  by (auto simp: wp_def split: prod.split sum.split)

text \<open>A relation between the worlds before and after that every iteration keeps is kept by the loop.\<close>

lemma wp_smap:
  assumes "\<And>s. I s s" "\<And>s1 s2 s3. I s1 s2 \<Longrightarrow> I s2 s3 \<Longrightarrow> I s1 s3"
    and "\<And>x s. x \<in> set xs \<Longrightarrow> wp (f x) (\<lambda>y s'. I s s' \<and> P x y) (\<lambda>e s'. I s s') s"
  shows "wp (smap f xs) (\<lambda>ys s'. I s s' \<and> list_all2 P xs ys) (\<lambda>e s'. I s s') s"
  using assms(3)
proof (induction xs arbitrary: s)
  case Nil
  then show ?case by (simp add: wp_rules assms(1))
next
  case (Cons x xs)
  have first: "wp (f x) (\<lambda>y s'. I s s' \<and> P x y) (\<lambda>e s'. I s s') s" by (rule Cons.prems) simp
  have "wp (sbind (smap f xs) (\<lambda>ys. ret (y # ys))) (\<lambda>ys s'. I s s' \<and> list_all2 P (x # xs) ys) (\<lambda>e s'. I s s') s1"
    if s1: "I s s1 \<and> P x y" for y s1
  proof -
    have "wp (smap f xs) (\<lambda>ys s'. I s1 s' \<and> list_all2 P xs ys) (\<lambda>e s'. I s1 s') s1"
      by (rule Cons.IH) (use Cons.prems in simp)
    then show ?thesis
      unfolding wp_bind wp_ret by (rule wp_mono) (use s1 assms(2) in auto)
  qed
  with first show ?case unfolding smap.simps wp_bind by (rule_tac wp_mono [OF first]) auto
qed

section \<open>Programs specified by the calls they log\<close>

text \<open>For a world that logs calls, \<open>emits calls P E m\<close> specifies a program by the calls it adds: \<open>P\<close>
  relates a returned value to them, and \<open>E\<close> holds of them when the program raises.\<close>

definition added :: "('s \<Rightarrow> 'c list) \<Rightarrow> ('c list \<Rightarrow> bool) \<Rightarrow> 's \<Rightarrow> 's \<Rightarrow> bool" where
  "added calls P s s' \<longleftrightarrow> (\<exists>xs. calls s' = calls s @ xs \<and> P xs)"

definition emits :: "('s \<Rightarrow> 'c list) \<Rightarrow> ('a \<Rightarrow> 'c list \<Rightarrow> bool) \<Rightarrow> ('c list \<Rightarrow> bool) \<Rightarrow> ('s, 'e, 'a) prog \<Rightarrow> bool" where
  "emits calls P E m \<longleftrightarrow> (\<forall>s. wp m (\<lambda>x s'. added calls (P x) s s') (\<lambda>_ s'. added calls E s s') s)"

lemma emitsD: "emits calls P E m \<Longrightarrow> wp m (\<lambda>x s'. added calls (P x) s s') (\<lambda>_ s'. added calls E s s') s"
  by (simp add: emits_def)

lemma added_same: "calls s' = calls s \<Longrightarrow> added calls P s s' \<longleftrightarrow> P []"
  by (simp add: added_def)

lemma added_weaken: "added calls P s s' \<Longrightarrow> (\<And>xs. P xs \<Longrightarrow> Q xs) \<Longrightarrow> added calls Q s s'"
  by (auto simp: added_def)

lemma added_trans:
  "added calls P s s' \<Longrightarrow> added calls P' s' s'' \<Longrightarrow> (\<And>xs ys. P xs \<Longrightarrow> P' ys \<Longrightarrow> Q (xs @ ys)) \<Longrightarrow> added calls Q s s''"
  by (force simp: added_def)

text \<open>What a program emits after one that added some calls.\<close>

lemma emits_after:
  assumes "emits calls P E m" "added calls A s0 s" "\<And>x xs ys. A xs \<Longrightarrow> P x ys \<Longrightarrow> Q x (xs @ ys)"
    and "\<And>xs ys. A xs \<Longrightarrow> E ys \<Longrightarrow> F (xs @ ys)"
  shows "wp m (\<lambda>x s'. added calls (Q x) s0 s') (\<lambda>_ s'. added calls F s0 s') s"
  using emitsD [OF assms(1), of s] by (rule wp_mono) (blast intro: added_trans [OF assms(2)] assms(3,4))+

lemma emits_weaken:
  assumes "emits calls P E m" "\<And>x xs. P x xs \<Longrightarrow> Q x xs" "\<And>xs. E xs \<Longrightarrow> F xs"
  shows "emits calls Q F m"
  unfolding emits_def using emitsD [OF assms(1)] by (blast intro: wp_mono added_weaken assms(2,3))

lemma emits_bind_if:
  assumes m: "emits calls P E m" and f: "\<And>x xs. P x xs \<Longrightarrow> emits calls (P' x) (E' x) (f x)"
    and Q: "\<And>x xs y ys. P x xs \<Longrightarrow> P' x y ys \<Longrightarrow> Q y (xs @ ys)" and E: "\<And>xs. E xs \<Longrightarrow> F xs"
    and F: "\<And>x xs ys. P x xs \<Longrightarrow> E' x ys \<Longrightarrow> F (xs @ ys)"
  shows "emits calls Q F (sbind m f)"
  unfolding emits_def wp_bind
proof
  fix s show "wp m (\<lambda>x. wp (f x) (\<lambda>x s'. added calls (Q x) s s') (\<lambda>_ s'. added calls F s s')) (\<lambda>_ s'. added calls F s s') s"
    using emitsD [OF m, of s]
  proof (rule wp_mono)
    fix x s' assume x: "added calls (P x) s s'"
    then obtain xs where "P x xs" by (auto simp: added_def)
    from f [OF this] x show "wp (f x) (\<lambda>x s'. added calls (Q x) s s') (\<lambda>_ s'. added calls F s s') s'"
      by (rule emits_after) (blast intro: Q F)+
  qed (blast intro: added_weaken E)
qed

lemma emits_bind:
  assumes "emits calls P E m" "\<And>x. emits calls (P' x) (E' x) (f x)" "\<And>x xs y ys. P x xs \<Longrightarrow> P' x y ys \<Longrightarrow> Q y (xs @ ys)"
    and "\<And>xs. E xs \<Longrightarrow> F xs" "\<And>x xs ys. P x xs \<Longrightarrow> E' x ys \<Longrightarrow> F (xs @ ys)"
  shows "emits calls Q F (sbind m f)"
  using assms by (rule emits_bind_if)

lemma emits_then:
  assumes "emits calls P E m" "emits calls P' E' k" "\<And>x xs y ys. P x xs \<Longrightarrow> P' y ys \<Longrightarrow> Q y (xs @ ys)"
    and "\<And>xs. E xs \<Longrightarrow> F xs" "\<And>x xs ys. P x xs \<Longrightarrow> E' ys \<Longrightarrow> F (xs @ ys)"
  shows "emits calls Q F (sthen m k)"
  unfolding sthen_def using assms by (rule emits_bind)

lemma emits_try:
  assumes m: "emits calls P E m" and h: "\<And>e. emits calls P' E' (h e)"
    and P: "\<And>x xs. P x xs \<Longrightarrow> Q x xs" and Q: "\<And>x xs ys. E xs \<Longrightarrow> P' x ys \<Longrightarrow> Q x (xs @ ys)"
    and F: "\<And>xs ys. E xs \<Longrightarrow> E' ys \<Longrightarrow> F (xs @ ys)"
  shows "emits calls Q F (try_catch m h)"
  unfolding emits_def wp_try
proof
  fix s show "wp m (\<lambda>x s'. added calls (Q x) s s') (\<lambda>e. wp (h e) (\<lambda>x s'. added calls (Q x) s s') (\<lambda>_ s'. added calls F s s')) s"
    using emitsD [OF m, of s]
  proof (rule wp_mono)
    fix e s' assume "added calls E s s'"
    then show "wp (h e) (\<lambda>x s'. added calls (Q x) s s') (\<lambda>_ s'. added calls F s s') s'"
      by (rule emits_after [OF h]) (blast intro: Q F)+
  qed (blast intro: added_weaken P)
qed

lemma emits_finally:
  assumes m: "emits calls P E m" and f: "emits calls (\<lambda>_. P') E' f"
    and Q: "\<And>x xs ys. P x xs \<Longrightarrow> P' ys \<Longrightarrow> Q x (xs @ ys)" and E: "\<And>xs ys. E xs \<Longrightarrow> P' ys \<Longrightarrow> F (xs @ ys)"
    and F: "\<And>x xs ys. P x xs \<Longrightarrow> E' ys \<Longrightarrow> F (xs @ ys)" and F': "\<And>xs ys. E xs \<Longrightarrow> E' ys \<Longrightarrow> F (xs @ ys)"
  shows "emits calls Q F (finally_do m f)"
  unfolding emits_def wp_finally
proof
  fix s show "wp m (\<lambda>x. wp f (\<lambda>_ s'. added calls (Q x) s s') (\<lambda>_ s'. added calls F s s'))
      (\<lambda>e. wp f (\<lambda>_ s'. added calls F s s') (\<lambda>_ s'. added calls F s s')) s"
    using emitsD [OF m, of s]
  proof (rule wp_mono)
    show "wp f (\<lambda>_ s'. added calls (Q x) s s') (\<lambda>_ s'. added calls F s s') s'" if "added calls (P x) s s'" for x s'
      using that by (rule emits_after [OF f]) (blast intro: Q F)+
    show "wp f (\<lambda>_ s'. added calls F s s') (\<lambda>_ s'. added calls F s s') s'" if "added calls E s s'" for s'
      using that by (rule emits_after [OF f]) (blast intro: E F')+
  qed
qed

lemma emits_ret: "P x [] \<Longrightarrow> emits calls P E (ret x)"
  by (simp add: emits_def wp_rules added_same)

lemma emits_raise: "E [] \<Longrightarrow> emits calls P E (raise_exn e)"
  by (simp add: emits_def wp_rules added_same)

lemma emits_lift: "(\<And>x. r = Inr x \<Longrightarrow> P x []) \<Longrightarrow> (\<And>e. r = Inl e \<Longrightarrow> E []) \<Longrightarrow> emits calls P E (lift_result r)"
  by (simp add: emits_def wp_rules added_same split: sum.split)

lemma emits_gets: "(\<And>x. P x []) \<Longrightarrow> emits calls P E (gets f)"
  by (simp add: emits_def wp_rules added_same)

lemma emits_modify: "(\<And>s. calls (f s) = calls s) \<Longrightarrow> P () [] \<Longrightarrow> emits calls P E (modify f)"
  by (simp add: emits_def wp_rules added_same)

lemma emits_if: "(b \<Longrightarrow> emits calls P E m) \<Longrightarrow> (\<not> b \<Longrightarrow> emits calls P E k) \<Longrightarrow> emits calls P E (if b then m else k)"
  by simp

lemma emits_option:
  "(x = None \<Longrightarrow> emits calls P E m) \<Longrightarrow> (\<And>y. x = Some y \<Longrightarrow> emits calls P E (f y)) \<Longrightarrow>
    emits calls P E (case x of None \<Rightarrow> m | Some y \<Rightarrow> f y)"
  by (cases x) simp_all

lemma emits_when: "(b \<Longrightarrow> emits calls P E m) \<Longrightarrow> P () [] \<Longrightarrow> emits calls P E (do_when b m)"
  by (simp add: do_when_def emits_ret)

text \<open>A loop: a property of the calls closed under concatenation, and a relation of each element to its
  result that more calls do not falsify.\<close>

lemma emits_smap:
  assumes "G []" "\<And>xs ys. G xs \<Longrightarrow> G ys \<Longrightarrow> G (xs @ ys)" "\<And>x y A B. J x y A \<Longrightarrow> A \<subseteq> B \<Longrightarrow> J x y B"
    and "\<And>x. x \<in> set xs \<Longrightarrow> emits calls (\<lambda>y cs. G cs \<and> J x y (set cs)) G (f x)"
  shows "emits calls (\<lambda>ys cs. G cs \<and> list_all2 (\<lambda>x y. J x y (set cs)) xs ys) G (smap f xs)"
  using assms(4)
proof (induction xs)
  case Nil
  then show ?case by (simp add: emits_ret assms(1))
next
  case (Cons x xs)
  have tail: "emits calls (\<lambda>ys cs. G cs \<and> list_all2 (\<lambda>x y. J x y (set cs)) xs ys) G (smap f xs)"
    by (rule Cons.IH) (simp add: Cons.prems)
  have grow: "list_all2 (\<lambda>x y. J x y (set cs \<union> set ds)) xs ys" if "list_all2 (\<lambda>x y. J x y (set ds)) xs ys" for cs ds ys
    using that by (rule list_all2_mono) (use assms(3) in blast)
  have rest: "emits calls (\<lambda>zs cs. G cs \<and> (\<exists>ys. zs = y # ys \<and> list_all2 (\<lambda>x y. J x y (set cs)) xs ys)) G
      (sbind (smap f xs) (\<lambda>ys. ret (y # ys)))" for y
    by (rule emits_bind [OF tail, where P' = "\<lambda>ys zs cs. zs = y # ys \<and> cs = []" and E' = "\<lambda>_ _. False"])
      (auto intro: emits_ret)
  show ?case unfolding smap.simps
  proof (rule emits_bind [OF Cons.prems [OF list.set_intros(1)] rest])
    fix y cs zs ds
    assume "G cs \<and> J x y (set cs)" "G ds \<and> (\<exists>ys. zs = y # ys \<and> list_all2 (\<lambda>x y. J x y (set ds)) xs ys)"
    then show "G (cs @ ds) \<and> list_all2 (\<lambda>x y. J x y (set (cs @ ds))) (x # xs) zs"
      using assms(2) grow assms(3) by fastforce
  qed (use assms(2) in auto)
qed

text \<open>A property of logged calls that concatenation keeps holds of every program all of whose calls have
  it.\<close>

locale call_monoid =
  fixes G :: "'c list \<Rightarrow> bool"
  assumes nil: "G []" and append: "G xs \<Longrightarrow> G ys \<Longrightarrow> G (xs @ ys)"
begin

lemma ret: "emits calls (\<lambda>_. G) G (ret x)"
  by (rule emits_ret) (rule nil)

lemma raise: "emits calls (\<lambda>_. G) G (raise_exn e)"
  by (rule emits_raise) (rule nil)

lemma lift: "emits calls (\<lambda>_. G) G (lift_result r)"
  by (rule emits_lift) (rule nil)+

lemma gets: "emits calls (\<lambda>_. G) G (gets f)"
  by (rule emits_gets) (rule nil)

lemma modify: "(\<And>s. calls (f s) = calls s) \<Longrightarrow> emits calls (\<lambda>_. G) G (modify f)"
  by (rule emits_modify) (simp_all add: nil)

lemma bind:
  assumes "emits calls (\<lambda>_. G) G m" "\<And>x. emits calls (\<lambda>_. G) G (f x)"
  shows "emits calls (\<lambda>_. G) G (sbind m f)"
  using assms by (rule emits_bind) (blast intro: append)+

lemma sequel:
  assumes "emits calls (\<lambda>_. G) G m" "emits calls (\<lambda>_. G) G k"
  shows "emits calls (\<lambda>_. G) G (sthen m k)"
  using assms by (rule emits_then) (blast intro: append)+

lemma handler:
  assumes "emits calls (\<lambda>_. G) G m" "\<And>e. emits calls (\<lambda>_. G) G (h e)"
  shows "emits calls (\<lambda>_. G) G (try_catch m h)"
  using assms by (rule emits_try) (blast intro: append)+

lemma finaliser:
  assumes "emits calls (\<lambda>_. G) G m" "emits calls (\<lambda>_. G) G f"
  shows "emits calls (\<lambda>_. G) G (finally_do m f)"
  using assms by (rule emits_finally) (blast intro: append)+

lemma optional: "emits calls (\<lambda>_. G) G m \<Longrightarrow> emits calls (\<lambda>_. G) G (do_when b m)"
  by (rule emits_when) (simp_all add: nil)

lemma loop:
  assumes "\<And>x. x \<in> set xs \<Longrightarrow> emits calls (\<lambda>_. G) G (f x)"
  shows "emits calls (\<lambda>_. G) G (smap f xs)"
  using assms
proof (induction xs)
  case Nil
  then show ?case unfolding smap.simps by (intro ret)
next
  case (Cons x xs)
  then show ?case unfolding smap.simps by (intro bind ret) simp_all
qed

lemmas basic = ret raise lift gets
lemmas rules = basic bind sequel handler finaliser optional emits_if emits_option

end

text \<open>A program leaves a projection of the world alone.\<close>

abbreviation keeps :: "('s \<Rightarrow> 'c) \<Rightarrow> ('s, 'e, 'a) prog \<Rightarrow> bool" where
  "keeps proj \<equiv> emits (\<lambda>s. [proj s]) (\<lambda>_ cs. cs = []) (\<lambda>cs. cs = [])"

interpretation keep: call_monoid "\<lambda>cs. cs = []"
  by unfold_locales auto

lemma keeps_wp: "keeps proj m \<Longrightarrow> wp m (\<lambda>_ s'. proj s' = proj s) (\<lambda>_ s'. proj s' = proj s) s"
  by (drule emitsD, erule wp_mono) (simp_all add: added_def)

text \<open>What a program guarantees when it returns.\<close>

definition ensures :: "('a \<Rightarrow> 's \<Rightarrow> bool) \<Rightarrow> ('s, 'e, 'a) prog \<Rightarrow> bool" where
  "ensures Q m \<longleftrightarrow> (\<forall>s. wp m Q (\<lambda>_ _. True) s)"

lemma ensures_bind:
  assumes "\<And>x. ensures Q (f x)"
  shows "ensures Q (sbind m f)"
  unfolding ensures_def wp_bind by (rule allI, rule wpI) (use assms in \<open>simp_all add: ensures_def\<close>)

lemma ensures_then: "ensures Q k \<Longrightarrow> ensures Q (sthen m k)"
  unfolding sthen_def by (rule ensures_bind)

end
