(* ===== verification/Registry_Types.thy ===== *)
theory Registry_Types
  imports Durable_Ops Effects
begin

text \<open>
  The values the control plane shares: ownership (\<open>resource_ownership/types.py\<close>), tenancy
  (\<open>tenancy/types.py\<close>), the instance registry (\<open>instance_registry/types.py\<close> and \<open>errors.py\<close>) and the
  database provider's values (\<open>database/types.py\<close>). One-field wrappers (\<open>TenantId\<close>, \<open>InstanceId\<close>,
  \<open>OperationIdentity\<close>) are their string; that the string is not empty is in the well-formedness
  predicates.
\<close>

datatype resource_ownership = Created | Adopted | External

record creation_receipt =
  cr_operation :: string
  cr_owned_resource_ids :: "string list"

record resource_ref =
  rf_identifier :: string
  rf_resource_kind :: string
  rf_ownership :: resource_ownership

record ownership_receipt =
  or_operation :: durable_identity
  or_owned_resource_ids :: "string list"
  or_live_proof_expected :: bool

record ownership_record =
  ow_ref :: resource_ref
  ow_attribution :: "string option option"
  ow_receipt :: "ownership_receipt option"

record ownership_attestation =
  oa_resource :: resource_ref
  oa_attested :: bool
  oa_live_proof_verified :: bool

record project_scope =
  ps_tenant :: string
  ps_project_id :: string

record tenant_scoped_ownership =
  to_tenant :: string
  to_project :: "project_scope option"
  to_ownership :: resource_ownership

record instance_pointer =
  ip_scope :: project_scope
  ip_instance_id :: string

record instance_record =
  ir_pointer :: instance_pointer
  ir_resource :: resource_ref
  ir_receipt :: "ownership_receipt option"

text \<open>\<open>Field(min_length=1)\<close> on the tenant, the instance id and the resource kind.\<close>

definition scope_ok :: "project_scope \<Rightarrow> bool" where
  "scope_ok s \<longleftrightarrow> ps_tenant s \<noteq> []"

definition pointer_ok :: "instance_pointer \<Rightarrow> bool" where
  "pointer_ok p \<longleftrightarrow> scope_ok (ip_scope p) \<and> ip_instance_id p \<noteq> []"

definition resource_ref_ok :: "resource_ref \<Rightarrow> bool" where
  "resource_ref_ok r \<longleftrightarrow> rf_resource_kind r \<noteq> []"

record database_spec =
  ds_name :: string
  ds_network :: "string option"
  ds_data_volume :: "string option"
  ds_env :: "(string \<times> string) list"
  ds_labels :: "(string \<times> string) list"

record database_ref =
  db_identifier :: string
  db_ownership :: resource_ownership

record database_creation =
  dc_ref :: database_ref
  dc_receipt :: creation_receipt
  dc_data_volume_ownership :: resource_ownership

section \<open>Cleanup reports\<close>

definition residual_first :: "char \<Rightarrow> bool" where
  "residual_first c \<longleftrightarrow> is_lower c"

definition residual_rest :: "char \<Rightarrow> bool" where
  "residual_rest c \<longleftrightarrow> is_lower c \<or> is_digit c \<or> c = CHR ''-''"

definition RESIDUAL_FAILURE_IDENTIFIER :: rx where
  "RESIDUAL_FAILURE_IDENTIFIER =
     rseq [RCaret, RCat (RCls residual_first) (rupto 63 (RCls residual_rest)), RDollar]"

definition SENSITIVE_RESIDUAL_TERMS :: "string list" where
  "SENSITIVE_RESIDUAL_TERMS = [''artifact'', ''bytes'', ''credential'', ''dump'', ''password'', ''secret'', ''token'']"

definition contains_text :: "string \<Rightarrow> string \<Rightarrow> bool" where
  "contains_text term s = list_ex (prefix term) (suffixes s)"

datatype cleanup_error = UnsafeResidual

definition residual_ok :: "string \<Rightarrow> bool" where
  "residual_ok value \<longleftrightarrow> re_fullmatch RESIDUAL_FAILURE_IDENTIFIER value \<and>
     \<not> list_ex (\<lambda>term. contains_text term (py_lower value)) SENSITIVE_RESIDUAL_TERMS"

definition mk_cleanup_report :: "string list \<Rightarrow> (cleanup_error, string list) result" where
  "mk_cleanup_report residual_failures =
     (if list_all residual_ok residual_failures then Inr residual_failures else Inl UnsafeResidual)"

section \<open>Time and exceptions\<close>

text \<open>A \<open>datetime\<close>: microseconds, and whether it carries a time zone. Subtracting or comparing an
  aware and a naive one raises \<open>TypeError\<close>. A \<open>timedelta\<close> is its microseconds.\<close>

record datetime =
  dt_micros :: int
  dt_aware :: bool

type_synonym timedelta = int

datatype exn =
    RecordNotFound instance_pointer
  | MissingReceipt instance_pointer
  | RegistrationConflict instance_pointer
  | ReceiptOverwriteRejected instance_pointer
  | TypeErr
  | ValueErr string
  | ValidationErr
  | PortErr string

definition dt_sub :: "datetime \<Rightarrow> datetime \<Rightarrow> (exn, timedelta) result" where
  "dt_sub a b = (if dt_aware a = dt_aware b then Inr (dt_micros a - dt_micros b) else Inl TypeErr)"

section \<open>Texts without sensitive words\<close>

text \<open>A quick sufficient test for the pattern of \<open>durable_operations/types.py\<close>: no keyword occurs at all.\<close>

definition SENSITIVE_WORDS :: "string list" where
  "SENSITIVE_WORDS = [''authorization'', ''bearer'', ''credential'', ''password'', ''passwd'', ''secret'', ''token'']"

definition SENSITIVE_KEYWORDS :: "string list" where
  "SENSITIVE_KEYWORDS = ''api'' # ''artifact'' # SENSITIVE_WORDS"

definition plain_text :: "string \<Rightarrow> bool" where
  "plain_text s \<longleftrightarrow> s \<noteq> [] \<and> \<not> list_ex (\<lambda>w. contains_text w (py_lower s)) SENSITIVE_KEYWORDS \<and>
     \<not> contains_text ''://'' s \<and> \<not> contains_text ''@'' s"

lemma rxm_lit_i:
  "i \<le> length s \<Longrightarrow> rxm s (rlit_i w) i j \<Longrightarrow> prefix w (drop i (py_lower s))"
proof (induction w arbitrary: i)
  case (Cons c w)
  show ?case
  proof (cases "i < length s")
    case True
    then have d: "drop i (py_lower s) = lower_char (s ! i) # drop (Suc i) (py_lower s)"
      by (simp add: py_lower_def Cons_nth_drop_Suc [symmetric])
    from True Cons.prems(2) Cons.IH [of "Suc i"] show ?thesis
      by (cases w) (auto simp: rlit_i_def d)
  next
    case False
    with Cons.prems show ?thesis by (cases w) (auto simp: rlit_i_def)
  qed
qed simp

lemma contains_textI: "prefix w (drop i s) \<Longrightarrow> contains_text w s"
  unfolding contains_text_def list_ex_iff by (metis in_set_suffixes suffix_drop)

lemma ralts_mem: "rxm s (ralts rs) i j \<Longrightarrow> \<exists>r \<in> set rs. rxm s r i j"
  by (induction rs rule: ralts.induct) auto

lemma rxm_first: "rxm s (rseq [a, b, c]) i j \<Longrightarrow> \<exists>k. rxm s a i k"
  by auto

lemma rxm_words:
  assumes "rxm s (ralts (rseq [rlit_i a, x, y] # rseq [rlit_i b, x', y'] # map rlit_i ws)) i k"
  shows "\<exists>w \<in> set (a # b # ws). \<exists>k. rxm s (rlit_i w) i k"
proof -
  obtain r where r: "r \<in> set (rseq [rlit_i a, x, y] # rseq [rlit_i b, x', y'] # map rlit_i ws)" "rxm s r i k"
    using ralts_mem [OF assms] by blast
  then consider "r = rseq [rlit_i a, x, y]" | "r = rseq [rlit_i b, x', y']" | w where "w \<in> set ws" "r = rlit_i w"
    unfolding list.set set_map by blast
  then show ?thesis
  proof cases
    case 1
    with r(2) rxm_first show ?thesis by (metis list.set_intros(1))
  next
    case 2
    with r(2) rxm_first show ?thesis by (metis list.set_intros(1,2))
  next
    case 3
    with r(2) show ?thesis by auto
  qed
qed

lemma plain_text_not_sensitive:
  assumes "plain_text s"
  shows "\<not> re_search SENSITIVE_TEXT s"
proof
  assume "re_search SENSITIVE_TEXT s"
  then obtain i j where i: "i \<le> length s" and m: "rxm s SENSITIVE_TEXT i j" by (auto simp: re_search_iff)
  have kw: False if "rxm s (rlit_i w) i k" "w \<in> set SENSITIVE_KEYWORDS" for w k
    using contains_textI [OF rxm_lit_i [OF i that(1)]] that(2) assms by (auto simp: plain_text_def list_ex_iff)
  have lit: False if "rxm s (rlit w) i k" "contains_text w s \<Longrightarrow> False" for w k
    using that rxm_lit [OF i] contains_textI by blast
  from m consider
      k where "rxm s (ralts [rseq [rlit_i ''api'', dash_or_underscore, rlit_i ''key''],
         rseq [rlit_i ''artifact'', dash_or_underscore, rlit_i ''bytes''],
         rlit_i ''authorization'', rlit_i ''bearer'', rlit_i ''credential'', rlit_i ''password'',
         rlit_i ''passwd'', rlit_i ''secret'', rlit_i ''token'']) i k"
    | "rxm s (rlit ''://'') i j" | "rxm s (rlit ''@'') i j"
    unfolding SENSITIVE_TEXT_def ralts.simps rseq.simps rxm.simps by blast
  then show False
  proof cases
    case (1 k)
    then have "\<exists>w \<in> set SENSITIVE_KEYWORDS. \<exists>k. rxm s (rlit_i w) i k"
      unfolding SENSITIVE_KEYWORDS_def by (intro rxm_words) (simp only: SENSITIVE_WORDS_def list.map)
    with kw show False by blast
  next
    case 2
    then show False by (rule lit) (use assms in \<open>unfold plain_text_def, blast\<close>)
  next
    case 3
    then show False by (rule lit) (use assms in \<open>unfold plain_text_def, blast\<close>)
  qed
qed

lemma mk_evidence_plain:
  "plain_text event \<Longrightarrow> plain_text summary \<Longrightarrow> list_all is_safe_identifier refs \<Longrightarrow>
    mk_evidence event summary refs = Inr \<lparr>re_event = event, re_summary = summary, re_references = refs\<rparr>"
  by (simp add: mk_evidence_def validate_redacted_text_def validate_safe_references_def plain_text_not_sensitive)
    (simp add: plain_text_def)

text \<open>C18: evidence that is accepted has no URL scheme separator and no at sign in its texts, and its
  references consist of letters, digits, underscores and dashes.\<close>

theorem evidence_is_redacted:
  assumes "mk_evidence event summary references = Inr e"
  shows "\<not> has_infix ''://'' (re_event e) \<and> CHR ''@'' \<notin> set (re_event e) \<and>
    \<not> has_infix ''://'' (re_summary e) \<and> CHR ''@'' \<notin> set (re_summary e) \<and>
    list_all (\<lambda>ref. ref \<noteq> [] \<and> list_all identifier_char ref) (re_references e)"
proof -
  from assms have e: "\<not> re_search SENSITIVE_TEXT (re_event e)" "\<not> re_search SENSITIVE_TEXT (re_summary e)"
    and refs: "list_all is_safe_identifier (re_references e)"
    by (auto simp: mk_evidence_def validate_redacted_text_def validate_safe_references_def result_iff split: if_splits)
  from refs have "list_all (\<lambda>ref. ref \<noteq> [] \<and> list_all identifier_char ref) (re_references e)"
    by (rule list.pred_mono_strong) (rule safe_identifier_chars)
  with sensitive_separators [OF e(1)] sensitive_separators [OF e(2)] show ?thesis by blast
qed

theorem evidence_is_redacted_witness:
  "mk_evidence ''created'' ''database ready'' [] = Inr \<lparr>re_event = ''created'', re_summary = ''database ready'', re_references = []\<rparr> \<and>
   \<not> has_infix ''://'' ''database ready''"
proof -
  have "plain_text ''created''" "plain_text ''database ready''" by code_simp+
  then have e: "mk_evidence ''created'' ''database ready'' [] =
      Inr \<lparr>re_event = ''created'', re_summary = ''database ready'', re_references = []\<rparr>"
    by (intro mk_evidence_plain) simp_all
  with evidence_is_redacted [OF e] show ?thesis by (simp only: redacted_evidence.simps simp_thms)
qed

end
