(* ===== verification/Lifecycle.thy ===== *)
theory Lifecycle
  imports Registry_Types
begin

text \<open>
  Resource expiry and recovery (\<open>resource_lifecycle/types.py\<close>, \<open>resource_lifecycle/service.py\<close>). The
  registry, the provider gateway and the clock are parameters, programs over a state \<open>'g\<close> they may
  change arbitrarily at every call (so also a concurrent change between two observations is
  covered) and that may raise. The world of the service is that state, the append-only journal, how its next
  appends end (an append beyond that list succeeds), and the log of the mutating gateway calls with what they returned.
\<close>

section \<open>Values\<close>

datatype resource_class = Dev | Qa | Prod

datatype expiration_action = EXPIRE | ALERT_AUDIT_ONLY

datatype lifecycle_outcome =
    EXPIRED | ALERTED | QUARANTINED | ADOPTED | RECONCILED | DELETED | CANCELLED | HUMAN_INTERVENTION

datatype provider_presence = ABSENT | INVALID | PRESENT | UNVERIFIABLE

record resource_override =
  ro_resource_id :: string
  ro_ttl :: timedelta

record lifecycle_policy =
  pol_ttl :: timedelta
  pol_grace :: timedelta
  pol_approved_classes :: "resource_class list"
  pol_overrides :: "resource_override list"

definition is_approved :: "lifecycle_policy \<Rightarrow> resource_class \<Rightarrow> bool" where
  "is_approved policy c \<longleftrightarrow> c \<in> set (pol_approved_classes policy)"

definition ttl_for :: "lifecycle_policy \<Rightarrow> string \<Rightarrow> timedelta" where
  "ttl_for policy resource_id =
     (case find (\<lambda>ov. ro_resource_id ov = resource_id) (pol_overrides policy) of
        Some ov \<Rightarrow> ro_ttl ov | None \<Rightarrow> pol_ttl policy)"

record lifecycle_resource =
  lr_resource_id :: string
  lr_resource_class :: resource_class
  lr_last_activity :: datetime

record expiration_decision =
  ed_action :: expiration_action
  ed_eligible :: bool
  ed_mutation_allowed :: bool

definition evaluate_expiration ::
    "lifecycle_resource \<Rightarrow> datetime \<Rightarrow> lifecycle_policy \<Rightarrow> (exn, expiration_decision) result" where
  "evaluate_expiration resource now policy =
     (if lr_resource_class resource = Prod \<or> \<not> is_approved policy (lr_resource_class resource)
      then Inr \<lparr>ed_action = ALERT_AUDIT_ONLY, ed_eligible = False, ed_mutation_allowed = False\<rparr>
      else rbind (dt_sub now (lr_last_activity resource)) (\<lambda>age.
           let eligible = (age \<ge> ttl_for policy (lr_resource_id resource) + pol_grace policy) in
           Inr \<lparr>ed_action = (if eligible then EXPIRE else ALERT_AUDIT_ONLY), ed_eligible = eligible,
                ed_mutation_allowed = eligible\<rparr>))"

definition reset_activity_baseline :: "lifecycle_resource \<Rightarrow> datetime \<Rightarrow> lifecycle_resource" where
  "reset_activity_baseline resource occurred_at = resource\<lparr>lr_last_activity := occurred_at\<rparr>"

record lifecycle_authorization =
  la_actor :: string
  la_reason :: string
  la_approved :: bool

record lifecycle_residual =
  lres_code :: string
  lres_detail :: string

record quarantine_history =
  qh_pointer :: instance_pointer
  qh_scope :: project_scope
  qh_resource :: database_ref
  qh_operation :: durable_identity
  qh_evidence_digest :: string
  qh_resource_class :: resource_class
  qh_quarantined_at :: datetime
  qh_last_activity :: "datetime option"

record lifecycle_journal_event =
  je_policy :: lifecycle_policy
  je_evidence :: "string \<times> string"
  je_authorization :: lifecycle_authorization
  je_outcome :: lifecycle_outcome
  je_residuals :: "lifecycle_residual list"
  je_history :: "quarantine_history option"
  je_kind :: string

record database_observation =
  ob_ref :: database_ref
  ob_scope :: project_scope
  ob_evidence_digest :: string
  ob_ownership_valid :: bool
  ob_resource_class :: resource_class
  ob_last_activity :: "datetime option"
  ob_receipt :: "ownership_receipt option"
  ob_presence :: provider_presence

record recovery_result =
  rr_outcome :: lifecycle_outcome
  rr_residuals :: "lifecycle_residual list"

section \<open>Ports and world\<close>

datatype gateway_call =
    CallQuarantine database_ref "(exn, database_ref) result"
  | CallAdopt database_ref "(exn, database_ref) result"
  | CallReconcile string "(exn, database_creation) result"
  | CallDelete database_creation "(exn, unit) result"
  | CallCleanup creation_receipt "(exn, string list) result"

record 'g lifecycle_ports =
  lp_list :: "project_scope \<Rightarrow> 'g \<Rightarrow> 'g \<times> (exn, instance_record list) result"
  lp_get :: "instance_pointer \<Rightarrow> 'g \<Rightarrow> 'g \<times> (exn, instance_record) result"
  lp_observe :: "project_scope \<Rightarrow> 'g \<Rightarrow> 'g \<times> (exn, database_observation list) result"
  lp_quarantine :: "database_ref \<Rightarrow> 'g \<Rightarrow> 'g \<times> (exn, database_ref) result"
  lp_adopt :: "database_ref \<Rightarrow> 'g \<Rightarrow> 'g \<times> (exn, database_ref) result"
  lp_reconcile :: "string \<Rightarrow> 'g \<Rightarrow> 'g \<times> (exn, database_creation) result"
  lp_delete :: "database_creation \<Rightarrow> 'g \<Rightarrow> 'g \<times> (exn, unit) result"
  lp_cleanup :: "creation_receipt \<Rightarrow> 'g \<Rightarrow> 'g \<times> (exn, string list) result"
  lp_utcnow :: "'g \<Rightarrow> 'g \<times> int"

record 'g lifecycle_world =
  lw_state :: 'g
  lw_journal :: "lifecycle_journal_event list"
  lw_appends :: "exn option list"
  lw_calls :: "gateway_call list"

type_synonym ('g, 'a) lifecycle_prog = "('g lifecycle_world, exn, 'a) prog"

definition read_port :: "('g \<Rightarrow> 'g \<times> (exn, 'a) result) \<Rightarrow> ('g, 'a) lifecycle_prog" where
  "read_port p = (\<lambda>s. case p (lw_state s) of (g, r) \<Rightarrow> (s\<lparr>lw_state := g\<rparr>, r))"

definition mutate_port ::
    "((exn, 'a) result \<Rightarrow> gateway_call) \<Rightarrow> ('g \<Rightarrow> 'g \<times> (exn, 'a) result) \<Rightarrow> ('g, 'a) lifecycle_prog" where
  "mutate_port call p = (\<lambda>s. case p (lw_state s) of (g, r) \<Rightarrow>
     (s\<lparr>lw_state := g, lw_calls := lw_calls s @ [call r]\<rparr>, r))"

definition journal_append :: "lifecycle_journal_event \<Rightarrow> ('g, unit) lifecycle_prog" where
  "journal_append e = (\<lambda>s. case lw_appends s of
       Some x # os \<Rightarrow> (s\<lparr>lw_appends := os\<rparr>, Inl x)
     | os \<Rightarrow> (s\<lparr>lw_journal := lw_journal s @ [e], lw_appends := tl os\<rparr>, Inr ()))"

text \<open>\<open>now or datetime.now(UTC)\<close>.\<close>

definition current_time :: "'g lifecycle_ports \<Rightarrow> datetime option \<Rightarrow> ('g, datetime) lifecycle_prog" where
  "current_time ports now =
     (case now of Some t \<Rightarrow> ret t
      | None \<Rightarrow> read_port (\<lambda>g. case lp_utcnow ports g of (g', t) \<Rightarrow> (g', Inr \<lparr>dt_micros = t, dt_aware = True\<rparr>)))"

section \<open>Predicates of the service\<close>

definition confirmed_zombie ::
    "project_scope \<Rightarrow> lifecycle_policy \<Rightarrow> quarantine_history \<Rightarrow> database_observation option \<Rightarrow> bool" where
  "confirmed_zombie scope policy history observation =
     (if qh_scope history \<noteq> scope \<or> ip_scope (qh_pointer history) \<noteq> scope
         \<or> qh_resource_class history \<notin> {Dev, Qa} \<or> \<not> is_approved policy (qh_resource_class history)
      then False
      else case observation of
        None \<Rightarrow> True
      | Some o' \<Rightarrow>
          ob_scope o' = scope \<and> ob_ref o' = qh_resource history
          \<and> ob_resource_class o' = qh_resource_class history
          \<and> ob_evidence_digest o' = qh_evidence_digest history
          \<and> ob_ownership_valid o' \<and> ob_presence o' \<in> {ABSENT, INVALID}
          \<and> (case ob_receipt o' of None \<Rightarrow> True | Some r \<Rightarrow> or_operation r = qh_operation history))"

definition record_matches_history :: "instance_record \<Rightarrow> quarantine_history \<Rightarrow> bool" where
  "record_matches_history record history \<longleftrightarrow>
     ir_pointer record = qh_pointer history
     \<and> rf_resource_kind (ir_resource record) = ''database''
     \<and> rf_identifier (ir_resource record) = db_identifier (qh_resource history)
     \<and> rf_ownership (ir_resource record) = db_ownership (qh_resource history)
     \<and> (case ir_receipt record of None \<Rightarrow> False | Some r \<Rightarrow> or_operation r = qh_operation history)"

definition valid_timestamp :: "datetime \<Rightarrow> bool" where
  "valid_timestamp t \<longleftrightarrow> dt_aware t"

definition quarantine_wait_elapsed ::
    "'g lifecycle_ports \<Rightarrow> quarantine_history \<Rightarrow> timedelta \<Rightarrow> datetime option \<Rightarrow> ('g, bool) lifecycle_prog" where
  "quarantine_wait_elapsed ports history wait now =
     sbind (current_time ports now) (\<lambda>current.
     ret (valid_timestamp (qh_quarantined_at history) \<and> valid_timestamp current \<and>
          dt_micros (qh_quarantined_at history) \<le> dt_micros current \<and>
          dt_micros current - dt_micros (qh_quarantined_at history) \<ge> wait))"

definition matching :: "database_observation list \<Rightarrow> database_observation \<Rightarrow> database_observation option" where
  "matching observations expected =
     (case filter (\<lambda>item. db_identifier (ob_ref item) = db_identifier (ob_ref expected)) observations of
        [x] \<Rightarrow> Some x | _ \<Rightarrow> None)"

definition eligible ::
    "'g lifecycle_ports \<Rightarrow> database_observation \<Rightarrow> lifecycle_policy \<Rightarrow> datetime option \<Rightarrow> ('g, bool) lifecycle_prog" where
  "eligible ports observation policy now =
     (case ob_last_activity observation of
        None \<Rightarrow> ret False
      | Some active \<Rightarrow>
          sbind (current_time ports now) (\<lambda>current.
          sbind (lift_result (evaluate_expiration
            \<lparr>lr_resource_id = db_identifier (ob_ref observation),
             lr_resource_class = ob_resource_class observation, lr_last_activity = active\<rparr> current policy)) (\<lambda>decision.
          ret (ed_eligible decision \<and> ed_mutation_allowed decision))))"

definition lineage_matches :: "instance_record \<Rightarrow> database_observation \<Rightarrow> bool" where
  "lineage_matches record observation =
     (case (ir_receipt record, ob_receipt observation) of
        (Some r, Some o') \<Rightarrow>
          or_operation r = or_operation o'
          \<and> db_identifier (ob_ref observation) \<in> set (or_owned_resource_ids r)
          \<and> db_identifier (ob_ref observation) \<in> set (or_owned_resource_ids o')
      | _ \<Rightarrow> False)"

definition operation_of :: "instance_record \<Rightarrow> string" where
  "operation_of record = (case ir_receipt record of
     Some r \<Rightarrow> operation_id (or_operation r) | None \<Rightarrow> ip_instance_id (ir_pointer record))"

definition mk_quarantine_history ::
    "'g lifecycle_ports \<Rightarrow> instance_record \<Rightarrow> database_observation \<Rightarrow> database_ref \<Rightarrow> datetime option
     \<Rightarrow> ('g, quarantine_history) lifecycle_prog" where
  "mk_quarantine_history ports record observation resource now =
     (case ir_receipt record of
        None \<Rightarrow> raise_exn (ValueErr ''AssertionError'')
      | Some r \<Rightarrow>
          sbind (current_time ports now) (\<lambda>t.
          if \<not> dt_aware t then raise_exn ValidationErr
          else ret \<lparr>qh_pointer = ir_pointer record, qh_scope = ob_scope observation, qh_resource = resource,
                    qh_operation = or_operation r, qh_evidence_digest = ob_evidence_digest observation,
                    qh_resource_class = ob_resource_class observation, qh_quarantined_at = t,
                    qh_last_activity = ob_last_activity observation\<rparr>))"

section \<open>Journal helpers\<close>

definition append_action ::
    "lifecycle_policy \<Rightarrow> lifecycle_authorization \<Rightarrow> lifecycle_outcome \<Rightarrow> string \<Rightarrow> quarantine_history option
     \<Rightarrow> lifecycle_residual list \<Rightarrow> string \<Rightarrow> ('g, unit) lifecycle_prog" where
  "append_action policy authorization outcome digest history residuals kind =
     journal_append \<lparr>je_policy = policy, je_evidence = (''lifecycle'', digest), je_authorization = authorization,
       je_outcome = outcome, je_residuals = residuals, je_history = history, je_kind = kind\<rparr>"

definition action ::
    "lifecycle_policy \<Rightarrow> lifecycle_authorization \<Rightarrow> lifecycle_outcome \<Rightarrow> string \<Rightarrow> quarantine_history option
     \<Rightarrow> ('g, unit) lifecycle_prog" where
  "action policy authorization outcome digest history =
     append_action policy authorization outcome digest history [] ''action''"

definition finish_values :: "string \<Rightarrow> string list \<Rightarrow> lifecycle_residual list" where
  "finish_values code residuals =
     (let values = map (\<lambda>v. \<lparr>lres_code = code, lres_detail = v\<rparr>) residuals in
      if values = [] \<and> code \<notin> set [''adopted'', ''quarantined'', ''registry-only'', ''deleted'']
      then [\<lparr>lres_code = code, lres_detail = code\<rparr>] else values)"

definition finish ::
    "lifecycle_policy \<Rightarrow> lifecycle_authorization \<Rightarrow> string \<Rightarrow> lifecycle_outcome \<Rightarrow> string \<Rightarrow> string list
     \<Rightarrow> ('g, recovery_result) lifecycle_prog" where
  "finish policy authorization code outcome digest residuals =
     sthen (append_action policy authorization outcome digest None (finish_values code residuals) ''action'')
       (ret \<lparr>rr_outcome = outcome, rr_residuals = finish_values code residuals\<rparr>)"

definition human ::
    "lifecycle_policy \<Rightarrow> lifecycle_authorization \<Rightarrow> string \<Rightarrow> string \<Rightarrow> ('g, recovery_result) lifecycle_prog" where
  "human policy authorization code digest = finish policy authorization code HUMAN_INTERVENTION digest []"

section \<open>The service\<close>

fun cleanup_attempts ::
    "'g lifecycle_ports \<Rightarrow> creation_receipt \<Rightarrow> nat \<Rightarrow> string list \<Rightarrow> ('g, string list) lifecycle_prog" where
  "cleanup_attempts ports receipt 0 residuals = ret residuals"
| "cleanup_attempts ports receipt (Suc n) residuals =
     sbind (mutate_port (CallCleanup receipt) (lp_cleanup ports receipt)) (\<lambda>r.
     if r = [] then ret [] else cleanup_attempts ports receipt n r)"

definition cleanup :: "'g lifecycle_ports \<Rightarrow> nat \<Rightarrow> creation_receipt \<Rightarrow> ('g, string list) lifecycle_prog" where
  "cleanup ports max_cleanup_retries receipt = cleanup_attempts ports receipt (max_cleanup_retries + 1) []"

definition registry_matches :: "'g lifecycle_ports \<Rightarrow> instance_record \<Rightarrow> ('g, bool) lifecycle_prog" where
  "registry_matches ports record =
     try_catch (sbind (read_port (lp_get ports (ir_pointer record))) (\<lambda>r. ret (r = record)))
       (\<lambda>e. case e of RecordNotFound _ \<Rightarrow> ret False | _ \<Rightarrow> raise_exn e)"

definition revalidate ::
    "'g lifecycle_ports \<Rightarrow> project_scope \<Rightarrow> lifecycle_policy \<Rightarrow> instance_record option \<Rightarrow> database_observation
     \<Rightarrow> datetime option \<Rightarrow> ('g, (string \<times> string) option) lifecycle_prog" where
  "revalidate ports scope policy record expected now =
     sbind (case record of None \<Rightarrow> ret True | Some r \<Rightarrow> registry_matches ports r) (\<lambda>same.
     if \<not> same then ret (Some (''registry-drift'', ob_evidence_digest expected)) else
     sbind (read_port (lp_observe ports scope)) (\<lambda>observations.
     case matching observations expected of
       None \<Rightarrow> ret (Some (''evidence-drift'', ''missing''))
     | Some current \<Rightarrow>
         if ob_scope current \<noteq> scope then ret (Some (''scope-mismatch'', ob_evidence_digest current)) else
         sbind (eligible ports current policy now) (\<lambda>ok.
         ret (if \<not> ok then Some (''ineligible'', ob_evidence_digest current)
           else if \<not> ob_ownership_valid current then Some (''invalid-ownership'', ob_evidence_digest current)
           else case record of
             Some r \<Rightarrow>
               if \<not> lineage_matches r current then Some (''lineage-mismatch'', ob_evidence_digest current)
               else if ob_evidence_digest current \<noteq> ob_evidence_digest expected
               then Some (''evidence-drift'', ob_evidence_digest current) else None
           | None \<Rightarrow>
               if ob_receipt current \<noteq> ob_receipt expected then Some (''lineage-mismatch'', ob_evidence_digest current)
               else if ob_evidence_digest current \<noteq> ob_evidence_digest expected
               then Some (''evidence-drift'', ob_evidence_digest current) else None))))"

definition revalidate_zombie ::
    "'g lifecycle_ports \<Rightarrow> project_scope \<Rightarrow> lifecycle_policy \<Rightarrow> quarantine_history \<Rightarrow> ('g, bool) lifecycle_prog" where
  "revalidate_zombie ports scope policy history =
     sbind (try_catch (sbind (read_port (lp_get ports (qh_pointer history))) (\<lambda>_. ret True))
       (\<lambda>e. case e of RecordNotFound _ \<Rightarrow> ret False | _ \<Rightarrow> raise_exn e)) (\<lambda>registered.
     if registered then ret False else
     sbind (read_port (lp_observe ports scope)) (\<lambda>observations.
     ret (case filter (\<lambda>o'. ob_ref o' = qh_resource history) observations of
            [] \<Rightarrow> True
          | [o'] \<Rightarrow> confirmed_zombie scope policy history (Some o')
          | _ \<Rightarrow> False)))"

text \<open>\<open>None\<close> is \<open>_HistoryContradiction\<close>.\<close>

definition record_from_history ::
    "'g lifecycle_ports \<Rightarrow> quarantine_history \<Rightarrow> instance_record option \<Rightarrow> ('g, instance_record option option) lifecycle_prog" where
  "record_from_history ports history current =
     (let contradicts = (case current of None \<Rightarrow> False | Some c \<Rightarrow> \<not> record_matches_history c history) in
      try_catch
        (sbind (read_port (lp_get ports (qh_pointer history))) (\<lambda>record.
         ret (if \<not> record_matches_history record history then None
              else if contradicts then None
              else case current of
                Some c \<Rightarrow> if record \<noteq> c then Some (Some c) else Some (Some record)
              | None \<Rightarrow> Some (Some record))))
        (\<lambda>e. case e of RecordNotFound _ \<Rightarrow> ret (if contradicts then None else Some current)
             | _ \<Rightarrow> ret None))"

definition delete_owned ::
    "'g lifecycle_ports \<Rightarrow> nat \<Rightarrow> lifecycle_policy \<Rightarrow> lifecycle_authorization \<Rightarrow> database_ref \<Rightarrow> string \<Rightarrow> string
     \<Rightarrow> quarantine_history \<Rightarrow> ('g, recovery_result) lifecycle_prog" where
  "delete_owned ports retries policy authorization quarantined operation digest history =
     (let receipt = \<lparr>cr_operation = operation, cr_owned_resource_ids = [db_identifier quarantined]\<rparr>;
          creation = \<lparr>dc_ref = quarantined, dc_receipt = receipt, dc_data_volume_ownership = Created\<rparr> in
      sthen (mutate_port (CallDelete creation) (lp_delete ports creation)) (
      sthen (action policy authorization DELETED digest (Some history)) (
      sbind (cleanup ports retries receipt) (\<lambda>residuals.
      if residuals \<noteq> [] then finish policy authorization ''partial-cleanup'' HUMAN_INTERVENTION ''registry'' residuals
      else finish policy authorization ''deleted'' DELETED ''registry'' []))))"

definition recover_zombie ::
    "'g lifecycle_ports \<Rightarrow> nat \<Rightarrow> project_scope \<Rightarrow> lifecycle_policy \<Rightarrow> lifecycle_authorization \<Rightarrow> database_observation option
     \<Rightarrow> bool \<Rightarrow> timedelta \<Rightarrow> datetime option \<Rightarrow> quarantine_history \<Rightarrow> ('g, recovery_result) lifecycle_prog" where
  "recover_zombie ports retries scope policy authorization observation delete wait now history =
     (if \<not> confirmed_zombie scope policy history observation
      then human policy authorization ''not-confirmed-zombie'' ''registry'' else
      sbind (if delete then quarantine_wait_elapsed ports history wait now else ret True) (\<lambda>elapsed.
      if \<not> elapsed then human policy authorization ''quarantine-wait'' ''registry''
      else if \<not> delete \<and> \<not> valid_timestamp (qh_quarantined_at history)
      then human policy authorization ''invalid-quarantine-history'' ''registry'' else
      sbind (mutate_port (CallQuarantine (qh_resource history)) (lp_quarantine ports (qh_resource history))) (\<lambda>quarantined.
      let quarantine_history = history\<lparr>qh_resource := quarantined\<rparr> in
      sthen (action policy authorization QUARANTINED ''registry'' (Some quarantine_history)) (
      if delete then
        sbind (revalidate_zombie ports scope policy quarantine_history) (\<lambda>still.
        if \<not> still then human policy authorization ''not-confirmed-zombie'' ''registry''
        else delete_owned ports retries policy authorization quarantined
               (operation_id (qh_operation history)) ''registry'' quarantine_history)
      else finish policy authorization ''confirmed-zombie'' QUARANTINED ''registry'' []))))"

definition recover_orphan ::
    "'g lifecycle_ports \<Rightarrow> project_scope \<Rightarrow> lifecycle_policy \<Rightarrow> lifecycle_authorization \<Rightarrow> database_observation option
     \<Rightarrow> datetime option \<Rightarrow> ('g, recovery_result) lifecycle_prog" where
  "recover_orphan ports scope policy authorization observation now =
     (case observation of
        None \<Rightarrow> human policy authorization ''invalid-ownership'' ''registry''
      | Some o' \<Rightarrow>
          if \<not> ob_ownership_valid o' then human policy authorization ''invalid-ownership'' ''registry'' else
          sbind (revalidate ports scope policy None o' now) (\<lambda>failure.
          case failure of
            Some (code, digest) \<Rightarrow> human policy authorization code digest
          | None \<Rightarrow>
              sbind (mutate_port (CallQuarantine (ob_ref o')) (lp_quarantine ports (ob_ref o'))) (\<lambda>quarantined.
              sbind (mutate_port (CallAdopt quarantined) (lp_adopt ports quarantined)) (\<lambda>_.
              sthen (action policy authorization QUARANTINED ''registry'' None) (
              sthen (action policy authorization ADOPTED ''registry'' None) (
              finish policy authorization ''adopted'' ADOPTED (ob_evidence_digest o') []))))))"

definition recover_registered ::
    "'g lifecycle_ports \<Rightarrow> nat \<Rightarrow> project_scope \<Rightarrow> lifecycle_policy \<Rightarrow> lifecycle_authorization \<Rightarrow> instance_record
     \<Rightarrow> database_observation \<Rightarrow> bool \<Rightarrow> timedelta \<Rightarrow> datetime option \<Rightarrow> ('g, recovery_result) lifecycle_prog" where
  "recover_registered ports retries scope policy authorization record observation delete wait now =
     (if \<not> ob_ownership_valid observation then human policy authorization ''invalid-ownership'' (ob_evidence_digest observation)
      else if \<not> lineage_matches record observation then human policy authorization ''lineage-mismatch'' (ob_evidence_digest observation)
      else
      sbind (revalidate ports scope policy (Some record) observation now) (\<lambda>failure.
      case failure of
        Some (code, digest) \<Rightarrow> human policy authorization code digest
      | None \<Rightarrow>
          sbind (mutate_port (CallQuarantine (ob_ref observation)) (lp_quarantine ports (ob_ref observation))) (\<lambda>quarantined.
          sbind (mk_quarantine_history ports record observation quarantined now) (\<lambda>history.
          sthen (action policy authorization QUARANTINED (ob_evidence_digest observation) (Some history)) (
          if \<not> delete then finish policy authorization ''quarantined'' QUARANTINED ''registry'' []
          else if wait > 0 then finish policy authorization ''quarantine-wait'' QUARANTINED ''registry'' [''wait'']
          else
          sbind (revalidate ports scope policy (Some record) observation now) (\<lambda>failure.
          case failure of
            Some (code, digest) \<Rightarrow>
              if code = ''evidence-drift'' then finish policy authorization ''evidence-changed'' CANCELLED digest []
              else human policy authorization code digest
          | None \<Rightarrow>
              delete_owned ports retries policy authorization quarantined (operation_of record)
                (ob_evidence_digest observation) history))))))"

definition recover ::
    "'g lifecycle_ports \<Rightarrow> nat \<Rightarrow> project_scope \<Rightarrow> lifecycle_policy \<Rightarrow> lifecycle_authorization \<Rightarrow> instance_record option
     \<Rightarrow> database_observation option \<Rightarrow> bool \<Rightarrow> timedelta \<Rightarrow> datetime option \<Rightarrow> quarantine_history option
     \<Rightarrow> ('g, recovery_result) lifecycle_prog" where
  "recover ports retries scope policy authorization record observation delete wait now history =
     (if \<not> la_approved authorization then human policy authorization ''unauthorized'' ''registry''
      else case (history, record) of
        (Some h, None) \<Rightarrow> recover_zombie ports retries scope policy authorization observation delete wait now h
      | _ \<Rightarrow>
          sbind (case observation of
                   None \<Rightarrow> ret None
                 | Some o' \<Rightarrow>
                     if ob_scope o' \<noteq> scope then ret (Some (''scope-mismatch'', ''registry''))
                     else sbind (eligible ports o' policy now) (\<lambda>ok.
                          ret (if ok then None else Some (''ineligible'', ob_evidence_digest o')))) (\<lambda>rejected.
          case rejected of
            Some (code, digest) \<Rightarrow> human policy authorization code digest
          | None \<Rightarrow>
              (case (record, observation) of
                 (None, _) \<Rightarrow> recover_orphan ports scope policy authorization observation now
               | (Some r, None) \<Rightarrow>
                   sbind (registry_matches ports r) (\<lambda>same.
                   if \<not> same then human policy authorization ''registry-drift'' ''registry'' else
                   sbind (mutate_port (CallReconcile (operation_of r)) (lp_reconcile ports (operation_of r))) (\<lambda>_.
                   sthen (action policy authorization RECONCILED ''registry'' None)
                     (finish policy authorization ''registry-only'' RECONCILED ''registry'' [])))
               | (Some r, Some o') \<Rightarrow>
                   recover_registered ports retries scope policy authorization r o' delete wait now)))"

type_synonym resource_key = "string \<times> string"

definition record_key :: "instance_record \<Rightarrow> resource_key" where
  "record_key r = (rf_resource_kind (ir_resource r), rf_identifier (ir_resource r))"

definition observation_key :: "database_observation \<Rightarrow> resource_key" where
  "observation_key o' = (''database'', db_identifier (ob_ref o'))"

definition history_key :: "quarantine_history \<Rightarrow> resource_key" where
  "history_key h = (''database'', db_identifier (qh_resource h))"

definition handle_key ::
    "'g lifecycle_ports \<Rightarrow> nat \<Rightarrow> project_scope \<Rightarrow> lifecycle_policy \<Rightarrow> lifecycle_authorization \<Rightarrow> bool \<Rightarrow> timedelta
     \<Rightarrow> datetime option \<Rightarrow> instance_record list \<Rightarrow> database_observation list \<Rightarrow> quarantine_history list \<Rightarrow> resource_key
     \<Rightarrow> ('g, recovery_result) lifecycle_prog" where
  "handle_key ports retries scope policy authorization delete wait now records observations histories key =
     (if count_list (map record_key records) key > 1 \<or> count_list (map observation_key observations) key > 1
      then human policy authorization ''duplicate-evidence'' ''registry'' else
      let record = find (\<lambda>r. record_key r = key) records;
          observation = find (\<lambda>o'. observation_key o' = key) observations in
      case filter (\<lambda>h. history_key h = key) histories of
        [] \<Rightarrow> recover ports retries scope policy authorization record observation delete wait now None
      | [h] \<Rightarrow>
          sbind (record_from_history ports h record) (\<lambda>resolved.
          case resolved of
            None \<Rightarrow> human policy authorization ''history-mismatch'' ''registry''
          | Some record' \<Rightarrow> recover ports retries scope policy authorization record' observation delete wait now (Some h))
      | _ \<Rightarrow> human policy authorization ''duplicate-history'' ''registry'')"

definition run_keys ::
    "instance_record list \<Rightarrow> database_observation list \<Rightarrow> quarantine_history list \<Rightarrow> resource_key list" where
  "run_keys records observations histories =
     sort (remdups (map record_key records @ map observation_key observations @ map history_key histories))"

definition run ::
    "'g lifecycle_ports \<Rightarrow> nat \<Rightarrow> project_scope \<Rightarrow> lifecycle_policy \<Rightarrow> lifecycle_authorization \<Rightarrow> bool \<Rightarrow> timedelta
     \<Rightarrow> datetime option \<Rightarrow> ('g, recovery_result list) lifecycle_prog" where
  "run ports retries scope policy authorization delete wait now =
     (if wait < 0 then raise_exn (ValueErr ''wait must not be negative'') else
      sbind (read_port (lp_list ports scope)) (\<lambda>records.
      sbind (read_port (lp_observe ports scope)) (\<lambda>observations.
      sbind (gets (\<lambda>s. List.map_filter je_history (lw_journal s))) (\<lambda>histories.
      sthen (append_action policy authorization ALERTED ''run'' None
        (if records = [] \<and> observations = [] \<and> histories = []
         then [\<lparr>lres_code = ''empty-run'', lres_detail = ''empty-run''\<rparr>] else []) ''run'') (
      smap (handle_key ports retries scope policy authorization delete wait now records observations histories)
        (run_keys records observations histories))))))"

end
