(* ===== verification/Lifecycle_Safety.thy ===== *)
theory Lifecycle_Safety
  imports Lifecycle "HOL-Library.Sublist"
begin

text \<open>
  What the lifecycle service may do to a provider. \<open>logs P m\<close> says that the mutating gateway calls a
  program makes form a list with property \<open>P\<close>, whatever the ports do and also when it raises; for a
  \<open>P\<close> that holds of the empty list and of concatenations (a \<open>call_language\<close>) it follows the structure
  of the program.
\<close>

section \<open>The calls of a program\<close>

definition extends :: "(gateway_call list \<Rightarrow> bool) \<Rightarrow> 'g lifecycle_world \<Rightarrow> 'g lifecycle_world \<Rightarrow> bool" where
  "extends P s s' \<longleftrightarrow> (\<exists>cs. lw_calls s' = lw_calls s @ cs \<and> P cs)"

definition logs :: "(gateway_call list \<Rightarrow> bool) \<Rightarrow> ('g, 'a) lifecycle_prog \<Rightarrow> bool" where
  "logs P m \<longleftrightarrow> (\<forall>s. wp m (\<lambda>_ s'. extends P s s') (\<lambda>_ s'. extends P s s') s)"

text \<open>What a program can return.\<close>

definition returns :: "('a \<Rightarrow> bool) \<Rightarrow> ('g, 'a) lifecycle_prog \<Rightarrow> bool" where
  "returns V m \<longleftrightarrow> (\<forall>s. wp m (\<lambda>x _. V x) (\<lambda>_ _. True) s)"

lemma logs_emits: "logs P m \<longleftrightarrow> emits lw_calls (\<lambda>_. P) P m"
  by (simp add: logs_def emits_def extends_def added_def)

lemma logs_weaken: "logs P m \<Longrightarrow> (\<And>cs. P cs \<Longrightarrow> Q cs) \<Longrightarrow> logs Q m"
  unfolding logs_emits by (rule emits_weaken)

lemma logs_sequence:
  assumes "logs P m" "\<And>x. logs Q (f x)" "\<And>a b. P a \<Longrightarrow> Q b \<Longrightarrow> R (a @ b)" "\<And>a. P a \<Longrightarrow> R a"
  shows "logs R (sbind m f)"
  using assms(1,2) unfolding logs_emits by (rule emits_bind) (blast intro: assms(3,4))+

lemma wp_mutate:
  "p (lw_state s) = (g, r) \<Longrightarrow> wp (mutate_port call p) Q R s =
    (let s' = s\<lparr>lw_state := g, lw_calls := lw_calls s @ [call r]\<rparr> in case r of Inl e \<Rightarrow> R e s' | Inr x \<Rightarrow> Q x s')"
  by (simp add: wp_def mutate_port_def Let_def)

locale call_language = call_monoid P for P :: "gateway_call list \<Rightarrow> bool"
begin

lemma extends_refl: "extends P s s"
  by (simp add: extends_def nil)

lemma extends_trans: "extends P s1 s2 \<Longrightarrow> extends P s2 s3 \<Longrightarrow> extends P s1 s3"
  unfolding extends_def using append by fastforce

lemma logs_ret: "logs P (ret x)"
  unfolding logs_emits by (rule ret)

lemma logs_raise: "logs P (raise_exn e)"
  unfolding logs_emits by (rule raise)

lemma logs_gets: "logs P (gets f)"
  unfolding logs_emits by (rule gets)

lemma logs_lift: "logs P (lift_result r)"
  unfolding logs_emits by (rule lift)

lemma logs_bind_if:
  assumes "logs P m" "returns V m" "\<And>x. V x \<Longrightarrow> logs P (f x)"
  shows "logs P (sbind m f)"
  unfolding logs_def wp_bind
proof
  fix s
  from assms(1,2) have "wp m (\<lambda>x s'. extends P s s' \<and> V x) (\<lambda>_ s'. extends P s s' \<and> True) s"
    unfolding logs_def returns_def wp_conj by blast
  then show "wp m (\<lambda>x. wp (f x) (\<lambda>_ s'. extends P s s') (\<lambda>_ s'. extends P s s')) (\<lambda>_ s'. extends P s s') s"
  proof (rule wp_mono)
    fix x s' assume s': "extends P s s' \<and> V x"
    with assms(3) have "wp (f x) (\<lambda>_ s''. extends P s' s'') (\<lambda>_ s''. extends P s' s'') s'"
      by (simp add: logs_def)
    then show "wp (f x) (\<lambda>_ s''. extends P s s'') (\<lambda>_ s''. extends P s s'') s'"
      by (rule wp_mono) (use s' extends_trans in blast)+
  qed simp
qed

lemma logs_bind: "logs P m \<Longrightarrow> (\<And>x. logs P (f x)) \<Longrightarrow> logs P (sbind m f)"
  unfolding logs_emits by (rule bind)

lemma logs_then: "logs P m \<Longrightarrow> logs P k \<Longrightarrow> logs P (sthen m k)"
  unfolding logs_emits by (rule sequel)

lemma logs_try: "logs P m \<Longrightarrow> (\<And>e. logs P (h e)) \<Longrightarrow> logs P (try_catch m h)"
  unfolding logs_emits by (rule handler)

lemma logs_read: "logs P (read_port p)"
  by (auto simp: logs_def wp_def read_port_def extends_def nil split: prod.split sum.split)

lemma logs_journal: "logs P (journal_append e)"
  by (auto simp: logs_def journal_append_def wp_def extends_def nil split: list.split option.split)

lemma logs_mutate: "(\<And>r. P [call r]) \<Longrightarrow> logs P (mutate_port call p)"
  by (auto simp: logs_def wp_def mutate_port_def extends_def split: prod.split sum.split)

lemma logs_if: "(b \<Longrightarrow> logs P m) \<Longrightarrow> (\<not> b \<Longrightarrow> logs P k) \<Longrightarrow> logs P (if b then m else k)"
  by simp

lemma logs_option: "(x = None \<Longrightarrow> logs P m) \<Longrightarrow> (\<And>y. x = Some y \<Longrightarrow> logs P (f y)) \<Longrightarrow>
    logs P (case x of None \<Rightarrow> m | Some y \<Rightarrow> f y)"
  by (cases x) simp_all

lemma logs_prod: "(\<And>a b. x = (a, b) \<Longrightarrow> logs P (f a b)) \<Longrightarrow> logs P (case x of (a, b) \<Rightarrow> f a b)"
  by (cases x) simp

lemma logs_smap: "(\<And>x. x \<in> set xs \<Longrightarrow> logs P (f x)) \<Longrightarrow> logs P (smap f xs)"
  unfolding logs_emits by (rule loop)

lemmas logs_basic = logs_ret logs_raise logs_gets logs_lift logs_read logs_journal
lemmas logs_rules = logs_basic logs_bind logs_then logs_try logs_if logs_option logs_prod

lemma logs_action: "logs P (action p a out d h)" "logs P (append_action p a out d h res k)"
  by (simp_all add: action_def append_action_def logs_journal)

lemma logs_finish: "logs P (finish p a code out d res)" "logs P (human p a code d)"
  by (simp_all add: finish_def human_def logs_then logs_action logs_ret)

lemma logs_current_time: "logs P (current_time ports now)"
  unfolding current_time_def by (intro logs_rules)

lemma logs_eligible: "logs P (eligible ports o' policy now)"
  unfolding eligible_def by (intro logs_rules logs_current_time)

lemma logs_elapsed: "logs P (quarantine_wait_elapsed ports h wait now)"
  unfolding quarantine_wait_elapsed_def by (intro logs_rules logs_current_time)

lemma logs_handler: "logs P (case e of RecordNotFound x \<Rightarrow> ret a | _ \<Rightarrow> raise_exn e)" for a :: 'a
  by (cases e) (simp_all add: logs_ret logs_raise)

lemma logs_registry_matches: "logs P (registry_matches ports r)"
  unfolding registry_matches_def by (intro logs_try logs_bind logs_read logs_ret logs_handler)

lemma logs_revalidate: "logs P (revalidate ports scope policy record expected now)"
  unfolding revalidate_def by (intro logs_rules logs_registry_matches logs_eligible)

lemma logs_revalidate_zombie: "logs P (revalidate_zombie ports scope policy h)"
  unfolding revalidate_zombie_def by (intro logs_bind logs_try logs_read logs_ret logs_handler logs_if)

lemma logs_record_from_history: "logs P (record_from_history ports h current)"
proof -
  have "logs P (case e of RecordNotFound x \<Rightarrow> ret a | _ \<Rightarrow> ret b)" for e and a b :: "instance_record option option"
    by (cases e) (simp_all add: logs_ret)
  then show ?thesis unfolding record_from_history_def Let_def by (intro logs_try logs_bind logs_read logs_ret)
qed

lemma logs_mk_history: "logs P (mk_quarantine_history ports r o' ref now)"
  unfolding mk_quarantine_history_def by (intro logs_rules logs_current_time)

lemmas logs_readonly = logs_action logs_finish logs_current_time logs_eligible logs_elapsed logs_registry_matches
  logs_revalidate logs_revalidate_zombie logs_record_from_history logs_mk_history

end

text \<open>The calls stay inside a set.\<close>

interpretation within: call_language "\<lambda>cs. set cs \<subseteq> C" for C
  by unfold_locales auto

text \<open>Every deletion is of a reference that an earlier quarantine of the same list returned.\<close>

definition quarantined_first :: "gateway_call list \<Rightarrow> bool" where
  "quarantined_first cs \<longleftrightarrow> (\<forall>before c r after. cs = before @ CallDelete c r # after \<longrightarrow>
     (\<exists>ref. CallQuarantine ref (Inr (dc_ref c)) \<in> set before))"

interpretation ordered: call_language quarantined_first
proof
  fix xs ys assume xs: "quarantined_first xs" and ys: "quarantined_first ys"
  show "quarantined_first (xs @ ys)"
    unfolding quarantined_first_def
  proof (intro allI impI)
    fix before c r after assume "xs @ ys = before @ CallDelete c r # after"
    then obtain us where "xs = before @ us \<and> us @ ys = CallDelete c r # after \<or> xs @ us = before \<and> ys = us @ CallDelete c r # after"
      unfolding append_eq_append_conv2 by blast
    then consider u where "xs = before @ CallDelete c r # u" | u where "before = xs @ u" "ys = u @ CallDelete c r # after"
      by (cases us) auto
    then show "\<exists>ref. CallQuarantine ref (Inr (dc_ref c)) \<in> set before"
    proof cases
      case 1
      with xs show ?thesis unfolding quarantined_first_def by blast
    next
      case (2 u)
      with ys have "\<exists>ref. CallQuarantine ref (Inr (dc_ref c)) \<in> set u" unfolding quarantined_first_def by blast
      with 2 show ?thesis by auto
    qed
  qed
qed (simp add: quarantined_first_def)

text \<open>At most \<open>n\<close> cleanup attempts per deletion.\<close>

definition is_delete :: "gateway_call \<Rightarrow> bool" where
  "is_delete c = (case c of CallDelete _ _ \<Rightarrow> True | _ \<Rightarrow> False)"

definition is_cleanup :: "gateway_call \<Rightarrow> bool" where
  "is_cleanup c = (case c of CallCleanup _ _ \<Rightarrow> True | _ \<Rightarrow> False)"

definition bounded_cleanup :: "nat \<Rightarrow> gateway_call list \<Rightarrow> bool" where
  "bounded_cleanup n cs \<longleftrightarrow> length (filter is_cleanup cs) \<le> n * length (filter is_delete cs)"

interpretation bounded: call_language "bounded_cleanup n" for n
  by unfold_locales (auto simp: bounded_cleanup_def algebra_simps)

section \<open>What each path may call\<close>

text \<open>A resource class that may be expired under the policy.\<close>

definition expirable :: "lifecycle_policy \<Rightarrow> resource_class \<Rightarrow> bool" where
  "expirable policy c \<longleftrightarrow> c \<noteq> Prod \<and> is_approved policy c"

text \<open>The calls the recovery of one resource may make.\<close>

definition permitted ::
    "lifecycle_policy \<Rightarrow> instance_record option \<Rightarrow> database_observation option \<Rightarrow> bool \<Rightarrow> timedelta
     \<Rightarrow> quarantine_history option \<Rightarrow> gateway_call \<Rightarrow> bool" where
  "permitted policy record observation delete wait history call =
     (case call of
        CallQuarantine ref _ \<Rightarrow>
          (\<exists>o'. observation = Some o' \<and> ref = ob_ref o' \<and> expirable policy (ob_resource_class o')) \<or>
          (\<exists>h. history = Some h \<and> record = None \<and> ref = qh_resource h \<and> expirable policy (qh_resource_class h))
      | CallAdopt _ _ \<Rightarrow> record = None \<and> (\<exists>o'. observation = Some o' \<and> expirable policy (ob_resource_class o'))
      | CallReconcile _ _ \<Rightarrow> record \<noteq> None \<and> observation = None
      | CallDelete _ _ \<Rightarrow> delete \<and> (record \<noteq> None \<longrightarrow> wait \<le> 0)
      | CallCleanup _ _ \<Rightarrow> delete \<and> (record \<noteq> None \<longrightarrow> wait \<le> 0))"

lemma returnsI: "(\<And>s s' x. m s = (s', Inr x) \<Longrightarrow> V x) \<Longrightarrow> returns V m"
  by (auto simp: returns_def wp_def split: prod.split sum.split)

lemma returns_bind:
  assumes "\<And>x. returns V (f x)"
  shows "returns V (sbind m f)"
  unfolding returns_def wp_bind
proof
  fix s show "wp m (\<lambda>x. wp (f x) (\<lambda>x _. V x) (\<lambda>_ _. True)) (\<lambda>_ _. True) s"
    by (rule wpI) (use assms in \<open>simp_all add: returns_def\<close>)
qed

lemma returns_ret: "V x \<Longrightarrow> returns V (ret x)"
  by (simp add: returns_def wp_rules)

lemma eligible_expirable:
  "returns (\<lambda>ok. ok \<longrightarrow> expirable policy (ob_resource_class o')) (eligible ports o' policy now)"
proof (cases "ob_last_activity o'")
  case (Some t)
  have step: "returns (\<lambda>ok. ok \<longrightarrow> expirable policy (ob_resource_class o'))
      (sbind (lift_result (evaluate_expiration r now' policy)) (\<lambda>d. ret (ed_eligible d \<and> ed_mutation_allowed d)))"
    if "lr_resource_class r = ob_resource_class o'" for r now'
    using that by (auto simp: returns_def wp_rules evaluate_expiration_def expirable_def split: sum.split)
  show ?thesis unfolding eligible_def Some option.case by (rule returns_bind, rule step, rule lifecycle_resource.select_convs)
qed (simp add: eligible_def returns_ret)

lemma logs_cleanup_attempts:
  "logs (\<lambda>cs. set cs \<subseteq> {c. is_cleanup c}) (cleanup_attempts ports receipt n residuals)"
proof (induction n arbitrary: residuals)
  case (Suc n)
  then show ?case
    by (simp, intro within.logs_bind within.logs_mutate within.logs_if within.logs_ret) (simp add: is_cleanup_def)
qed (simp add: within.logs_ret)

text \<open>The calls of the deletion of one reference.\<close>

definition deletes :: "database_ref \<Rightarrow> gateway_call \<Rightarrow> bool" where
  "deletes q c = (case c of CallDelete d _ \<Rightarrow> dc_ref d = q | CallCleanup _ _ \<Rightarrow> True | _ \<Rightarrow> False)"

lemma cleanup_deletes: "is_cleanup c \<Longrightarrow> deletes q c"
  by (simp add: is_cleanup_def deletes_def split: gateway_call.splits)

lemma delete_owned_calls:
  "logs (\<lambda>cs. set cs \<subseteq> Collect (deletes quarantined))
     (delete_owned ports retries policy authorization quarantined operation digest history)"
proof -
  have "logs (\<lambda>cs. set cs \<subseteq> Collect (deletes quarantined))
      (cleanup ports retries receipt)" for receipt
    unfolding cleanup_def by (rule logs_weaken [OF logs_cleanup_attempts]) (use cleanup_deletes in blast)
  then show ?thesis
    unfolding delete_owned_def Let_def
    by (intro within.logs_then within.logs_bind within.logs_mutate within.logs_readonly within.logs_if)
      (simp add: deletes_def)
qed

text \<open>The deletion itself follows a quarantine that returned the reference.\<close>

lemma logs_after_quarantine:
  assumes "\<And>q. logs (\<lambda>cs. set cs \<subseteq> Collect (deletes q)) (k q)"
  shows "logs quarantined_first (sbind (mutate_port (CallQuarantine ref) p) k)"
  unfolding logs_def wp_bind
proof
  fix s :: "'a lifecycle_world"
  have first: "quarantined_first (CallQuarantine ref (Inr q) # cs)"
    if "set cs \<subseteq> Collect (deletes q)" for cs q
    unfolding quarantined_first_def
  proof (intro allI impI)
    fix before c r after assume eq: "CallQuarantine ref (Inr q) # cs = before @ CallDelete c r # after"
    then obtain b where b: "before = CallQuarantine ref (Inr q) # b" "cs = b @ CallDelete c r # after"
      by (cases before) auto
    with that have "dc_ref c = q" by (auto simp: deletes_def)
    with b show "\<exists>ref. CallQuarantine ref (Inr (dc_ref c)) \<in> set before" by auto
  qed
  have single: "quarantined_first [CallQuarantine ref x]" for x
    by (auto simp: quarantined_first_def Cons_eq_append_conv)
  have single_ext: "extends quarantined_first s (s\<lparr>lw_state := g, lw_calls := lw_calls s @ [CallQuarantine ref x]\<rparr>)" for g x
    by (simp add: extends_def single)
  obtain g r where p: "p (lw_state s) = (g, r)" by fastforce
  let ?s = "s\<lparr>lw_state := g, lw_calls := lw_calls s @ [CallQuarantine ref r]\<rparr>"
  have "wp (k q) (\<lambda>_ s'. extends quarantined_first s s') (\<lambda>_ s'. extends quarantined_first s s') ?s" if "r = Inr q" for q
  proof -
    from assms have "wp (k q)
        (\<lambda>_ s'. extends (\<lambda>cs. set cs \<subseteq> Collect (deletes q)) ?s s')
        (\<lambda>_ s'. extends (\<lambda>cs. set cs \<subseteq> Collect (deletes q)) ?s s') ?s"
      unfolding logs_def by blast
    then show ?thesis by (rule wp_mono) (auto simp: extends_def that intro: first)
  qed
  then show "wp (mutate_port (CallQuarantine ref) p)
      (\<lambda>x. wp (k x) (\<lambda>_ s'. extends quarantined_first s s') (\<lambda>_ s'. extends quarantined_first s s'))
      (\<lambda>_ s'. extends quarantined_first s s') s"
    unfolding wp_mutate [of p s g r, OF p] Let_def by (cases r) (simp_all add: single_ext)
qed

lemma within_weaken: "logs (\<lambda>cs. set cs \<subseteq> A) m \<Longrightarrow> A \<subseteq> B \<Longrightarrow> logs (\<lambda>cs. set cs \<subseteq> B) m"
  by (erule logs_weaken) blast

text \<open>Calls that delete nothing are in every order.\<close>

lemma ordered_no_delete: "(\<And>c. c \<in> set cs \<Longrightarrow> \<not> is_delete c) \<Longrightarrow> quarantined_first cs"
  unfolding quarantined_first_def
proof (intro allI impI)
  fix before c r after assume none: "\<And>c. c \<in> set cs \<Longrightarrow> \<not> is_delete c" and cs: "cs = before @ CallDelete c r # after"
  have "\<not> is_delete (CallDelete c r)" by (rule none) (simp add: cs)
  then show "\<exists>ref. CallQuarantine ref (Inr (dc_ref c)) \<in> set before" by (simp add: is_delete_def)
qed

lemma logs_ordered_mutate: "(\<And>r. \<not> is_delete (call r)) \<Longrightarrow> logs quarantined_first (mutate_port call p)"
  by (rule ordered.logs_mutate, rule ordered_no_delete) simp

lemma recover_zombie_ordered:
  "logs quarantined_first (recover_zombie ports retries scope policy authorization observation delete wait now h)"
  unfolding recover_zombie_def Let_def
  by (intro ordered.logs_if ordered.logs_bind ordered.logs_readonly ordered.logs_ret logs_after_quarantine
      within.logs_then within.logs_if within.logs_bind within.logs_readonly delete_owned_calls)

lemma recover_registered_ordered:
  "logs quarantined_first (recover_registered ports retries scope policy authorization record o' delete wait now)"
  unfolding recover_registered_def
  by (intro ordered.logs_if ordered.logs_bind [OF ordered.logs_revalidate] ordered.logs_readonly ordered.logs_option
      ordered.logs_prod logs_after_quarantine within.logs_option within.logs_prod
      within.logs_then within.logs_if within.logs_bind within.logs_readonly delete_owned_calls)

lemma recover_orphan_ordered:
  "logs quarantined_first (recover_orphan ports scope policy authorization observation now)"
  unfolding recover_orphan_def
  by (intro ordered.logs_if ordered.logs_bind ordered.logs_then ordered.logs_readonly ordered.logs_option
      ordered.logs_prod logs_ordered_mutate) (simp_all add: is_delete_def)

text \<open>The three cases of \<open>recover\<close>, for any language of calls.\<close>

context call_language
begin

lemma logs_recover:
  assumes "\<And>h. history = Some h \<Longrightarrow> record = None \<Longrightarrow> logs P (recover_zombie ports retries scope policy authorization observation delete wait now h)"
    and "record = None \<Longrightarrow> (\<And>o'. observation = Some o' \<Longrightarrow> expirable policy (ob_resource_class o')) \<Longrightarrow>
      logs P (recover_orphan ports scope policy authorization observation now)"
    and "\<And>r o'. record = Some r \<Longrightarrow> observation = Some o' \<Longrightarrow> expirable policy (ob_resource_class o') \<Longrightarrow>
      logs P (recover_registered ports retries scope policy authorization r o' delete wait now)"
    and "\<And>r x. record = Some r \<Longrightarrow> observation = None \<Longrightarrow> P [CallReconcile (operation_of r) x]"
  shows "logs P (recover ports retries scope policy authorization record observation delete wait now history)"
proof -
  have rejected: "returns (\<lambda>x. x = None \<longrightarrow> (\<forall>o'. observation = Some o' \<longrightarrow> expirable policy (ob_resource_class o')))
     (case observation of None \<Rightarrow> ret None
      | Some o' \<Rightarrow> if ob_scope o' \<noteq> scope then ret (Some (''scope-mismatch'', ''registry''))
          else sbind (eligible ports o' policy now) (\<lambda>ok. ret (if ok then None else Some (''ineligible'', ob_evidence_digest o'))))"
    (is "returns ?V ?m")
  proof (cases observation)
    case (Some o')
    have elig: "wp (eligible ports o' policy now) (\<lambda>ok _. ok \<longrightarrow> expirable policy (ob_resource_class o')) (\<lambda>_ _. True) s" for s
      using eligible_expirable unfolding returns_def by blast
    have "returns ?V (sbind (eligible ports o' policy now) (\<lambda>ok. ret (if ok then None else Some (''ineligible'', ob_evidence_digest o'))))"
      unfolding returns_def wp_bind by (rule allI, rule wp_mono [OF elig]) (simp_all add: wp_ret Some)
    then show ?thesis by (simp add: Some returns_ret)
  qed (simp add: returns_ret)
  have "logs P ?m" by (intro logs_rules logs_eligible)
  then have rest: "logs P (sbind ?m f)" if "\<And>x. ?V x \<Longrightarrow> logs P (f x)" for f :: "_ \<Rightarrow> ('a, recovery_result) lifecycle_prog"
    using rejected that by (rule logs_bind_if)
  show ?thesis
  proof (cases "\<not> la_approved authorization")
    case True
    then show ?thesis by (simp add: recover_def logs_finish)
  next
    case approved: False
    show ?thesis
    proof (cases "record = None \<and> history \<noteq> None")
      case True
      then obtain h where "history = Some h" "record = None" by blast
      with approved show ?thesis by (simp add: recover_def assms(1))
    next
      case False
      let ?k = "(\<lambda>rejected. case rejected of
            Some (code, digest) \<Rightarrow> human policy authorization code digest
          | None \<Rightarrow>
              (case (record, observation) of
                 (None, _) \<Rightarrow> recover_orphan ports scope policy authorization observation now
               | (Some r, None) \<Rightarrow>
                   sbind (registry_matches ports r) (\<lambda>same.
                   if \<not> same then human policy authorization ''registry-drift'' ''registry'' else
                   sbind (mutate_port (CallReconcile (operation_of r)) (lp_reconcile ports (operation_of r))) (\<lambda>_.
                   sthen (action policy authorization RECONCILED ''registry'' None)
                     (finish policy authorization ''registry-only'' RECONCILED ''registry'' [])))
               | (Some r, Some o') \<Rightarrow>
                   recover_registered ports retries scope policy authorization r o' delete wait now))"
      from False have eq: "recover ports retries scope policy authorization record observation delete wait now history = sbind ?m ?k"
        using approved by (cases history; cases "record") (simp_all add: recover_def)
      have "logs P (?k x)" if V: "?V x" for x
      proof (cases x)
        case None
        with V assms(2-4) show ?thesis
          by (cases "record"; cases observation)
            (simp_all, (intro logs_bind logs_if logs_then logs_mutate logs_readonly, simp)?)
      qed (auto simp: logs_finish)
      then show ?thesis unfolding eq by (rule rest)
    qed
  qed
qed

end

lemma recover_ordered:
  "logs quarantined_first (recover ports retries scope policy authorization record observation delete wait now history)"
  by (rule ordered.logs_recover)
    (auto intro: recover_zombie_ordered recover_orphan_ordered recover_registered_ordered ordered_no_delete simp: is_delete_def)

text \<open>Each deletion is followed by at most \<open>retries + 1\<close> cleanup attempts.\<close>

definition cleanups :: "nat \<Rightarrow> gateway_call list \<Rightarrow> bool" where
  "cleanups n cs \<longleftrightarrow> length cs \<le> n \<and> list_all is_cleanup cs"

lemma logs_cleanups_ret: "logs (cleanups n) (ret x)"
  by (simp add: logs_def wp_rules extends_def cleanups_def)

lemma logs_cleanup_count: "logs (cleanups n) (cleanup_attempts ports receipt n residuals)"
proof (induction n arbitrary: residuals)
  case 0
  then show ?case by (simp add: logs_def wp_rules extends_def cleanups_def)
next
  case (Suc n)
  have "logs (cleanups 1) (mutate_port (CallCleanup receipt) (lp_cleanup ports receipt))"
    by (auto simp: logs_def wp_def mutate_port_def extends_def cleanups_def is_cleanup_def split: prod.split sum.split)
  then show ?case unfolding cleanup_attempts.simps
    by (rule logs_sequence [where Q = "cleanups n"]) (auto simp: Suc.IH logs_cleanups_ret, auto simp: cleanups_def)
qed

lemma delete_owned_bounded:
  "logs (bounded_cleanup (retries + 1)) (delete_owned ports retries policy authorization quarantined operation digest h)"
proof -
  have readonly: "logs (cleanups 0) m" if "logs (\<lambda>cs. set cs \<subseteq> {}) m" for m :: "('a, 'b) lifecycle_prog"
    using that by (rule logs_weaken) (simp add: cleanups_def)
  have delete: "logs (\<lambda>cs. \<exists>d r. cs = [CallDelete d r]) (mutate_port (CallDelete d) p)" for d and p :: "'a \<Rightarrow> _"
    by (auto simp: logs_def wp_def mutate_port_def extends_def split: prod.split sum.split)
  have rest: "logs (cleanups (retries + 1)) (sthen (action policy authorization DELETED digest (Some h)) (
      sbind (cleanup ports retries receipt) (\<lambda>residuals.
      if residuals \<noteq> [] then finish policy authorization ''partial-cleanup'' HUMAN_INTERVENTION ''registry'' residuals
      else finish policy authorization ''deleted'' DELETED ''registry'' [])))" for receipt
    unfolding sthen_def cleanup_def
    by (rule logs_sequence [OF readonly, where Q = "cleanups (retries + 1)"], rule within.logs_action,
        rule logs_sequence [OF logs_cleanup_count, where Q = "cleanups 0"], rule readonly, intro within.logs_if within.logs_finish)
      (auto simp: cleanups_def)
  have count: "length (filter is_cleanup b) \<le> retries + 1 \<and> filter is_delete b = []" if "cleanups (retries + 1) b" for b
    using that by (auto simp: cleanups_def list_all_iff filter_empty_conv is_delete_def is_cleanup_def
        intro: order_trans [OF length_filter_le] split: gateway_call.splits)
  show ?thesis unfolding delete_owned_def Let_def
    unfolding sthen_def [of "mutate_port _ _"]
  proof (rule logs_sequence [OF delete rest])
    fix a b assume a: "\<exists>d r. a = [CallDelete d r]" and "cleanups (retries + 1) b"
    from this(2) have "length (filter is_cleanup b) \<le> retries + 1" "filter is_delete b = []" using count by blast+
    with a show "bounded_cleanup (retries + 1) (a @ b)" by (auto simp: bounded_cleanup_def is_cleanup_def is_delete_def)
  qed (auto simp: bounded_cleanup_def is_cleanup_def)
qed

lemma logs_bounded_mutate: "(\<And>r. \<not> is_cleanup (call r)) \<Longrightarrow> logs (bounded_cleanup n) (mutate_port call p)"
  by (rule bounded.logs_mutate) (simp add: bounded_cleanup_def)

lemma recover_bounded:
  "logs (bounded_cleanup (retries + 1))
     (recover ports retries scope policy authorization record observation delete wait now history)"
proof (rule bounded.logs_recover)
  show "logs (bounded_cleanup (retries + 1)) (recover_zombie ports retries scope policy authorization observation delete wait now h)" for h
    unfolding recover_zombie_def Let_def
    by (intro bounded.logs_if bounded.logs_bind bounded.logs_then bounded.logs_readonly bounded.logs_ret
        delete_owned_bounded logs_bounded_mutate) (simp add: is_cleanup_def)
  show "logs (bounded_cleanup (retries + 1)) (recover_orphan ports scope policy authorization observation now)"
    unfolding recover_orphan_def
    by (intro bounded.logs_if bounded.logs_bind bounded.logs_then bounded.logs_readonly bounded.logs_option
        bounded.logs_prod logs_bounded_mutate) (simp_all add: is_cleanup_def)
  show "logs (bounded_cleanup (retries + 1)) (recover_registered ports retries scope policy authorization r o' delete wait now)" for r o'
    unfolding recover_registered_def
    by (intro bounded.logs_if bounded.logs_bind bounded.logs_then bounded.logs_readonly bounded.logs_option
        bounded.logs_prod delete_owned_bounded logs_bounded_mutate) (simp_all add: is_cleanup_def)
qed (simp add: bounded_cleanup_def is_cleanup_def)

text \<open>Which calls the recovery of one resource may make at all.\<close>

lemma recover_permitted:
  "logs (\<lambda>cs. set cs \<subseteq> {c. permitted policy record observation delete wait history c})
     (recover ports retries scope policy authorization record observation delete wait now history)"
    (is "logs (\<lambda>cs. set cs \<subseteq> ?C) _")
proof (rule within.logs_recover)
  have deletion: "logs (\<lambda>cs. set cs \<subseteq> ?C) (delete_owned ports retries policy authorization q op digest h)"
    if "delete" "record \<noteq> None \<longrightarrow> wait \<le> 0" for q op digest h
    by (rule within_weaken [OF delete_owned_calls])
      (use that in \<open>auto simp: deletes_def permitted_def split: gateway_call.splits\<close>)
  show "logs (\<lambda>cs. set cs \<subseteq> ?C) (recover_zombie ports retries scope policy authorization observation delete wait now h)"
    if "history = Some h" "record = None" for h
  proof (cases "confirmed_zombie scope policy h observation")
    case True
    then have "expirable policy (qh_resource_class h)" by (auto simp: confirmed_zombie_def expirable_def split: if_splits)
    with that True show ?thesis
      unfolding recover_zombie_def Let_def
      by (intro within.logs_if within.logs_bind within.logs_then within.logs_readonly within.logs_ret
          deletion within.logs_mutate) (simp_all add: permitted_def)
  qed (simp add: recover_zombie_def within.logs_finish)
  show "logs (\<lambda>cs. set cs \<subseteq> ?C) (recover_orphan ports scope policy authorization observation now)"
    if "record = None" "\<And>o'. observation = Some o' \<Longrightarrow> expirable policy (ob_resource_class o')"
    unfolding recover_orphan_def
    by (intro within.logs_if within.logs_bind within.logs_then within.logs_readonly within.logs_option
        within.logs_prod within.logs_mutate) (simp_all add: permitted_def that)
  show "logs (\<lambda>cs. set cs \<subseteq> ?C) (recover_registered ports retries scope policy authorization r o' delete wait now)"
    if "record = Some r" "observation = Some o'" "expirable policy (ob_resource_class o')" for r o'
    unfolding recover_registered_def
    by (intro within.logs_if within.logs_bind within.logs_then within.logs_readonly within.logs_option
        within.logs_prod deletion within.logs_mutate) (simp_all add: permitted_def that)
qed (simp add: permitted_def)

section \<open>The run\<close>

lemma wp_read:
  "p (lw_state s) = (g, r) \<Longrightarrow> wp (read_port p) Q R s =
    (case r of Inl e \<Rightarrow> R e (s\<lparr>lw_state := g\<rparr>) | Inr x \<Rightarrow> Q x (s\<lparr>lw_state := g\<rparr>))"
  by (simp add: wp_def read_port_def)

text \<open>The observations a provider can report and the histories a journal holds.\<close>

definition observable :: "'g lifecycle_ports \<Rightarrow> project_scope \<Rightarrow> database_observation set" where
  "observable ports scope = {o'. \<exists>g g' obs. lp_observe ports scope g = (g', Inr obs) \<and> o' \<in> set obs}"

definition histories_of :: "lifecycle_journal_event list \<Rightarrow> quarantine_history list" where
  "histories_of journal = List.map_filter je_history journal"

context call_language
begin

lemma logs_handle_key:
  assumes "\<And>record observation history. set_option observation \<subseteq> set observations \<Longrightarrow> set_option history \<subseteq> set histories \<Longrightarrow>
    logs P (recover ports retries scope policy authorization record observation delete wait now history)"
  shows "logs P (handle_key ports retries scope policy authorization delete wait now records observations histories key)"
proof -
  have obs: "set_option (find (\<lambda>o'. observation_key o' = key) observations) \<subseteq> set observations"
    by (auto simp: find_Some_iff)
  show ?thesis
  proof (cases "filter (\<lambda>h. history_key h = key) histories")
    case Nil
    then show ?thesis using assms [OF obs, of None] by (simp add: handle_key_def Let_def logs_finish)
  next
    case (Cons h hs)
    then have "h \<in> set (filter (\<lambda>h. history_key h = key) histories)" by (simp del: set_filter)
    then have "h \<in> set histories" by simp
    then have h: "set_option (Some h) \<subseteq> set histories" by simp
    have "logs P (case x of None \<Rightarrow> human policy authorization ''history-mismatch'' ''registry''
          | Some record' \<Rightarrow> recover ports retries scope policy authorization record'
              (find (\<lambda>o'. observation_key o' = key) observations) delete wait now (Some h))" for x
      by (cases x) (simp_all add: logs_finish assms [OF obs h])
    then show ?thesis using Cons by (cases hs) (simp_all add: handle_key_def Let_def logs_finish logs_bind logs_record_from_history)
  qed
qed

lemma run_extends:
  assumes "\<And>record observation history. set_option observation \<subseteq> observable ports scope \<Longrightarrow>
      set_option history \<subseteq> set (histories_of (lw_journal s)) \<Longrightarrow>
      logs P (recover ports retries scope policy authorization record observation delete wait now history)"
  shows "wp (run ports retries scope policy authorization delete wait now) (\<lambda>_ s'. extends P s s') (\<lambda>_ s'. extends P s s') s"
proof (cases "wait < 0")
  case True
  then show ?thesis by (simp add: run_def wp_rules extends_refl)
next
  case False
  obtain g1 r1 where list: "lp_list ports scope (lw_state s) = (g1, r1)" by fastforce
  obtain g2 r2 where obs: "lp_observe ports scope g1 = (g2, r2)" by fastforce
  have loop: "logs P (smap (handle_key ports retries scope policy authorization delete wait now records observations histories) keys)"
    if "r2 = Inr observations" "histories = List.map_filter je_history (lw_journal s)" for records observations histories keys
  proof (rule logs_smap, rule logs_handle_key, rule assms)
    from that obs have "set observations \<subseteq> observable ports scope" by (auto simp: observable_def)
    then show "set_option observation \<subseteq> observable ports scope" if "set_option observation \<subseteq> set observations" for observation
      using that by blast
    show "set_option history \<subseteq> set (histories_of (lw_journal s))" if "set_option history \<subseteq> set histories" for history
      using that \<open>histories = _\<close> by (simp add: histories_of_def)
  qed
  let ?s = "s\<lparr>lw_state := g2\<rparr>"
  have same: "extends P ?s s' \<Longrightarrow> extends P s s'" for s' by (simp add: extends_def)
  have rest: "wp (sthen (append_action policy authorization ALERTED ''run'' None res ''run'')
      (smap (handle_key ports retries scope policy authorization delete wait now records observations
         (List.map_filter je_history (lw_journal s))) keys)) (\<lambda>_ s'. extends P s s') (\<lambda>_ s'. extends P s s') ?s"
    if "r2 = Inr observations" for records observations keys res
  proof -
    have "logs P (sthen (append_action policy authorization ALERTED ''run'' None res ''run'')
      (smap (handle_key ports retries scope policy authorization delete wait now records observations
         (List.map_filter je_history (lw_journal s))) keys))"
      by (intro logs_then logs_action loop that refl)
    then show ?thesis unfolding logs_def by (blast intro: wp_mono same)
  qed
  have refl: "extends P s (s\<lparr>lw_state := g\<rparr>)" for g by (simp add: extends_def nil)
  note reads = wp_read [of "lp_list ports scope" s, OF list]
    wp_read [of "lp_observe ports scope" "s\<lparr>lw_state := g1\<rparr>", simplified, OF obs]
  show ?thesis
  proof (cases r1)
    case (Inl e)
    with False show ?thesis by (simp add: run_def wp_bind refl reads)
  next
    case (Inr records)
    with False rest show ?thesis by (cases r2) (simp_all add: run_def wp_bind wp_gets refl reads)
  qed
qed

end

lemma run_ordered:
  "wp (run ports retries scope policy authorization delete wait now)
     (\<lambda>_ s'. extends quarantined_first s s') (\<lambda>_ s'. extends quarantined_first s s') s"
  by (rule ordered.run_extends) (rule recover_ordered)

lemma run_bounded:
  "wp (run ports retries scope policy authorization delete wait now)
     (\<lambda>_ s'. extends (bounded_cleanup (retries + 1)) s s') (\<lambda>_ s'. extends (bounded_cleanup (retries + 1)) s s') s"
  by (rule bounded.run_extends) (rule recover_bounded)

text \<open>What a run may call, from what was observed and journaled.\<close>

definition run_permitted ::
    "lifecycle_policy \<Rightarrow> lifecycle_authorization \<Rightarrow> database_observation set \<Rightarrow> quarantine_history set \<Rightarrow> bool \<Rightarrow> gateway_call \<Rightarrow> bool" where
  "run_permitted policy authorization obs hist delete call \<longleftrightarrow> la_approved authorization \<and>
     (case call of
        CallQuarantine ref _ \<Rightarrow> (\<exists>o'\<in>obs. ref = ob_ref o' \<and> expirable policy (ob_resource_class o'))
          \<or> (\<exists>h\<in>hist. ref = qh_resource h \<and> expirable policy (qh_resource_class h))
      | CallDelete _ _ \<Rightarrow> delete | CallCleanup _ _ \<Rightarrow> delete | _ \<Rightarrow> True)"

definition run_calls ::
    "'g lifecycle_ports \<Rightarrow> project_scope \<Rightarrow> lifecycle_policy \<Rightarrow> lifecycle_authorization \<Rightarrow> bool
     \<Rightarrow> lifecycle_journal_event list \<Rightarrow> gateway_call set" where
  "run_calls ports scope policy authorization delete journal =
     {c. run_permitted policy authorization (observable ports scope) (set (histories_of journal)) delete c}"

lemma permitted_run_calls:
  assumes "la_approved authorization" "set_option o' \<subseteq> observable ports scope" "set_option h \<subseteq> set (histories_of journal)"
  shows "{c. permitted policy r o' delete wait h c} \<subseteq> run_calls ports scope policy authorization delete journal"
proof
  fix c assume "c \<in> {c. permitted policy r o' delete wait h c}"
  then show "c \<in> run_calls ports scope policy authorization delete journal"
    using assms by (cases c) (auto simp: permitted_def run_permitted_def run_calls_def)
qed

lemma run_within:
  "wp (run ports retries scope policy authorization delete wait now)
     (\<lambda>_ s'. extends (\<lambda>cs. set cs \<subseteq> run_calls ports scope policy authorization delete (lw_journal s)) s s')
     (\<lambda>_ s'. extends (\<lambda>cs. set cs \<subseteq> run_calls ports scope policy authorization delete (lw_journal s)) s s') s"
proof (rule within.run_extends)
  fix r :: "instance_record option" and o' h
  assume sub: "set_option o' \<subseteq> observable ports scope" "set_option h \<subseteq> set (histories_of (lw_journal s))"
  show "logs (\<lambda>cs. set cs \<subseteq> run_calls ports scope policy authorization delete (lw_journal s))
      (recover ports retries scope policy authorization r o' delete wait now h)"
  proof (cases "la_approved authorization")
    case True
    show ?thesis by (rule within_weaken [OF recover_permitted]) (rule permitted_run_calls [OF True sub])
  qed (simp add: recover_def within.logs_finish)
qed

section \<open>Properties\<close>

text \<open>C13: in every run, whatever the registry, the provider and the clock answer and also when the run
  raises, the mutating calls it adds are such that each deletion is preceded by a quarantine of the
  same run that returned the deleted reference, and there are at most \<open>max_cleanup_retries + 1\<close>
  cleanup attempts per deletion.\<close>

theorem run_quarantines_before_delete:
  "\<exists>cs. lw_calls (fst (run ports retries scope policy authorization delete wait now s)) = lw_calls s @ cs \<and>
     quarantined_first cs \<and> bounded_cleanup (retries + 1) cs"
  using run_ordered [of ports retries scope policy authorization delete wait now s]
    run_bounded [of ports retries scope policy authorization delete wait now s]
  by (auto simp: wp_def extends_def split: prod.splits sum.splits)

text \<open>C14: an unapproved run makes no mutating call. An approved run quarantines only what the provider
  reported, or the journal holds as quarantined, with a resource class other than \<open>Prod\<close> that the
  policy approves; without \<open>delete\<close> it neither deletes nor cleans up.\<close>

theorem run_touches_only_expirable:
  "\<exists>cs. lw_calls (fst (run ports retries scope policy authorization delete wait now s)) = lw_calls s @ cs \<and>
     set cs \<subseteq> {c. la_approved authorization \<and>
       (case c of
          CallQuarantine ref _ \<Rightarrow>
            ref \<in> ob_ref ` {o' \<in> observable ports scope. expirable policy (ob_resource_class o')} \<union>
                  qh_resource ` {h \<in> set (histories_of (lw_journal s)). expirable policy (qh_resource_class h)}
        | CallDelete _ _ \<Rightarrow> delete | CallCleanup _ _ \<Rightarrow> delete | _ \<Rightarrow> True)}"
    (is "\<exists>cs. _ \<and> set cs \<subseteq> ?C")
proof -
  have "c \<in> ?C" if "c \<in> run_calls ports scope policy authorization delete (lw_journal s)" for c
    using that by (cases c) (auto simp: run_calls_def run_permitted_def)
  then have "run_calls ports scope policy authorization delete (lw_journal s) \<subseteq> ?C" by blast
  moreover obtain cs where "lw_calls (fst (run ports retries scope policy authorization delete wait now s)) = lw_calls s @ cs"
      "set cs \<subseteq> run_calls ports scope policy authorization delete (lw_journal s)"
    using run_within [of ports retries scope policy authorization delete wait now s]
    by (auto simp: wp_def extends_def split: prod.splits sum.splits)
  ultimately show ?thesis by blast
qed

end
