(* ===== verification/Artifacts.thy ===== *)
theory Artifacts
  imports Registry_Types
begin

text \<open>
  The values of the data-copy pipeline: opaque identifiers and their screening
  (\<open>data_artifacts/types.py\<close>), restore sets, readiness and discard outcomes
  (\<open>data_artifacts/contracts.py\<close>), credential hand-off (\<open>credentials/\<close>), capture sources
  (\<open>data_artifacts/capture.py\<close>), anonymization policies (\<open>anonymization/policy.py\<close>) and raw-data
  grants (\<open>data_environments/types.py\<close>). A pydantic model with validators is a record and a
  constructor \<open>mk_\<dots>\<close> that checks the fields in the order the model does.
\<close>

section \<open>Opaque identifiers\<close>

definition SAFE_ARTIFACT_REF :: rx where
  "SAFE_ARTIFACT_REF = rseq [RCaret, rplus (RCls identifier_char), RDollar]"

definition host_char :: "char \<Rightarrow> bool" where
  "host_char c \<longleftrightarrow> is_lower c \<or> is_upper c \<or> is_digit c \<or> c = CHR ''-''"

text \<open>The alternatives of \<open>_HOSTNAME_TEXT\<close> between its word boundaries.\<close>

definition host_alternatives :: rx where
  "host_alternatives = ralts [
     rlit ''localhost'',
     RCat (rplus (RCat (rplus (RCls host_char)) (rlit ''.''))) (rplus (RCls host_char)),
     rseq [rplus (RCls host_char), rlit '':'', rplus (RCls is_digit)]]"

definition HOSTNAME_TEXT :: rx where
  "HOSTNAME_TEXT = rseq [RWordB, host_alternatives, RWordB]"

definition CREDENTIAL_SHAPED_TEXT :: rx where
  "CREDENTIAL_SHAPED_TEXT =
     rseq [RWordB, RAlt (rlit ''AKIA'') (rlit ''ASIA''), rpow 16 (RCls (\<lambda>c. is_upper c \<or> is_digit c)), RWordB]"

text \<open>\<open>[a-z0-9]\<close> and \<open>[_-]\<close> under \<open>re.IGNORECASE\<close>.\<close>

definition alnum_i :: "char \<Rightarrow> bool" where
  "alnum_i c \<longleftrightarrow> is_lower (lower_char c) \<or> is_digit c"

definition joiner :: "char \<Rightarrow> bool" where
  "joiner c \<longleftrightarrow> c = CHR ''_'' \<or> c = CHR ''-''"

definition SECRET_WORDS :: rx where
  "SECRET_WORDS = ralts [
     rseq [rlit_i ''api'', ropt (RCls joiner), RAlt (rlit_i ''key'') (rlit_i ''token'')],
     rlit_i ''authorization'', rlit_i ''bearer'', rlit_i ''credential'', rlit_i ''password'',
     rlit_i ''passwd'', rlit_i ''secret'', rlit_i ''token'']"

definition SECRET_OR_CONNECTION_TEXT :: rx where
  "SECRET_OR_CONNECTION_TEXT = ralts [
     rseq [RNotBehind alnum_i,
       RStar (RCat (rplus (RCls alnum_i)) (rplus (RCls joiner))),
       SECRET_WORDS,
       RStar (RCat (rplus (RCls joiner)) (rplus (RCls alnum_i))),
       RNotAhead alnum_i, RStar (RCls py_isspace), ropt (RCls (\<lambda>c. c = CHR ''='' \<or> c = CHR '':''))],
     rlit ''://'', rlit ''@'']"

datatype artifact_error =
    UnsafeOpaqueIdentifier string
  | UnsafeDetail
  | UnsupportedDigest
  | UnsafeFormatVersion
  | IncompleteRestoreSet
  | InconsistentReadiness
  | InconsistentDiscard
  | WrongCaptureKind
  | StaticValueRequired
  | StaticValueForbidden
  | DuplicateRule string string
  | SameEnvironment
  | UnredactedReason
  | NaiveExpiry
  | InconsistentOutcome
  | CredentialTargetRejected

definition opaque_ok :: "string \<Rightarrow> bool" where
  "opaque_ok value \<longleftrightarrow> value \<noteq> [] \<and> re_fullmatch SAFE_ARTIFACT_REF value
     \<and> \<not> re_search SECRET_OR_CONNECTION_TEXT value \<and> \<not> re_search HOSTNAME_TEXT value
     \<and> \<not> re_search CREDENTIAL_SHAPED_TEXT value"

definition require_safe_opaque_identifier :: "string \<Rightarrow> string \<Rightarrow> (artifact_error, string) result" where
  "require_safe_opaque_identifier value field_name =
     (if opaque_ok value then Inr value else Inl (UnsafeOpaqueIdentifier field_name))"

definition mk_ref :: "string \<Rightarrow> (artifact_error, string) result" where
  "mk_ref value = require_safe_opaque_identifier value ''data artifact reference''"

definition require_opaque_identifier :: "string \<Rightarrow> string \<Rightarrow> (artifact_error, string) result" where
  "require_opaque_identifier value field_name =
     (if list_ex py_isspace value then Inl (UnsafeOpaqueIdentifier field_name)
      else require_safe_opaque_identifier value field_name)"

definition BEARER_TOKEN_TEXT :: rx where
  "BEARER_TOKEN_TEXT = rseq [RWordB, rlit_i ''authorization'', RWordB, RStar (RCls py_isspace), ropt (rlit '':''),
     RStar (RCls py_isspace), rlit_i ''bearer'', rplus (RCls py_isspace),
     rplus (RCls (\<lambda>c. is_lower c \<or> is_upper c \<or> is_digit c \<or> c = CHR ''.'' \<or> c = CHR ''_'' \<or> c = CHR ''-''))]"

definition hex_or_colon :: "char \<Rightarrow> bool" where
  "hex_or_colon c \<longleftrightarrow> is_digit c \<or> in_range 65 70 c \<or> in_range 97 102 c \<or> c = CHR '':''"

definition DETAIL_HOST_TEXT :: rx where
  "DETAIL_HOST_TEXT = RAlt (rseq [RWordB, host_alternatives, RWordB])
     (rseq [rlit ''['', rplus (RCls hex_or_colon), rlit '']:'', rplus (RCls is_digit)])"

definition require_redacted_detail :: "string option \<Rightarrow> (artifact_error, string option) result" where
  "require_redacted_detail value =
     (case value of
        None \<Rightarrow> Inr None
      | Some v \<Rightarrow>
          if re_search SECRET_OR_CONNECTION_TEXT v \<or> re_search BEARER_TOKEN_TEXT v \<or> re_search DETAIL_HOST_TEXT v
          then Inl UnsafeDetail else Inr (Some v))"

section \<open>Restore sets\<close>

datatype component_kind = DATABASE | FILESTORE

datatype failure_code = UNAVAILABLE | INTEGRITY_FAILED | COHERENCE_FAILED | INCOMPLETE | UNSUPPORTED_FORMAT

datatype discard_code = COMPLETED | REFUSED | RESIDUAL_FAILURE

record artifact_digest =
  dg_algorithm :: string
  dg_value :: string

definition hex_char :: "char \<Rightarrow> bool" where
  "hex_char c \<longleftrightarrow> is_digit c \<or> in_range 97 102 c \<or> in_range 65 70 c"

definition digest_length :: "string \<Rightarrow> nat option" where
  "digest_length algorithm = map_of [(''sha256'', 64), (''sha512'', 128)] algorithm"

definition mk_digest :: "string \<Rightarrow> string \<Rightarrow> (artifact_error, artifact_digest) result" where
  "mk_digest algorithm value =
     (if digest_length algorithm = None \<or> \<not> re_fullmatch (rplus (RCls hex_char)) value
         \<or> Some (length value) \<noteq> digest_length algorithm
      then Inl UnsupportedDigest
      else Inr \<lparr>dg_algorithm = algorithm, dg_value = value\<rparr>)"

record restore_component =
  rc_kind :: component_kind
  rc_ref :: string
  rc_format_version :: string
  rc_digest :: artifact_digest

definition mk_component ::
    "component_kind \<Rightarrow> string \<Rightarrow> string \<Rightarrow> artifact_digest \<Rightarrow> (artifact_error, restore_component) result" where
  "mk_component kind ref format_version digest =
     rbind (require_opaque_identifier ref ''component reference'') (\<lambda>_.
     if format_version = [] \<or> re_search SECRET_OR_CONNECTION_TEXT format_version then Inl UnsafeFormatVersion
     else Inr \<lparr>rc_kind = kind, rc_ref = ref, rc_format_version = format_version, rc_digest = digest\<rparr>)"

record restore_manifest =
  rm_restore_set_id :: string
  rm_lineage_id :: string
  rm_components :: "restore_component list"

definition mk_manifest :: "string \<Rightarrow> string \<Rightarrow> restore_component list \<Rightarrow> (artifact_error, restore_manifest) result" where
  "mk_manifest restore_set_id lineage_id components =
     rbind (require_opaque_identifier restore_set_id ''restore set id'') (\<lambda>_.
     rbind (require_opaque_identifier lineage_id ''lineage id'') (\<lambda>_.
     let kinds = map rc_kind components in
     if length kinds \<noteq> 2 \<or> set kinds \<noteq> {DATABASE, FILESTORE} then Inl IncompleteRestoreSet
     else Inr \<lparr>rm_restore_set_id = restore_set_id, rm_lineage_id = lineage_id, rm_components = components\<rparr>))"

record restore_readiness =
  rd_ready :: bool
  rd_manifest :: "restore_manifest option"
  rd_failure_code :: "failure_code option"
  rd_redacted_detail :: "string option"

definition mk_readiness ::
    "bool \<Rightarrow> restore_manifest option \<Rightarrow> failure_code option \<Rightarrow> string option \<Rightarrow> (artifact_error, restore_readiness) result" where
  "mk_readiness ready manifest failure detail =
     rbind (require_redacted_detail detail) (\<lambda>_.
     if ready \<and> (manifest = None \<or> failure \<noteq> None) then Inl InconsistentReadiness
     else if \<not> ready \<and> (manifest \<noteq> None \<or> failure = None) then Inl InconsistentReadiness
     else Inr \<lparr>rd_ready = ready, rd_manifest = manifest, rd_failure_code = failure, rd_redacted_detail = detail\<rparr>)"

record discard_outcome =
  do_code :: discard_code
  do_residual_ids :: "string list"
  do_redacted_detail :: "string option"

definition mk_discard :: "discard_code \<Rightarrow> string list \<Rightarrow> string option \<Rightarrow> (artifact_error, discard_outcome) result" where
  "mk_discard code residual_ids detail =
     rbind (rmap (\<lambda>value. require_opaque_identifier value ''residual id'') residual_ids) (\<lambda>_.
     rbind (require_redacted_detail detail) (\<lambda>_.
     if code = COMPLETED \<and> residual_ids \<noteq> [] then Inl InconsistentDiscard
     else if code = RESIDUAL_FAILURE \<and> residual_ids = [] then Inl InconsistentDiscard
     else Inr \<lparr>do_code = code, do_residual_ids = residual_ids, do_redacted_detail = detail\<rparr>))"

section \<open>Credentials and capture sources\<close>

record target_context =
  tg_kind :: string
  tg_target_id :: string

record injection_descriptor =
  inj_handle :: string
  inj_target_kind :: string
  inj_store_ref :: string
  inj_redaction_label :: string

definition SOPS_REF_CAPABLE_TARGET_KINDS :: "string list" where
  "SOPS_REF_CAPABLE_TARGET_KINDS = [''database'', ''source'']"

definition sops_store_ref :: "string \<Rightarrow> string" where
  "sops_store_ref handle = ''sops://'' @ handle"

definition materialize_for_target :: "string \<Rightarrow> target_context \<Rightarrow> (artifact_error, injection_descriptor) result" where
  "materialize_for_target handle target =
     (if tg_kind target \<notin> set SOPS_REF_CAPABLE_TARGET_KINDS then Inl CredentialTargetRejected
      else Inr \<lparr>inj_handle = handle, inj_target_kind = tg_kind target, inj_store_ref = sops_store_ref handle,
                inj_redaction_label = ''SOPS credential''\<rparr>)"

record capture_source =
  csrc_credentials :: string
  csrc_target :: target_context

definition mk_capture_source :: "string \<Rightarrow> target_context \<Rightarrow> (artifact_error, capture_source) result" where
  "mk_capture_source credentials target =
     (if tg_kind target \<noteq> ''source'' then Inl WrongCaptureKind
      else Inr \<lparr>csrc_credentials = credentials, csrc_target = target\<rparr>)"

section \<open>Anonymization policies\<close>

datatype mask_strategy = REDACT | HASH | NULLIFY | STATIC_REPLACE

record anonymization_rule =
  ru_table :: string
  ru_column :: string
  ru_mask_strategy :: mask_strategy
  ru_static_value :: "string option"

definition mk_rule :: "string \<Rightarrow> string \<Rightarrow> mask_strategy \<Rightarrow> string option \<Rightarrow> (artifact_error, anonymization_rule) result" where
  "mk_rule table column strategy static_value =
     rbind (require_safe_opaque_identifier table ''anonymization selector'') (\<lambda>_.
     rbind (require_safe_opaque_identifier column ''anonymization selector'') (\<lambda>_.
     if strategy = STATIC_REPLACE \<and> (static_value = None \<or> static_value = Some []) then Inl StaticValueRequired
     else if strategy \<noteq> STATIC_REPLACE \<and> static_value \<noteq> None then Inl StaticValueForbidden
     else Inr \<lparr>ru_table = table, ru_column = column, ru_mask_strategy = strategy, ru_static_value = static_value\<rparr>))"

type_synonym anonymization_policy = "anonymization_rule list"

fun unique_selectors :: "(string \<times> string) list \<Rightarrow> anonymization_rule list \<Rightarrow> (artifact_error, unit) result" where
  "unique_selectors seen [] = Inr ()"
| "unique_selectors seen (rule # rules) =
     (if (ru_table rule, ru_column rule) \<in> set seen then Inl (DuplicateRule (ru_table rule) (ru_column rule))
      else unique_selectors ((ru_table rule, ru_column rule) # seen) rules)"

definition mk_policy :: "anonymization_rule list \<Rightarrow> (artifact_error, anonymization_policy) result" where
  "mk_policy rules = rbind (unique_selectors [] rules) (\<lambda>_. Inr rules)"

definition rule_for :: "anonymization_policy \<Rightarrow> string \<Rightarrow> string \<Rightarrow> anonymization_rule option" where
  "rule_for rules table column = find (\<lambda>rule. ru_table rule = table \<and> ru_column rule = column) rules"

section \<open>Raw-data grants and environments\<close>

record raw_data_grant =
  gr_operation_id :: string
  gr_environment_id :: string
  gr_grantor :: string
  gr_expires_at :: datetime
  gr_reason :: string
  gr_audit_reference :: string

definition mk_grant ::
    "string \<Rightarrow> string \<Rightarrow> string \<Rightarrow> datetime \<Rightarrow> string \<Rightarrow> string \<Rightarrow> (artifact_error, raw_data_grant) result" where
  "mk_grant operation environment grantor expires reason audit =
     rbind (require_safe_opaque_identifier operation ''operation_id'') (\<lambda>_.
     rbind (require_safe_opaque_identifier environment ''environment_id'') (\<lambda>_.
     rbind (require_safe_opaque_identifier grantor ''grantor'') (\<lambda>_.
     rbind (guard (dt_aware expires) NaiveExpiry) (\<lambda>_.
     rbind (guard (py_strip reason \<noteq> [] \<and> \<not> re_search SECRET_OR_CONNECTION_TEXT reason) UnredactedReason) (\<lambda>_.
     rbind (require_safe_opaque_identifier audit ''audit_reference'') (\<lambda>_.
     Inr \<lparr>gr_operation_id = operation, gr_environment_id = environment, gr_grantor = grantor,
          gr_expires_at = expires, gr_reason = reason, gr_audit_reference = audit\<rparr>))))))"

end
