(* ===== verification/Copy_Coordinator.thy ===== *)
theory Copy_Coordinator
  imports Artifacts
begin

text \<open>
  The coordinator that captures, anonymizes and delivers a restore set as one durable operation
  (\<open>data_artifacts/coordinator.py\<close>, with \<open>anonymization/apply.py\<close>). Its ports (capture, mask transform,
  manifest persistence, artifact store, database provider, audited-exception lookup and clock) are
  parameters over a state \<open>'g\<close> they change and may raise. The world of one run holds that state, the
  observable \<open>last_state\<close>, the local variables \<open>ref\<close> and \<open>checkpoints\<close>, and the calls the run has
  made with their results.
\<close>

section \<open>Ports and world\<close>

datatype copy_exn =
    CaptureIntegrityError
  | CaptureNotReadyError failure_code
  | RawDeliveryRefusedError
  | AnonymizationConsistencyError
  | CopyValidation
  | CopyAssertion
  | CopyTypeError
  | PortRaised string

datatype copy_call =
    Captured "(copy_exn, restore_manifest) result"
  | Masked restore_component "anonymization_rule list" "(copy_exn, restore_component) result"
  | Persisted string restore_manifest "(copy_exn, unit) result"
  | Discarded string "(copy_exn, discard_outcome) result"
  | Validated string "(copy_exn, restore_readiness) result"
  | Restored string "(copy_exn, database_creation) result"
  | Looked_up string "(copy_exn, redacted_evidence option) result"
  | Clock "(copy_exn, datetime) result"

record 'g copy_ports =
  cpp_capture :: "capture_source \<Rightarrow> 'g \<Rightarrow> 'g \<times> (copy_exn, restore_manifest) result"
  cpp_mask :: "restore_component \<Rightarrow> anonymization_rule list \<Rightarrow> 'g \<Rightarrow> 'g \<times> (copy_exn, restore_component) result"
  cpp_persist :: "string \<Rightarrow> restore_manifest \<Rightarrow> 'g \<Rightarrow> 'g \<times> (copy_exn, unit) result"
  cpp_discard :: "string \<Rightarrow> 'g \<Rightarrow> 'g \<times> (copy_exn, discard_outcome) result"
  cpp_validate :: "string \<Rightarrow> 'g \<Rightarrow> 'g \<times> (copy_exn, restore_readiness) result"
  cpp_restore :: "database_spec \<Rightarrow> string \<Rightarrow> string \<Rightarrow> 'g \<Rightarrow> 'g \<times> (copy_exn, database_creation) result"
  cpp_lookup :: "string \<Rightarrow> 'g \<Rightarrow> 'g \<times> (copy_exn, redacted_evidence option) result"
  cpp_now :: "'g \<Rightarrow> 'g \<times> (copy_exn, datetime) result"

record 'g copy_world =
  cw_state :: 'g
  cw_last_state :: lifecycle_state
  cw_ref :: "string option"
  cw_checkpoints :: "durable_checkpoint list"
  cw_calls :: "copy_call list"

type_synonym ('g, 'a) copy_prog = "('g copy_world, copy_exn, 'a) prog"

definition call_port ::
    "((copy_exn, 'a) result \<Rightarrow> copy_call) \<Rightarrow> ('g \<Rightarrow> 'g \<times> (copy_exn, 'a) result) \<Rightarrow> ('g, 'a) copy_prog" where
  "call_port call p = (\<lambda>s. case p (cw_state s) of (g, r) \<Rightarrow>
     (s\<lparr>cw_state := g, cw_calls := cw_calls s @ [call r]\<rparr>, r))"

text \<open>A pydantic validation or transition error raised in the coordinator.\<close>

definition validated :: "('e, 'a) result \<Rightarrow> ('g, 'a) copy_prog" where
  "validated r = lift_result (case r of Inl _ \<Rightarrow> Inl CopyValidation | Inr x \<Rightarrow> Inr x)"

section \<open>Helpers\<close>

definition database_digest :: "restore_manifest \<Rightarrow> artifact_digest option" where
  "database_digest manifest = map_option rc_digest (find (\<lambda>c. rc_kind c = DATABASE) (rm_components manifest))"

definition is_matching_audited_grant :: "redacted_evidence option \<Rightarrow> string \<Rightarrow> bool" where
  "is_matching_audited_grant grant lineage_id =
     (case grant of None \<Rightarrow> False
      | Some e \<Rightarrow> re_event e = ''anonymization_exception'' \<and> lineage_id \<in> set (re_references e))"

definition append_checkpoint :: "operation_revision \<Rightarrow> string \<Rightarrow> redacted_evidence \<Rightarrow> ('g, unit) copy_prog" where
  "append_checkpoint revision phase ev =
     sbind (validated (save_checkpoint revision phase ev)) (\<lambda>c.
     modify (\<lambda>s. s\<lparr>cw_checkpoints := cw_checkpoints s @ [c]\<rparr>))"

definition record_checkpoint :: "operation_revision \<Rightarrow> string \<Rightarrow> string \<Rightarrow> string list \<Rightarrow> ('g, unit) copy_prog" where
  "record_checkpoint revision phase summary refs =
     sbind (validated (mk_evidence phase summary refs)) (\<lambda>ev. append_checkpoint revision phase ev)"

definition set_last_state :: "lifecycle_state \<Rightarrow> ('g, unit) copy_prog" where
  "set_last_state st = modify (\<lambda>s. s\<lparr>cw_last_state := st\<rparr>)"

text \<open>\<open>apply_anonymization\<close>.\<close>

definition apply_anonymization ::
    "'g copy_ports \<Rightarrow> restore_manifest \<Rightarrow> anonymization_policy \<Rightarrow> ('g, restore_manifest \<times> redacted_evidence) copy_prog" where
  "apply_anonymization ports manifest policy =
     sbind (smap (\<lambda>c. if rc_kind c = DATABASE then call_port (Masked c policy) (cpp_mask ports c policy) else ret c)
              (rm_components manifest)) (\<lambda>components.
     sbind (validated (mk_manifest (rm_restore_set_id manifest) (rm_lineage_id manifest) components)) (\<lambda>anonymized.
     sbind (validated (mk_evidence ''anonymization_applied'' ''anonymization policy applied before delivery''
              [rm_lineage_id manifest])) (\<lambda>ev.
     ret (anonymized, ev))))"

definition record_anonymization_exception ::
    "restore_manifest \<Rightarrow> string \<Rightarrow> (durable_error, restore_manifest \<times> redacted_evidence) result" where
  "record_anonymization_exception manifest reason =
     rbind (mk_evidence ''anonymization_exception'' reason [rm_lineage_id manifest]) (\<lambda>ev. Inr (manifest, ev))"

section \<open>The stages of a run\<close>

text \<open>The gate for raw delivery.\<close>

definition dt_le :: "datetime \<Rightarrow> datetime \<Rightarrow> (copy_exn, bool) result" where
  "dt_le a b = (if dt_aware a = dt_aware b then Inr (dt_micros a \<le> dt_micros b) else Inl CopyTypeError)"

definition raw_gate ::
    "'g copy_ports \<Rightarrow> durable_identity \<Rightarrow> raw_data_grant option \<Rightarrow> string option \<Rightarrow> string \<Rightarrow> ('g, redacted_evidence) copy_prog" where
  "raw_gate ports operation raw_grant environment lineage =
     sthen (case raw_grant of
              None \<Rightarrow> raise_exn RawDeliveryRefusedError
            | Some g \<Rightarrow>
                if gr_operation_id g \<noteq> operation_id operation \<or> Some (gr_environment_id g) \<noteq> environment
                then raise_exn RawDeliveryRefusedError
                else sbind (call_port Clock (cpp_now ports)) (\<lambda>now.
                     sbind (lift_result (dt_le (gr_expires_at g) now)) (\<lambda>expired.
                     if expired then raise_exn RawDeliveryRefusedError else ret ()))) (
     sbind (case raw_grant of
              Some g \<Rightarrow> sbind (validated (mk_evidence ''anonymization_exception'' ''approved raw-data exception''
                               [lineage, gr_audit_reference g])) (\<lambda>ev. ret (Some ev))
            | None \<Rightarrow> call_port (Looked_up lineage) (cpp_lookup ports lineage)) (\<lambda>grant.
     if \<not> is_matching_audited_grant grant lineage then raise_exn RawDeliveryRefusedError
     else case grant of Some ev \<Rightarrow> ret ev | None \<Rightarrow> raise_exn CopyAssertion))"

text \<open>Reaping the pre-mask blob through a shadow reference, in the \<open>finally\<close> block.\<close>

definition reap_shadow :: "'g copy_ports \<Rightarrow> operation_revision \<Rightarrow> string \<Rightarrow> string \<Rightarrow> ('g, unit) copy_prog" where
  "reap_shadow ports revision shadow lineage =
     sbind (try_catch
       (sbind (call_port (Discarded shadow) (cpp_discard ports shadow)) (\<lambda>out. ret (do_code out = RESIDUAL_FAILURE)))
       (\<lambda>_. ret True)) (\<lambda>residual.
     do_when residual (record_checkpoint revision ''raw_reap_residual''
       ''raw pre-mask blob reap left a residual failure'' [lineage]))"

definition anonymize_stage ::
    "'g copy_ports \<Rightarrow> operation_revision \<Rightarrow> anonymization_policy \<Rightarrow> string \<Rightarrow> restore_manifest
     \<Rightarrow> ('g, restore_manifest \<times> redacted_evidence) copy_prog" where
  "anonymize_stage ports revision policy ref captured =
     sbind (apply_anonymization ports captured policy) (\<lambda>(masked, ev).
     sthen
      (if database_digest masked \<noteq> database_digest captured
       then
        sbind (validated (mk_ref (rm_restore_set_id captured @ ''-preanonymize-raw''))) (\<lambda>shadow.
        sthen (call_port (Persisted shadow captured) (cpp_persist ports shadow captured))
         (finally_do (call_port (Persisted ref masked) (cpp_persist ports ref masked))
            (reap_shadow ports revision shadow (rm_lineage_id captured))))
       else call_port (Persisted ref masked) (cpp_persist ports ref masked))
      (ret (masked, ev)))"

text \<open>Readiness and the consistency of what the store serves with what was masked.\<close>

definition verify_stage :: "'g copy_ports \<Rightarrow> string \<Rightarrow> restore_manifest option \<Rightarrow> ('g, unit) copy_prog" where
  "verify_stage ports ref masked =
     sbind (call_port (Validated ref) (cpp_validate ports ref)) (\<lambda>readiness.
     if \<not> rd_ready readiness then
       (case rd_failure_code readiness of
          Some INTEGRITY_FAILED \<Rightarrow> raise_exn CaptureIntegrityError
        | None \<Rightarrow> raise_exn CopyAssertion
        | Some code \<Rightarrow> raise_exn (CaptureNotReadyError code))
     else case masked of
       None \<Rightarrow> ret ()
     | Some m \<Rightarrow>
         let served = Option.bind (rd_manifest readiness) database_digest; masked_digest = database_digest m in
         if served = None \<or> masked_digest = None \<or> served \<noteq> masked_digest
         then raise_exn AnonymizationConsistencyError else ret ())"

record copy_result =
  crs_creation :: database_creation
  crs_checkpoints :: "durable_checkpoint list"
  crs_state :: lifecycle_state

definition collect_staged :: "'g copy_ports \<Rightarrow> operation_revision \<Rightarrow> string \<Rightarrow> string \<Rightarrow> ('g, unit) copy_prog" where
  "collect_staged ports revision ref lineage =
     sbind (try_catch
       (sbind (call_port (Discarded ref) (cpp_discard ports ref)) (\<lambda>out. ret (do_code out = RESIDUAL_FAILURE)))
       (\<lambda>_. ret True)) (\<lambda>residual.
     do_when residual (record_checkpoint revision ''discard_on_success_residual''
       ''discard-on-success left a residual failure'' [lineage]))"

definition deliver_stage ::
    "'g copy_ports \<Rightarrow> operation_revision \<Rightarrow> database_spec \<Rightarrow> string \<Rightarrow> bool \<Rightarrow> string \<Rightarrow> string \<Rightarrow> ('g, copy_result) copy_prog" where
  "deliver_stage ports revision spec credentials retain_staged ref lineage =
     sbind (call_port (Restored ref) (cpp_restore ports spec ref credentials)) (\<lambda>creation.
     sbind (gets cw_checkpoints) (\<lambda>checkpoints.
     sbind (validated (build_terminal_commit revision SUCCEEDED [cp_evidence (last checkpoints)] [])) (\<lambda>commit.
     sthen (set_last_state (tc_outcome commit)) (
     sthen (do_when (\<not> retain_staged) (collect_staged ports revision ref lineage)) (
     sbind (gets cw_checkpoints) (\<lambda>checkpoints.
     ret \<lparr>crs_creation = creation, crs_checkpoints = checkpoints, crs_state = tc_outcome commit\<rparr>))))))"

record copy_request =
  cq_source :: capture_source
  cq_spec :: database_spec
  cq_policy :: anonymization_policy
  cq_credentials :: string
  cq_operation :: durable_identity
  cq_request_raw_delivery :: bool
  cq_retain_staged :: bool
  cq_raw_grant :: "raw_data_grant option"
  cq_raw_grant_environment_id :: "string option"

text \<open>From the anonymization or the raw gate to the delivery.\<close>

definition copy_rest ::
    "'g copy_ports \<Rightarrow> operation_revision \<Rightarrow> copy_request \<Rightarrow> string \<Rightarrow> restore_manifest \<Rightarrow> ('g, copy_result) copy_prog" where
  "copy_rest ports revision q ref captured =
     sbind (if cq_request_raw_delivery q
            then sbind (raw_gate ports (cq_operation q) (cq_raw_grant q) (cq_raw_grant_environment_id q) (rm_lineage_id captured))
                   (\<lambda>ev. ret (None, ev))
            else sbind (anonymize_stage ports revision (cq_policy q) ref captured) (\<lambda>(masked, ev). ret (Some masked, ev)))
       (\<lambda>(masked, ev).
     sthen (append_checkpoint revision ''anonymized'' ev) (
     sthen (verify_stage ports ref masked) (
     sthen (record_checkpoint revision ''integrity_verified'' ''digest re-verified before delivery'' [rm_lineage_id captured])
       (deliver_stage ports revision (cq_spec q) (cq_credentials q) (cq_retain_staged q) ref (rm_lineage_id captured)))))"

text \<open>The \<open>try\<close> block of \<open>run\<close>.\<close>

definition copy_body :: "'g copy_ports \<Rightarrow> operation_revision \<Rightarrow> copy_request \<Rightarrow> ('g, copy_result) copy_prog" where
  "copy_body ports revision q =
     sbind (call_port Captured (cpp_capture ports (cq_source q))) (\<lambda>captured.
     sbind (validated (mk_ref (rm_restore_set_id captured))) (\<lambda>ref.
     sthen (modify (\<lambda>s. s\<lparr>cw_ref := Some ref\<rparr>)) (
     sthen (record_checkpoint revision ''captured'' ''capture completed'' [rm_lineage_id captured])
       (copy_rest ports revision q ref captured))))"

definition compensate :: "'g copy_ports \<Rightarrow> durable_identity \<Rightarrow> operation_revision \<Rightarrow> string option \<Rightarrow> ('g, unit) copy_prog" where
  "compensate ports operation revision ref =
     sbind (validated (mk_evidence ''capture_copy_failed''
       ''capture-anonymize-deliver operation failed before completion'' [])) (\<lambda>ev.
     sbind (validated (build_terminal_commit revision FAILED [ev] [])) (\<lambda>commit.
     sbind (validated (advance_lifecycle (tc_outcome commit) (revision + 1) CLEANUP_REQUIRED)) (\<lambda>(state, _).
     sthen (set_last_state state) (
     case ref of
       None \<Rightarrow> ret ()
     | Some r \<Rightarrow>
         try_catch
           (sbind (validated (mk_scope (operation_id operation) [r])) (\<lambda>scope.
            sbind (validated (ensure_compensation_target scope r)) (\<lambda>owned.
            sbind (validated (mk_ref owned)) (\<lambda>owned_ref.
            sbind (call_port (Discarded owned_ref) (cpp_discard ports owned_ref)) (\<lambda>_. ret ())))))
           (\<lambda>_. ret ())))))"

text \<open>\<open>run\<close>; the first step resets the run's local variables.\<close>

definition copy_run :: "'g copy_ports \<Rightarrow> copy_request \<Rightarrow> ('g, copy_result) copy_prog" where
  "copy_run ports q =
     sthen (modify (\<lambda>s. s\<lparr>cw_ref := None, cw_checkpoints := [], cw_calls := []\<rparr>)) (
     sbind (validated (advance_lifecycle ACCEPTED 0 IN_PROGRESS)) (\<lambda>(state, revision).
     sthen (set_last_state state)
       (try_catch (copy_body ports revision q)
         (\<lambda>e. sbind (gets cw_ref) (\<lambda>ref. sthen (compensate ports (cq_operation q) revision ref) (raise_exn e))))))"

end
