(* ===== verification/Copy_Safety.thy ===== *)
theory Copy_Safety
  imports Copy_Coordinator
begin

text \<open>
  What the copy coordinator may do, whatever its ports answer, from specifications of its stages by
  the calls they emit.
\<close>

section \<open>Calls other than the delivery\<close>

definition is_delivery :: "copy_call \<Rightarrow> bool" where
  "is_delivery c = (case c of Restored _ _ \<Rightarrow> True | _ \<Rightarrow> False)"

definition quiet :: "copy_call list \<Rightarrow> bool" where
  "quiet cs \<longleftrightarrow> list_all (\<lambda>c. \<not> is_delivery c) cs"

lemma quiet_simps [simp]: "quiet []" "quiet (c # cs) \<longleftrightarrow> \<not> is_delivery c \<and> quiet cs"
  "quiet (xs @ ys) \<longleftrightarrow> quiet xs \<and> quiet ys"
  by (simp_all add: quiet_def)

lemma is_delivery_simps [simp]: "\<not> is_delivery (Captured a)" "\<not> is_delivery (Masked b c d)" "\<not> is_delivery (Persisted e f g)"
  "\<not> is_delivery (Discarded h i)" "\<not> is_delivery (Validated j k)" "\<not> is_delivery (Looked_up l m)" "\<not> is_delivery (Clock n)"
  "is_delivery (Restored q r)"
  by (simp_all add: is_delivery_def)

text \<open>No delivery succeeded.\<close>

definition undelivered :: "copy_call list \<Rightarrow> bool" where
  "undelivered cs \<longleftrightarrow> list_all (\<lambda>c. case c of Restored _ (Inr _) \<Rightarrow> False | _ \<Rightarrow> True) cs"

lemma undelivered_simps [simp]: "undelivered (xs @ ys) \<longleftrightarrow> undelivered xs \<and> undelivered ys" "undelivered [Restored ref (Inl e)]"
  "undelivered (Captured a # xs) \<longleftrightarrow> undelivered xs" "undelivered (Validated b c # xs) \<longleftrightarrow> undelivered xs" "undelivered []"
  by (simp_all add: undelivered_def)

lemma quiet_undelivered [simp]: "quiet cs \<Longrightarrow> undelivered cs"
  by (induction cs) (auto simp: quiet_def undelivered_def is_delivery_def split: copy_call.splits)

text \<open>A program that never delivers.\<close>

abbreviation harmless :: "('g, 'a) copy_prog \<Rightarrow> bool" where
  "harmless \<equiv> emits cw_calls (\<lambda>_. quiet) quiet"

lemma emits_call: "(\<And>x. P x [call (Inr x)]) \<Longrightarrow> (\<And>e. E [call (Inl e)]) \<Longrightarrow> emits cw_calls P E (call_port call p)"
  by (auto simp: emits_def wp_def call_port_def added_def split: prod.split sum.split)

lemma emits_validated: "(\<And>x. r = Inr x \<Longrightarrow> P x []) \<Longrightarrow> E [] \<Longrightarrow> emits cw_calls P E (validated r)"
  unfolding validated_def by (rule emits_lift) (auto split: sum.splits)

interpretation silent: call_monoid quiet
  by unfold_locales simp_all

lemmas harmless_bind = silent.bind
lemmas harmless_then = silent.sequel
lemmas harmless_try = silent.handler
lemmas harmless_finally = silent.finaliser
lemmas harmless_when = silent.optional

lemma harmless_call: "(\<And>r. \<not> is_delivery (call r)) \<Longrightarrow> harmless (call_port call p)"
  by (rule emits_call) auto

lemma harmless_validated: "harmless (validated v)"
  by (rule emits_validated) simp_all

lemmas harmless_basic = silent.basic harmless_validated
lemmas harmless_modify = silent.modify

lemma harmless_checkpoint: "harmless (append_checkpoint revision phase ev)" "harmless (record_checkpoint revision phase summary refs)"
  unfolding record_checkpoint_def append_checkpoint_def by (intro harmless_bind harmless_basic harmless_modify; simp)+

lemma harmless_discard: "harmless (sbind (try_catch
       (sbind (call_port (Discarded ref) p) (\<lambda>out. ret (h out))) (\<lambda>_. ret True)) (\<lambda>residual.
     do_when residual (record_checkpoint revision phase summary refs)))"
  by (intro harmless_bind harmless_try harmless_when harmless_checkpoint harmless_basic harmless_call) simp

lemma harmless_reap: "harmless (reap_shadow ports revision shadow lineage)" "harmless (collect_staged ports revision ref lineage)"
  unfolding reap_shadow_def collect_staged_def by (rule harmless_discard)+

lemma harmless_compensate: "harmless (compensate ports operation revision ref)"
proof -
  have "harmless (case ref of None \<Rightarrow> ret () | Some r \<Rightarrow> try_catch
           (sbind (validated (mk_scope (operation_id operation) [r])) (\<lambda>scope.
            sbind (validated (ensure_compensation_target scope r)) (\<lambda>owned.
            sbind (validated (mk_ref owned)) (\<lambda>owned_ref.
            sbind (call_port (Discarded owned_ref) (cpp_discard ports owned_ref)) (\<lambda>_. ret ())))))
           (\<lambda>_. ret ()))"
    by (cases ref) (auto intro!: harmless_try harmless_bind harmless_basic harmless_call)
  moreover have "harmless (set_last_state st)" for st unfolding set_last_state_def by (rule harmless_modify) simp
  ultimately show ?thesis
    unfolding compensate_def by (auto intro!: harmless_bind harmless_then harmless_basic split: prod.split)
qed
section \<open>What each stage emits\<close>

text \<open>Every component of the masked manifest comes from the mask transform or is the captured one.\<close>

definition masked_as :: "anonymization_policy \<Rightarrow> restore_component \<Rightarrow> restore_component \<Rightarrow> copy_call set \<Rightarrow> bool" where
  "masked_as policy c c' A \<longleftrightarrow> (if rc_kind c = DATABASE then Masked c policy (Inr c') \<in> A else c' = c)"

definition masked_in :: "anonymization_policy \<Rightarrow> restore_manifest \<Rightarrow> copy_call list \<Rightarrow> bool" where
  "masked_in policy m cs \<longleftrightarrow> (\<forall>d. database_digest m = Some d \<longrightarrow>
     (\<exists>c c'. Masked c policy (Inr c') \<in> set cs \<and> rc_digest c' = d))"

lemma masked_in_append: "masked_in policy m cs \<Longrightarrow> masked_in policy m (cs @ ds)"
  unfolding masked_in_def by (metis Un_iff set_append)

lemma masked_in_components:
  assumes "list_all2 (\<lambda>c c'. masked_as policy c c' (set cs)) comps (rm_components m)"
  shows "masked_in policy m cs"
  unfolding masked_in_def
proof (intro allI impI)
  fix d assume "database_digest m = Some d"
  then obtain c' where c': "c' \<in> set (rm_components m)" "rc_kind c' = DATABASE" "rc_digest c' = d"
    unfolding database_digest_def map_option_eq_Some find_Some_iff by (metis nth_mem)
  with assms obtain c where "masked_as policy c c' (set cs)" by (metis list_all2_iff in_set_zip in_set_conv_nth list_all2_nthD2)
  with c' show "\<exists>c c'. Masked c policy (Inr c') \<in> set cs \<and> rc_digest c' = d"
    by (auto simp: masked_as_def split: if_splits)
qed

lemma apply_anonymization_emits:
  "emits cw_calls (\<lambda>(m, ev) cs. quiet cs \<and> masked_in policy m cs) quiet (apply_anonymization ports captured policy)"
proof -
  let ?f = "\<lambda>c. if rc_kind c = DATABASE then call_port (Masked c policy) (cpp_mask ports c policy) else ret c"
  have "emits cw_calls (\<lambda>ys cs. quiet cs \<and> list_all2 (\<lambda>x y. masked_as policy x y (set cs)) (rm_components captured) ys) quiet
      (smap ?f (rm_components captured))"
    by (rule emits_smap) (auto simp: masked_as_def intro!: emits_call emits_ret split: if_splits)
  moreover have "emits cw_calls (\<lambda>(m, ev) cs. cs = [] \<and> rm_components m = comps) quiet
     (sbind (validated (mk_manifest i l comps)) (\<lambda>anonymized. sbind (validated v) (\<lambda>ev. ret (anonymized, ev))))" for i l comps and v :: "(durable_error, redacted_evidence) result"
  proof (rule emits_bind [where P = "\<lambda>m cs. cs = [] \<and> rm_components m = comps" and E = quiet and E' = "\<lambda>_. quiet"
        and P' = "\<lambda>m (m', ev) cs. cs = [] \<and> m' = m"])
    show "emits cw_calls (\<lambda>m cs. cs = [] \<and> rm_components m = comps) quiet (validated (mk_manifest i l comps))"
      by (rule emits_validated) (auto simp: mk_manifest_def result_iff Let_def split: if_splits)
    show "emits cw_calls (\<lambda>(m', ev) cs. cs = [] \<and> m' = m) quiet (sbind (validated v) (\<lambda>ev. ret (m, ev)))" for m
      by (rule emits_bind [where P = "\<lambda>_ cs. cs = []" and E = quiet and E' = "\<lambda>_. quiet" and P' = "\<lambda>_ (m', ev) cs. cs = [] \<and> m' = m"])
        (auto intro: emits_validated emits_ret)
  qed auto
  ultimately show ?thesis unfolding apply_anonymization_def
    by (rule emits_bind) (auto intro: masked_in_components)
qed

lemma harmless_persist:
  "harmless (if b then
        sbind (validated v) (\<lambda>shadow.
        sthen (call_port (Persisted shadow captured) (cpp_persist ports shadow captured))
         (finally_do (call_port (Persisted ref masked) (cpp_persist ports ref masked))
            (reap_shadow ports revision shadow lineage)))
       else call_port (Persisted ref masked) (cpp_persist ports ref masked))"
  by (intro emits_if harmless_bind harmless_basic harmless_then harmless_finally harmless_reap harmless_call) simp_all

lemma anonymize_stage_emits:
  "emits cw_calls (\<lambda>(m, ev) cs. quiet cs \<and> masked_in policy m cs) quiet (anonymize_stage ports revision policy ref captured)"
  unfolding anonymize_stage_def
proof (rule emits_bind [OF apply_anonymization_emits, where P' = "\<lambda>x (m, e) cs. quiet cs \<and> m = fst x" and E' = "\<lambda>_. quiet"])
  fix x :: "restore_manifest \<times> redacted_evidence"
  show "emits cw_calls (\<lambda>(m, e) cs. quiet cs \<and> m = fst x) quiet
      (case x of (masked, ev) \<Rightarrow> sthen
        (if database_digest masked \<noteq> database_digest captured
         then sbind (validated (mk_ref (rm_restore_set_id captured @ ''-preanonymize-raw''))) (\<lambda>shadow.
          sthen (call_port (Persisted shadow captured) (cpp_persist ports shadow captured))
           (finally_do (call_port (Persisted ref masked) (cpp_persist ports ref masked))
              (reap_shadow ports revision shadow (rm_lineage_id captured))))
         else call_port (Persisted ref masked) (cpp_persist ports ref masked))
        (ret (masked, ev)))"
    unfolding case_prod_unfold
    by (rule emits_then [OF harmless_persist, where P' = "\<lambda>(m, e) cs. cs = [] \<and> m = fst x" and E' = quiet])
      (auto intro: emits_ret)
qed (auto intro: masked_in_append)

text \<open>A raw delivery has an unexpired grant for this operation and environment.\<close>

definition granted :: "durable_identity \<Rightarrow> raw_data_grant option \<Rightarrow> string option \<Rightarrow> copy_call list \<Rightarrow> bool" where
  "granted operation raw_grant environment cs \<longleftrightarrow> (\<exists>g now. raw_grant = Some g \<and> gr_operation_id g = operation_id operation \<and>
     environment = Some (gr_environment_id g) \<and> Clock (Inr now) \<in> set cs \<and> dt_micros now < dt_micros (gr_expires_at g))"

lemma raw_gate_emits:
  "emits cw_calls (\<lambda>_ cs. quiet cs \<and> granted operation raw_grant environment cs) quiet
     (raw_gate ports operation raw_grant environment lineage)"
proof (cases raw_grant)
  case (Some g)
  have check: "emits cw_calls (\<lambda>_ cs. quiet cs \<and> granted operation raw_grant environment cs) quiet
    (if gr_operation_id g \<noteq> operation_id operation \<or> Some (gr_environment_id g) \<noteq> environment
     then raise_exn RawDeliveryRefusedError
     else sbind (call_port Clock (cpp_now ports)) (\<lambda>now.
          sbind (lift_result (dt_le (gr_expires_at g) now)) (\<lambda>expired.
          if expired then raise_exn RawDeliveryRefusedError else ret ())))"
  proof (rule emits_if)
    assume same: "\<not> (gr_operation_id g \<noteq> operation_id operation \<or> Some (gr_environment_id g) \<noteq> environment)"
    have "emits cw_calls (\<lambda>_ cs. cs = [] \<and> dt_micros now < dt_micros (gr_expires_at g)) quiet
        (sbind (lift_result (dt_le (gr_expires_at g) now)) (\<lambda>expired. if expired then raise_exn RawDeliveryRefusedError else ret ()))" for now
      by (rule emits_bind [where P = "\<lambda>expired cs. cs = [] \<and> (\<not> expired \<longrightarrow> dt_micros now < dt_micros (gr_expires_at g))" and E = quiet
            and P' = "\<lambda>expired _ cs. cs = [] \<and> \<not> expired" and E' = "\<lambda>_. quiet"])
        (auto intro!: emits_lift emits_if emits_raise emits_ret simp: dt_le_def split: if_splits)
    then show "emits cw_calls (\<lambda>_ cs. quiet cs \<and> granted operation raw_grant environment cs) quiet
       (sbind (call_port Clock (cpp_now ports)) (\<lambda>now.
          sbind (lift_result (dt_le (gr_expires_at g) now)) (\<lambda>expired.
          if expired then raise_exn RawDeliveryRefusedError else ret ())))"
      by (intro emits_bind [where P = "\<lambda>now cs. cs = [Clock (Inr now)]" and E = quiet and E' = "\<lambda>_. quiet"
            and P' = "\<lambda>now _ cs. cs = [] \<and> dt_micros now < dt_micros (gr_expires_at g)"])
        (use same in \<open>auto intro: emits_call simp: granted_def Some\<close>)
  qed (rule emits_raise, simp)
  have rest: "harmless (sbind (sbind (validated v) (\<lambda>ev. ret (Some ev))) (\<lambda>grant.
     if \<not> is_matching_audited_grant grant lineage then raise_exn RawDeliveryRefusedError
     else case grant of Some ev \<Rightarrow> ret ev | None \<Rightarrow> raise_exn CopyAssertion))" for v :: "(durable_error, redacted_evidence) result"
    by (intro harmless_bind harmless_basic emits_if emits_option)
  show ?thesis unfolding raw_gate_def Some option.case
    by (rule emits_then [OF check [unfolded Some] rest]) (auto simp: granted_def)
qed (simp add: raw_gate_def emits_def wp_rules added_same)

text \<open>What the store serves before a delivery.\<close>

definition served :: "restore_readiness \<Rightarrow> restore_manifest option \<Rightarrow> bool" where
  "served rd masked \<longleftrightarrow> rd_ready rd \<and> (\<forall>m. masked = Some m \<longrightarrow>
     (\<exists>d sm. database_digest m = Some d \<and> rd_manifest rd = Some sm \<and> database_digest sm = Some d))"

lemma verify_stage_emits:
  "emits cw_calls (\<lambda>_ cs. \<exists>rd. cs = [Validated ref (Inr rd)] \<and> served rd masked) quiet (verify_stage ports ref masked)"
  unfolding verify_stage_def
proof (rule emits_bind [where P = "\<lambda>rd cs. cs = [Validated ref (Inr rd)]" and E = quiet and P' = "\<lambda>rd _ cs. cs = [] \<and> served rd masked"
      and E' = "\<lambda>_. quiet"])
  fix rd
  show "emits cw_calls (\<lambda>_ cs. cs = [] \<and> served rd masked) quiet
     (if \<not> rd_ready rd then
       (case rd_failure_code rd of
          Some INTEGRITY_FAILED \<Rightarrow> raise_exn CaptureIntegrityError
        | None \<Rightarrow> raise_exn CopyAssertion
        | Some code \<Rightarrow> raise_exn (CaptureNotReadyError code))
     else case masked of
       None \<Rightarrow> ret ()
     | Some m \<Rightarrow>
         let served = Option.bind (rd_manifest rd) database_digest; masked_digest = database_digest m in
         if served = None \<or> masked_digest = None \<or> served \<noteq> masked_digest
         then raise_exn AnonymizationConsistencyError else ret ())"
    unfolding Let_def
    by (intro emits_if emits_option emits_raise emits_ret)
      (auto simp: served_def bind_eq_Some_conv intro: emits_raise split: option.splits failure_code.splits)
qed (auto intro: emits_call)

definition starts_delivery :: "string \<Rightarrow> copy_call list \<Rightarrow> bool" where
  "starts_delivery ref cs \<longleftrightarrow> (\<exists>r ys. cs = Restored ref r # ys \<and> quiet ys)"

lemma starts_delivery_append: "starts_delivery ref xs \<Longrightarrow> quiet ys \<Longrightarrow> starts_delivery ref (xs @ ys)"
  by (auto simp: starts_delivery_def)

text \<open>Once the provider has restored, nothing in the stage can raise.\<close>

lemma plain_messages:
  "plain_text ''discard_on_success_residual''" "plain_text ''discard-on-success left a residual failure''"
  "plain_text ''capture_copy_failed''" "plain_text ''capture-anonymize-deliver operation failed before completion''"
  by code_simp+

lemma record_checkpoint_total:
  assumes "plain_text phase" "plain_text summary" "list_all is_safe_identifier refs"
  shows "wp (record_checkpoint revision phase summary refs) Q R s =
    Q () (s\<lparr>cw_checkpoints := cw_checkpoints s @ [\<lparr>cp_revision = revision, cp_phase = phase,
      cp_evidence = \<lparr>re_event = phase, re_summary = summary, re_references = refs\<rparr>\<rparr>]\<rparr>)"
  using assms(1) mk_evidence_plain [OF assms]
  by (simp add: record_checkpoint_def append_checkpoint_def validated_def save_checkpoint_def wp_rules plain_text_def)

lemma collect_staged_total:
  assumes "is_safe_identifier lineage"
  shows "emits cw_calls (\<lambda>_. quiet) (\<lambda>_. False) (collect_staged ports revision ref lineage)"
  unfolding collect_staged_def
proof (rule emits_bind [where P = "\<lambda>_. quiet" and E = "\<lambda>_. False" and P' = "\<lambda>_ _. quiet" and E' = "\<lambda>_ _. False"])
  show "emits cw_calls (\<lambda>_. quiet) (\<lambda>_. False)
     (try_catch (sbind (call_port (Discarded ref) (cpp_discard ports ref)) (\<lambda>out. ret (do_code out = RESIDUAL_FAILURE))) (\<lambda>_. ret True))"
    by (rule emits_try [where P = "\<lambda>_. quiet" and E = quiet and P' = "\<lambda>_. quiet" and E' = "\<lambda>_. False"])
      (auto intro!: harmless_bind harmless_call harmless_basic emits_ret)
  show "emits cw_calls (\<lambda>_. quiet) (\<lambda>_. False) (do_when residual (record_checkpoint revision ''discard_on_success_residual''
       ''discard-on-success left a residual failure'' [lineage]))" for residual
    by (rule emits_when) (simp_all add: emits_def record_checkpoint_total [OF plain_messages(1,2)] assms added_same)
qed auto

lemma terminal_success:
  "validated (build_terminal_commit revision SUCCEEDED [ev] []) =
    ret \<lparr>tc_expected_revision = revision, tc_outcome = SUCCEEDED, tc_evidence = [ev], tc_residual_cleanup = []\<rparr>"
  by (simp add: validated_def lift_result_def ret_def build_terminal_commit_def TERMINAL_OUTCOMES_def)

lemma deliver_stage_emits:
  "emits cw_calls (\<lambda>_. starts_delivery ref) (\<lambda>cs. starts_delivery ref cs \<and> (is_safe_identifier lineage \<longrightarrow> undelivered cs))
     (deliver_stage ports revision spec credentials retain ref lineage)"
proof -
  have gc: "emits cw_calls (\<lambda>_. quiet) (\<lambda>cs. quiet cs \<and> \<not> is_safe_identifier lineage) (do_when (\<not> retain) (collect_staged ports revision ref lineage))"
    by (rule emits_when, cases "is_safe_identifier lineage")
      (auto intro: emits_weaken [OF collect_staged_total] emits_weaken [OF harmless_reap(2)])
  have fin: "emits cw_calls (\<lambda>_ cs. cs = []) (\<lambda>_. False) (sbind (gets cw_checkpoints) (\<lambda>checkpoints.
      ret \<lparr>crs_creation = creation, crs_checkpoints = checkpoints, crs_state = st\<rparr>))" for creation st
    by (simp add: emits_def wp_rules added_same)
  have gc': "emits cw_calls (\<lambda>_. quiet) (\<lambda>cs. quiet cs \<and> \<not> is_safe_identifier lineage)
     (sthen (do_when (\<not> retain) (collect_staged ports revision ref lineage)) (
      sbind (gets cw_checkpoints) (\<lambda>checkpoints.
      ret \<lparr>crs_creation = creation, crs_checkpoints = checkpoints, crs_state = st\<rparr>)))" for creation st
    by (rule emits_then [OF gc fin]) auto
  have set: "emits cw_calls (\<lambda>_ cs. cs = []) (\<lambda>_. False) (set_last_state st)" for st
    by (simp add: set_last_state_def emits_modify)
  have rest: "emits cw_calls (\<lambda>_. quiet) (\<lambda>cs. quiet cs \<and> \<not> is_safe_identifier lineage) (sbind (gets cw_checkpoints) (\<lambda>checkpoints.
     sbind (validated (build_terminal_commit revision SUCCEEDED [cp_evidence (last checkpoints)] [])) (\<lambda>commit.
     sthen (set_last_state (tc_outcome commit)) (
     sthen (do_when (\<not> retain) (collect_staged ports revision ref lineage)) (
     sbind (gets cw_checkpoints) (\<lambda>checkpoints.
     ret \<lparr>crs_creation = creation, crs_checkpoints = checkpoints, crs_state = tc_outcome commit\<rparr>))))))" for creation
    unfolding terminal_success
    by (rule emits_bind [where P = "\<lambda>_ cs. cs = []" and E = "\<lambda>_. False"], rule emits_gets, simp,
        rule emits_bind [where P = "\<lambda>_ cs. cs = []" and E = "\<lambda>_. False"], rule emits_ret, simp,
        rule emits_then [OF set gc']) auto
  show ?thesis unfolding deliver_stage_def
    by (rule emits_bind [where P = "\<lambda>_. starts_delivery ref" and E = "\<lambda>cs. \<exists>e. cs = [Restored ref (Inl e)]", OF _ rest])
      (auto intro: emits_call starts_delivery_append simp: starts_delivery_def)
qed

definition verified_delivery :: "string \<Rightarrow> restore_manifest option \<Rightarrow> copy_call list \<Rightarrow> bool" where
  "verified_delivery ref masked cs \<longleftrightarrow>
     (\<exists>rd r ys. cs = Validated ref (Inr rd) # Restored ref r # ys \<and> quiet ys \<and> served rd masked)"

lemma verified_deliveryI: "served rd masked \<Longrightarrow> starts_delivery ref cs \<Longrightarrow> verified_delivery ref masked (Validated ref (Inr rd) # cs)"
  by (auto simp: verified_delivery_def starts_delivery_def)

lemma append_checkpoint_emits: "emits cw_calls (\<lambda>_ cs. cs = []) (\<lambda>cs. cs = []) (append_checkpoint revision phase ev)"
  unfolding append_checkpoint_def
  by (rule emits_bind [where P = "\<lambda>_ cs. cs = []" and E = "\<lambda>cs. cs = []" and P' = "\<lambda>_ _ cs. cs = []" and E' = "\<lambda>_ cs. cs = []"])
    (auto intro: emits_validated emits_modify)

lemma record_checkpoint_emits:
  "emits cw_calls (\<lambda>_ cs. cs = [] \<and> list_all is_safe_identifier refs) (\<lambda>cs. cs = []) (record_checkpoint revision phase summary refs)"
  unfolding record_checkpoint_def
  by (rule emits_bind [where P = "\<lambda>_ cs. cs = [] \<and> list_all is_safe_identifier refs" and E = "\<lambda>cs. cs = []", OF _ append_checkpoint_emits])
    (auto intro!: emits_validated simp: mk_evidence_def validate_safe_references_def result_iff split: if_splits)

text \<open>A run that raises has delivered nothing, provided the lineage passed the screening of evidence.\<close>

definition failed :: "string \<Rightarrow> (copy_call list \<Rightarrow> bool) \<Rightarrow> copy_call list \<Rightarrow> bool" where
  "failed lineage P cs \<longleftrightarrow> (quiet cs \<or> P cs) \<and> (is_safe_identifier lineage \<longrightarrow> undelivered cs)"

lemma quiet_failed: "quiet cs \<Longrightarrow> failed lineage P cs"
  by (simp add: failed_def)

lemma delivery_tail_emits:
  "emits cw_calls (\<lambda>_. verified_delivery ref masked) (failed lineage (verified_delivery ref masked))
     (sthen (append_checkpoint revision phase ev) (
      sthen (verify_stage ports ref masked) (
      sthen (record_checkpoint revision phase' summary refs)
        (deliver_stage ports revision spec credentials retain ref lineage))))"
proof -
  have "emits cw_calls (\<lambda>_. starts_delivery ref) (failed lineage (starts_delivery ref))
      (sthen (record_checkpoint revision phase' summary refs) (deliver_stage ports revision spec credentials retain ref lineage))"
    by (rule emits_then [OF record_checkpoint_emits deliver_stage_emits]) (auto simp: failed_def)
  with verify_stage_emits have "emits cw_calls (\<lambda>_. verified_delivery ref masked) (failed lineage (verified_delivery ref masked))
      (sthen (verify_stage ports ref masked) (sthen (record_checkpoint revision phase' summary refs)
        (deliver_stage ports revision spec credentials retain ref lineage)))"
    by (rule emits_then) (auto intro: verified_deliveryI simp: failed_def)
  with append_checkpoint_emits show ?thesis by (rule emits_then) (auto intro: quiet_failed)
qed

section \<open>The run\<close>

text \<open>What precedes a delivery: the masked digest is the one the store serves, or a raw delivery is
  granted.\<close>

definition gate :: "copy_request \<Rightarrow> copy_call list \<Rightarrow> restore_readiness \<Rightarrow> bool" where
  "gate q mid rd \<longleftrightarrow> rd_ready rd \<and>
     (if cq_request_raw_delivery q then granted (cq_operation q) (cq_raw_grant q) (cq_raw_grant_environment_id q) mid
      else \<exists>c c' sm. Masked c (cq_policy q) (Inr c') \<in> set mid \<and> rd_manifest rd = Some sm \<and> database_digest sm = Some (rc_digest c'))"

definition delivered :: "copy_request \<Rightarrow> copy_call list \<Rightarrow> bool" where
  "delivered q cs \<longleftrightarrow> (\<exists>m mid rd r ys.
     cs = Captured (Inr m) # mid @ Validated (rm_restore_set_id m) (Inr rd) # Restored (rm_restore_set_id m) r # ys \<and>
     quiet mid \<and> quiet ys \<and> gate q mid rd)"

definition gated_mask :: "copy_request \<Rightarrow> restore_manifest option \<Rightarrow> copy_call list \<Rightarrow> bool" where
  "gated_mask q masked cs \<longleftrightarrow> quiet cs \<and>
     (if cq_request_raw_delivery q then granted (cq_operation q) (cq_raw_grant q) (cq_raw_grant_environment_id q) cs
      else \<exists>m. masked = Some m \<and> masked_in (cq_policy q) m cs)"

lemma gate_served: "gated_mask q masked mid \<Longrightarrow> served rd masked \<Longrightarrow> gate q mid rd"
  by (auto simp: gated_mask_def served_def gate_def masked_in_def split: if_splits) blast

lemma mask_stage_emits:
  "emits cw_calls (\<lambda>(masked, ev). gated_mask q masked) quiet
     (if cq_request_raw_delivery q
      then sbind (raw_gate ports (cq_operation q) (cq_raw_grant q) (cq_raw_grant_environment_id q) lineage) (\<lambda>ev. ret (None, ev))
      else sbind (anonymize_stage ports revision (cq_policy q) ref captured) (\<lambda>(masked, ev). ret (Some masked, ev)))"
proof (rule emits_if)
  assume "cq_request_raw_delivery q"
  then show "emits cw_calls (\<lambda>(masked, ev). gated_mask q masked) quiet
      (sbind (raw_gate ports (cq_operation q) (cq_raw_grant q) (cq_raw_grant_environment_id q) lineage) (\<lambda>ev. ret (None, ev)))"
    by (intro emits_bind [OF raw_gate_emits, where P' = "\<lambda>_ _ cs. cs = []" and E' = "\<lambda>_. quiet"])
      (auto intro: emits_ret simp: gated_mask_def)
next
  assume "\<not> cq_request_raw_delivery q"
  then show "emits cw_calls (\<lambda>(masked, ev). gated_mask q masked) quiet
      (sbind (anonymize_stage ports revision (cq_policy q) ref captured) (\<lambda>(masked, ev). ret (Some masked, ev)))"
    by (intro emits_bind [OF anonymize_stage_emits, where P' = "\<lambda>x y cs. cs = [] \<and> fst y = Some (fst x)" and E' = "\<lambda>_. quiet"])
      (auto intro: emits_ret simp: gated_mask_def)
qed

definition gated_delivery :: "copy_request \<Rightarrow> string \<Rightarrow> copy_call list \<Rightarrow> bool" where
  "gated_delivery q ref cs \<longleftrightarrow>
     (\<exists>mid rd r ys. cs = mid @ Validated ref (Inr rd) # Restored ref r # ys \<and> quiet mid \<and> quiet ys \<and> gate q mid rd)"

lemma gated_deliveryI: "gated_mask q masked xs \<Longrightarrow> verified_delivery ref masked ys \<Longrightarrow> gated_delivery q ref (xs @ ys)"
proof -
  assume mask: "gated_mask q masked xs" and "verified_delivery ref masked ys"
  then obtain rd r zs where ys: "ys = Validated ref (Inr rd) # Restored ref r # zs" "quiet zs" "served rd masked"
    by (auto simp: verified_delivery_def)
  moreover have "gate q xs rd" by (rule gate_served [OF mask ys(3)])
  moreover have "quiet xs" using mask by (simp add: gated_mask_def)
  ultimately show ?thesis unfolding gated_delivery_def by blast
qed

lemma copy_rest_emits:
  "emits cw_calls (\<lambda>_. gated_delivery q ref) (failed (rm_lineage_id captured) (gated_delivery q ref)) (copy_rest ports revision q ref captured)"
  unfolding copy_rest_def
proof (rule emits_bind [OF mask_stage_emits])
  show "emits cw_calls (\<lambda>_. verified_delivery ref (fst x)) (failed (rm_lineage_id captured) (verified_delivery ref (fst x)))
      (case x of (masked, ev) \<Rightarrow>
     sthen (append_checkpoint revision ''anonymized'' ev) (
     sthen (verify_stage ports ref masked) (
     sthen (record_checkpoint revision ''integrity_verified'' ''digest re-verified before delivery'' [rm_lineage_id captured])
       (deliver_stage ports revision (cq_spec q) (cq_credentials q) (cq_retain_staged q) ref (rm_lineage_id captured)))))"
    for x :: "restore_manifest option \<times> redacted_evidence"
    unfolding case_prod_unfold by (rule delivery_tail_emits)
next
  fix x xs ys assume "(case x of (masked, ev) \<Rightarrow> gated_mask q masked) xs"
  then have gm: "gated_mask q (fst x) xs" by (simp add: case_prod_unfold)
  then have quiet: "quiet xs" by (simp add: gated_mask_def)
  show "gated_delivery q ref (xs @ ys)" if "verified_delivery ref (fst x) ys" by (rule gated_deliveryI [OF gm that])
  show "failed (rm_lineage_id captured) (gated_delivery q ref) (xs @ ys)" if "failed (rm_lineage_id captured) (verified_delivery ref (fst x)) ys"
    using that quiet gated_deliveryI [OF gm] by (auto simp: failed_def)
qed (rule quiet_failed)

lemma copy_body_emits:
  "emits cw_calls (\<lambda>_. delivered q) (\<lambda>cs. (quiet cs \<or> delivered q cs) \<and> undelivered cs) (copy_body ports revision q)"
proof -
  have rest: "emits cw_calls (\<lambda>_. gated_delivery q ref) (\<lambda>cs. (quiet cs \<or> gated_delivery q ref cs) \<and> undelivered cs)
    (sthen (modify (\<lambda>s. s\<lparr>cw_ref := Some ref\<rparr>)) (
     sthen (record_checkpoint revision ''captured'' ''capture completed'' [rm_lineage_id captured])
       (copy_rest ports revision q ref captured)))" for ref captured
  proof (rule emits_then [where P = "\<lambda>_ cs. cs = []" and E = "\<lambda>_. False"])
    show "emits cw_calls (\<lambda>_. gated_delivery q ref) (\<lambda>cs. (quiet cs \<or> gated_delivery q ref cs) \<and> undelivered cs)
      (sthen (record_checkpoint revision ''captured'' ''capture completed'' [rm_lineage_id captured])
         (copy_rest ports revision q ref captured))"
      by (rule emits_then [OF record_checkpoint_emits copy_rest_emits]) (auto simp: failed_def)
  qed (auto intro: emits_modify)
  have "emits cw_calls (\<lambda>_. gated_delivery q (rm_restore_set_id captured))
      (\<lambda>cs. (quiet cs \<or> gated_delivery q (rm_restore_set_id captured) cs) \<and> undelivered cs)
     (sbind (validated (mk_ref (rm_restore_set_id captured))) (\<lambda>ref.
      sthen (modify (\<lambda>s. s\<lparr>cw_ref := Some ref\<rparr>)) (
      sthen (record_checkpoint revision ''captured'' ''capture completed'' [rm_lineage_id captured])
        (copy_rest ports revision q ref captured))))" for captured
    by (rule emits_bind [where P = "\<lambda>ref cs. cs = [] \<and> ref = rm_restore_set_id captured" and E = "\<lambda>cs. cs = []", OF _ rest])
      (auto intro!: emits_validated simp: mk_ref_def require_safe_opaque_identifier_def split: if_splits)
  then show ?thesis unfolding copy_body_def
    by (intro emits_bind [where P = "\<lambda>m cs. cs = [Captured (Inr m)]" and E = quiet
          and P' = "\<lambda>m _. gated_delivery q (rm_restore_set_id m)"
          and E' = "\<lambda>m cs. (quiet cs \<or> gated_delivery q (rm_restore_set_id m) cs) \<and> undelivered cs"])
      (auto intro: emits_call simp: delivered_def gated_delivery_def)
qed

text \<open>Compensation always reaches \<open>CLEANUP_REQUIRED\<close>, never raises, and asks once for the discard of the staged capture,
  exactly when its reference passes the screening of compensation targets.\<close>

definition compensated :: "string option \<Rightarrow> copy_call list \<Rightarrow> bool" where
  "compensated ref cs \<longleftrightarrow> quiet cs \<and> (case ref of None \<Rightarrow> cs = []
     | Some r \<Rightarrow> if is_safe_identifier r \<and> opaque_ok r then \<exists>out. cs = [Discarded r out] else cs = [])"

lemma compensate_total:
  "wp (compensate ports operation revision ref)
     (\<lambda>_ s'. cw_last_state s' = CLEANUP_REQUIRED \<and> cw_ref s' = cw_ref s \<and> added cw_calls (compensated ref) s s') (\<lambda>_ _. False) s"
proof -
  have ev: "validated (mk_evidence ''capture_copy_failed'' ''capture-anonymize-deliver operation failed before completion'' []) =
      ret \<lparr>re_event = ''capture_copy_failed'', re_summary = ''capture-anonymize-deliver operation failed before completion'', re_references = []\<rparr>"
    by (simp only: mk_evidence_plain [OF plain_messages(3,4)] list.pred_inject validated_def sum.case lift_result_def ret_def)
  have commit: "validated (build_terminal_commit revision FAILED [e] []) =
      ret \<lparr>tc_expected_revision = revision, tc_outcome = FAILED, tc_evidence = [e], tc_residual_cleanup = []\<rparr>" for e
    by (simp add: validated_def lift_result_def ret_def build_terminal_commit_def TERMINAL_OUTCOMES_def)
  have advance: "validated (advance_lifecycle FAILED n CLEANUP_REQUIRED) = ret (CLEANUP_REQUIRED, Suc n)" for n
    by (simp add: validated_def lift_result_def ret_def advance_lifecycle_def lifecycle_sets next_revision_def)
  show ?thesis
  proof (cases ref)
    case None
    then show ?thesis
      by (simp add: compensate_def ev commit advance wp_rules set_last_state_def added_same compensated_def)
  next
    case (Some r)
    obtain g out where g: "cpp_discard ports r (cw_state s) = (g, out)" by fastforce
    have discard: "wp (call_port (Discarded r) (cpp_discard ports r)) Q R (s\<lparr>cw_last_state := CLEANUP_REQUIRED\<rparr>) =
        (let s' = s\<lparr>cw_last_state := CLEANUP_REQUIRED, cw_state := g, cw_calls := cw_calls s @ [Discarded r out]\<rparr>
         in case out of Inl e \<Rightarrow> R e s' | Inr x \<Rightarrow> Q x s')" for Q R
      by (simp add: wp_def call_port_def g Let_def)
    let ?attempt = "sbind (validated (mk_scope (operation_id operation) [r])) (\<lambda>scope.
            sbind (validated (ensure_compensation_target scope r)) (\<lambda>owned.
            sbind (validated (mk_ref owned)) (\<lambda>owned_ref.
            sbind (call_port (Discarded owned_ref) (cpp_discard ports owned_ref)) (\<lambda>_. ret ()))))"
    have "wp (try_catch ?attempt (\<lambda>_. ret ()))
        (\<lambda>_ s'. cw_last_state s' = CLEANUP_REQUIRED \<and> cw_ref s' = cw_ref s \<and> added cw_calls (compensated (Some r)) s s') (\<lambda>_ _. False)
        (s\<lparr>cw_last_state := CLEANUP_REQUIRED\<rparr>)"
      by (simp add: wp_rules validated_def mk_scope_def validate_owned_resource_ids_def ensure_compensation_target_def owns_def mk_ref_def
          require_safe_opaque_identifier_def discard Let_def added_same added_def compensated_def split: sum.split)
    then show ?thesis
      by (simp add: compensate_def ev commit advance wp_bind wp_then wp_ret wp_modify set_last_state_def Some)
  qed
qed

text \<open>The run itself.\<close>

lemma keeps_call: "(\<And>s g c. proj (s\<lparr>cw_state := g, cw_calls := c\<rparr>) = proj s) \<Longrightarrow> keeps proj (call_port call p)"
  by (auto simp: emits_def wp_def call_port_def added_def split: prod.split sum.split)

lemma keeps_validated: "keeps proj (validated r)"
  unfolding validated_def by (rule keep.lift)

lemma keeps_prod: "(\<And>a b. keeps proj (f a b)) \<Longrightarrow> keeps proj (case x of (a, b) \<Rightarrow> f a b)"
  by (cases x) simp

lemmas keeps_rules = keep.rules keep.loop keeps_call keeps_validated keeps_prod keep.modify

lemma keeps_checkpoint:
  assumes "\<And>s c. proj (s\<lparr>cw_checkpoints := c\<rparr>) = proj s"
  shows "keeps proj (append_checkpoint revision phase ev)" "keeps proj (record_checkpoint revision phase summary refs)"
  unfolding record_checkpoint_def append_checkpoint_def by (intro keeps_rules, simp add: assms)+

lemma keeps_ref_stages:
  "keeps cw_ref (raw_gate ports operation raw_grant environment lineage)"
  "keeps cw_ref (anonymize_stage ports revision policy ref captured)"
  "keeps cw_ref (verify_stage ports ref masked)"
  "keeps cw_ref (deliver_stage ports revision spec credentials retain ref lineage)"
proof -
  show "keeps cw_ref (raw_gate ports operation raw_grant environment lineage)"
    unfolding raw_gate_def by (intro keeps_rules) simp_all
  show "keeps cw_ref (anonymize_stage ports revision policy ref captured)"
    unfolding anonymize_stage_def apply_anonymization_def reap_shadow_def by (intro keeps_rules keeps_checkpoint) simp_all
  show "keeps cw_ref (verify_stage ports ref masked)"
    unfolding verify_stage_def Let_def
    by (intro keeps_rules) (auto intro: keep.raise split: option.split failure_code.split)
  show "keeps cw_ref (deliver_stage ports revision spec credentials retain ref lineage)"
    unfolding deliver_stage_def collect_staged_def set_last_state_def by (intro keeps_rules keeps_checkpoint) simp_all
qed

lemma keeps_ref_rest: "keeps cw_ref (copy_rest ports revision q ref captured)"
  unfolding copy_rest_def by (intro keeps_rules keeps_ref_stages keeps_checkpoint) simp_all

text \<open>The reference the coordinator holds, if any, passed the screening of opaque identifiers.\<close>

lemma copy_body_ref:
  assumes "cw_ref s = None"
  shows "wp (copy_body ports revision q) (\<lambda>_ s'. pred_option opaque_ok (cw_ref s')) (\<lambda>_ s'. pred_option opaque_ok (cw_ref s')) s"
proof -
  have rest: "wp (sthen (record_checkpoint revision phase summary refs) (copy_rest ports revision q ref captured))
      (\<lambda>_ s'. pred_option opaque_ok (cw_ref s')) (\<lambda>_ s'. pred_option opaque_ok (cw_ref s')) s"
    if "cw_ref s = Some ref" "opaque_ok ref" for ref captured phase summary refs s
  proof -
    have "keeps cw_ref (sthen (record_checkpoint revision phase summary refs) (copy_rest ports revision q ref captured))"
      by (intro keep.sequel keeps_checkpoint keeps_ref_rest) simp
    from keeps_wp [OF this, of s] that show ?thesis by (elim wp_mono) simp_all
  qed
  have "wp (sbind (validated (mk_ref v)) (\<lambda>ref.
     sthen (modify (\<lambda>s. s\<lparr>cw_ref := Some ref\<rparr>)) (
     sthen (record_checkpoint revision phase summary refs) (copy_rest ports revision q ref captured))))
      (\<lambda>_ s'. pred_option opaque_ok (cw_ref s')) (\<lambda>_ s'. pred_option opaque_ok (cw_ref s')) s"
    if "cw_ref s = None" for v captured phase summary refs s
    unfolding wp_bind wp_then [where m = "modify _"] wp_modify validated_def wp_lift
    using that by (simp add: mk_ref_def require_safe_opaque_identifier_def rest)
  moreover have "keeps cw_ref (call_port Captured (cpp_capture ports (cq_source q)))" by (rule keeps_call) simp
  then have "wp (call_port Captured (cpp_capture ports (cq_source q))) (\<lambda>_ s'. cw_ref s' = None) (\<lambda>_ s'. cw_ref s' = None) s"
    using keeps_wp assms by metis
  ultimately show ?thesis
    unfolding copy_body_def wp_bind [where m = "call_port _ _"] by (elim wp_mono) simp_all
qed

lemma copy_run_eq:
  "copy_run ports q s = try_catch (copy_body ports 1 q)
     (\<lambda>e. sbind (gets cw_ref) (\<lambda>ref. sthen (compensate ports (cq_operation q) 1 ref) (raise_exn e)))
     (s\<lparr>cw_ref := None, cw_checkpoints := [], cw_calls := [], cw_last_state := IN_PROGRESS\<rparr>)"
  by (simp add: copy_run_def sthen_def sbind_def modify_def validated_def lift_result_def set_last_state_def
      advance_lifecycle_def lifecycle_sets next_revision_def)

lemma deliver_stage_state:
  "ensures (\<lambda>r s'. crs_state r = SUCCEEDED \<and> cw_last_state s' = SUCCEEDED) (deliver_stage ports revision spec credentials retain ref lineage)"
proof -
  have gc: "keeps cw_last_state (do_when b (collect_staged ports revision ref lineage))" for b
    unfolding collect_staged_def by (intro keeps_rules keeps_checkpoint) simp_all
  have "wp (sthen (set_last_state SUCCEEDED) (sthen (do_when (\<not> retain) (collect_staged ports revision ref lineage))
      (sbind (gets cw_checkpoints) (\<lambda>checkpoints.
        ret \<lparr>crs_creation = creation, crs_checkpoints = checkpoints, crs_state = SUCCEEDED\<rparr>))))
      (\<lambda>r s'. crs_state r = SUCCEEDED \<and> cw_last_state s' = SUCCEEDED) (\<lambda>_ _. True) s" for creation s
    unfolding wp_then set_last_state_def wp_modify
    by (rule wp_mono [OF keeps_wp [OF gc]]) (simp_all add: wp_rules)
  then show ?thesis unfolding deliver_stage_def
    by (rule_tac ensures_bind, rule_tac ensures_bind) (simp add: ensures_def terminal_success wp_bind wp_ret)
qed

lemma copy_body_state:
  "ensures (\<lambda>r s'. crs_state r = SUCCEEDED \<and> cw_last_state s' = SUCCEEDED) (copy_body ports revision q)"
proof -
  have "ensures (\<lambda>r s'. crs_state r = SUCCEEDED \<and> cw_last_state s' = SUCCEEDED)
      (case x of (masked, ev) \<Rightarrow> sthen (append_checkpoint revision ''anonymized'' ev) (
       sthen (verify_stage ports ref masked) (
       sthen (record_checkpoint revision ''integrity_verified'' ''digest re-verified before delivery'' refs)
         (deliver_stage ports revision spec credentials retain ref lineage))))"
    for x :: "restore_manifest option \<times> redacted_evidence" and ref refs spec credentials retain lineage
    unfolding case_prod_unfold by (intro ensures_then deliver_stage_state)
  then show ?thesis unfolding copy_body_def copy_rest_def by (intro ensures_bind ensures_then)
qed

definition run_start :: "'g copy_world \<Rightarrow> 'g copy_world" where
  "run_start s = s\<lparr>cw_ref := None, cw_checkpoints := [], cw_calls := [], cw_last_state := IN_PROGRESS\<rparr>"

definition failed_run :: "copy_request \<Rightarrow> 'g copy_world \<Rightarrow> bool" where
  "failed_run q s' \<longleftrightarrow> cw_last_state s' = CLEANUP_REQUIRED \<and> pred_option opaque_ok (cw_ref s') \<and>
     (\<exists>xs ys. cw_calls s' = xs @ ys \<and> (quiet xs \<or> delivered q xs) \<and> undelivered xs \<and> compensated (cw_ref s') ys)"

lemma copy_run_wp:
  "wp (copy_run ports q) (\<lambda>r s'. delivered q (cw_calls s') \<and> crs_state r = SUCCEEDED \<and> cw_last_state s' = SUCCEEDED)
     (\<lambda>_ s'. failed_run q s') s"
proof -
  let ?s = "run_start s"
  have "wp (copy_body ports 1 q) (\<lambda>_. added cw_calls (delivered q) ?s) (\<lambda>_. added cw_calls (\<lambda>cs. (quiet cs \<or> delivered q cs) \<and> undelivered cs) ?s) ?s"
    using emitsD [OF copy_body_emits] by simp
  moreover have "wp (copy_body ports 1 q) (\<lambda>_ s'. pred_option opaque_ok (cw_ref s')) (\<lambda>_ s'. pred_option opaque_ok (cw_ref s')) ?s"
    by (rule copy_body_ref) (simp add: run_start_def)
  moreover have "wp (copy_body ports 1 q) (\<lambda>r s'. crs_state r = SUCCEEDED \<and> cw_last_state s' = SUCCEEDED) (\<lambda>_ _. True) ?s"
    using copy_body_state unfolding ensures_def by blast
  ultimately have body: "wp (copy_body ports 1 q)
      (\<lambda>r s'. added cw_calls (delivered q) ?s s' \<and> pred_option opaque_ok (cw_ref s') \<and> crs_state r = SUCCEEDED \<and> cw_last_state s' = SUCCEEDED)
      (\<lambda>_ s'. added cw_calls (\<lambda>cs. (quiet cs \<or> delivered q cs) \<and> undelivered cs) ?s s' \<and> pred_option opaque_ok (cw_ref s') \<and> True) ?s"
    unfolding wp_conj by blast
  have handler: "wp (sbind (gets cw_ref) (\<lambda>ref. sthen (compensate ports (cq_operation q) 1 ref) (raise_exn e))) Q (\<lambda>_. failed_run q) s1"
    if s1: "added cw_calls (\<lambda>cs. (quiet cs \<or> delivered q cs) \<and> undelivered cs) ?s s1 \<and> pred_option opaque_ok (cw_ref s1) \<and> True" for e s1 Q
    unfolding wp_bind wp_gets wp_then
    by (rule wp_mono [OF compensate_total])
      (use s1 in \<open>auto simp: wp_raise failed_run_def added_def run_start_def\<close>)
  have "wp (try_catch (copy_body ports 1 q)
     (\<lambda>e. sbind (gets cw_ref) (\<lambda>ref. sthen (compensate ports (cq_operation q) 1 ref) (raise_exn e))))
     (\<lambda>r s'. delivered q (cw_calls s') \<and> crs_state r = SUCCEEDED \<and> cw_last_state s' = SUCCEEDED) (\<lambda>_ s'. failed_run q s') ?s"
    unfolding wp_try by (rule wp_mono [OF body]) (simp add: added_def run_start_def, rule handler)
  then show ?thesis unfolding wp_def copy_run_eq run_start_def .
qed

lemma delivered_append: "delivered q xs \<Longrightarrow> quiet ys \<Longrightarrow> delivered q (xs @ ys)"
  unfolding delivered_def by fastforce

section \<open>Properties\<close>

text \<open>C19: whatever the ports answer, a run either never reaches the database provider, or its calls are:
  the capture, some calls that do not deliver, a validation of the captured reference, one delivery of
  that same reference, and calls that do not deliver. The validation answered that the restore set is
  ready; without a raw request the database digest it serves is one the mask transform returned for
  the requested policy, and with one there is a grant for this operation and environment that had not
  expired when it was checked.\<close>

theorem copy_delivers_only_gated:
  "quiet (cw_calls (fst (copy_run ports q s))) \<or> delivered q (cw_calls (fst (copy_run ports q s)))"
proof -
  have "wp (copy_run ports q) (\<lambda>_ s'. quiet (cw_calls s') \<or> delivered q (cw_calls s'))
      (\<lambda>_ s'. quiet (cw_calls s') \<or> delivered q (cw_calls s')) s"
    using copy_run_wp by (rule wp_mono) (auto simp: failed_run_def compensated_def intro: delivered_append)
  then show ?thesis by (auto simp: wp_def split: prod.splits sum.splits)
qed

text \<open>C20: a run that returns reports \<open>SUCCEEDED\<close> and has it as its last state. A run that raises ends in
  \<open>CLEANUP_REQUIRED\<close>, no delivery of it succeeded, and the exception is the one the body raised. If it had staged a reference
  that passes the screening of compensation targets, the discard of that reference was asked for as the last call, whatever
  the store answered; for any other reference the compensation makes no call.\<close>

theorem copy_reports_truthfully:
  "case copy_run ports q s of
     (s', Inr r) \<Rightarrow> crs_state r = SUCCEEDED \<and> cw_last_state s' = SUCCEEDED \<and> delivered q (cw_calls s')
   | (s', Inl e) \<Rightarrow> failed_run q s' \<and> undelivered (cw_calls s') \<and> snd (copy_body ports 1 q (run_start s)) = Inl e"
proof -
  obtain s' r where run: "copy_run ports q s = (s', r)" by fastforce
  show ?thesis
  proof (cases r)
    case (Inr x)
    with wp_result [OF copy_run_wp, of ports q s s' x] run show ?thesis by simp
  next
    case (Inl e)
    with run have fr: "failed_run q s'" using wp_raised [OF copy_run_wp, of ports q s s' e] by simp
    have "snd (copy_body ports 1 q (run_start s)) = Inl e"
    proof (cases "copy_body ports 1 q (run_start s)")
      case (Pair s1 r1)
      show ?thesis
      proof (cases r1)
        case (Inl e1)
        have w: "wp (sthen (compensate ports (cq_operation q) 1 (cw_ref s1)) (raise_exn e1 :: ('a, copy_result) copy_prog)) (\<lambda>_ _. False) (\<lambda>e' _. e' = e1) s1"
          unfolding wp_then wp_raise by (rule wp_mono [OF compensate_total]) simp_all
        have "sthen (compensate ports (cq_operation q) 1 (cw_ref s1)) (raise_exn e1 :: ('a, copy_result) copy_prog) s1 = (s', Inl e)"
          using Pair Inl run \<open>r = Inl e\<close>
          by (simp add: copy_run_eq run_start_def [symmetric] try_catch_def sbind_def gets_def)
        from wp_raised [OF w this] Pair Inl show ?thesis by simp
      qed (use Pair run \<open>r = Inl e\<close> in \<open>simp add: copy_run_eq run_start_def [symmetric] try_catch_def\<close>)
    qed
    with fr run Inl show ?thesis by (auto simp: failed_run_def compensated_def)
  qed
qed

text \<open>The audited-exception lookup the coordinator is constructed with never influences a run: raw
  delivery is decided by the grant passed to the run alone.\<close>

theorem audited_lookup_is_unused:
  "copy_run (ports\<lparr>cpp_lookup := lookup\<rparr>) q s = copy_run ports q s"
proof -
  have gate: "raw_gate (ports\<lparr>cpp_lookup := lookup\<rparr>) operation raw_grant environment lineage =
      raw_gate ports operation raw_grant environment lineage" for operation raw_grant environment lineage
    by (cases raw_grant) (simp_all add: raw_gate_def sthen_def sbind_def raise_exn_def)
  have sel: "cpp_mask (ports\<lparr>cpp_lookup := lookup\<rparr>) = cpp_mask ports" "cpp_persist (ports\<lparr>cpp_lookup := lookup\<rparr>) = cpp_persist ports"
    "cpp_discard (ports\<lparr>cpp_lookup := lookup\<rparr>) = cpp_discard ports" "cpp_validate (ports\<lparr>cpp_lookup := lookup\<rparr>) = cpp_validate ports"
    "cpp_restore (ports\<lparr>cpp_lookup := lookup\<rparr>) = cpp_restore ports" "cpp_capture (ports\<lparr>cpp_lookup := lookup\<rparr>) = cpp_capture ports"
    by simp_all
  show ?thesis
    unfolding copy_run_def copy_body_def copy_rest_def gate anonymize_stage_def apply_anonymization_def reap_shadow_def
      verify_stage_def deliver_stage_def collect_staged_def compensate_def sel ..
qed

end
