(* ===== verification/Data_Environments.thy ===== *)
theory Data_Environments
  imports Copy_Safety
begin

text \<open>
  Data environments (\<open>data_environments/types.py\<close>, \<open>data_environments/service.py\<close>): the service that
  checks a request against the control plane, takes a recovery point of an existing target, runs the
  copy coordinator, and on failure restores the recovery point. The registries, the grant authority,
  the recovery-point provider, the policy resolver, the verifier and the clock are parameters; the
  coordinator is \<open>copy_run\<close>.
\<close>

section \<open>Values\<close>

datatype environment_lifecycle = ACTIVE | INACTIVE

datatype outcome_code = OUTCOME_SUCCEEDED | OUTCOME_REFUSED | OUTCOME_FAILED

datatype environment_failure =
    AUTHORITY_UNAVAILABLE | INVALID_DEFINITION | RAW_GRANT_REQUIRED | RECOVERY_POINT_UNAVAILABLE
  | RECOVERY_RESTORE_FAILED | RECOVERY_VERIFICATION_FAILED | MUTATION_FAILED | OPERATION_VERIFICATION_FAILED

record environment_relationship =
  rel_source :: string
  rel_target :: string

definition mk_relationship :: "string \<Rightarrow> string \<Rightarrow> (artifact_error, environment_relationship) result" where
  "mk_relationship source target =
     rbind (require_safe_opaque_identifier source ''source_environment_id'') (\<lambda>_.
     rbind (require_safe_opaque_identifier target ''target_environment_id'') (\<lambda>_.
     if source = target then Inl SameEnvironment else Inr \<lparr>rel_source = source, rel_target = target\<rparr>))"

record environment_definition =
  ed_environment_id :: string
  ed_owner :: string
  ed_scope :: project_scope
  ed_lifecycle :: environment_lifecycle
  ed_policy_ref :: string
  ed_relationships :: "environment_relationship list"

definition mk_definition ::
    "string \<Rightarrow> string \<Rightarrow> project_scope \<Rightarrow> environment_lifecycle \<Rightarrow> string \<Rightarrow> environment_relationship list
     \<Rightarrow> (artifact_error, environment_definition) result" where
  "mk_definition environment_id owner scope lifecycle policy_ref relationships =
     rbind (require_safe_opaque_identifier environment_id ''environment_id'') (\<lambda>_.
     rbind (require_safe_opaque_identifier owner ''owner'') (\<lambda>_.
     rbind (require_safe_opaque_identifier policy_ref ''policy_ref'') (\<lambda>_.
     Inr \<lparr>ed_environment_id = environment_id, ed_owner = owner, ed_scope = scope, ed_lifecycle = lifecycle,
          ed_policy_ref = policy_ref, ed_relationships = relationships\<rparr>)))"

record operation_outcome =
  oo_code :: outcome_code
  oo_failure_code :: "environment_failure option"
  oo_redacted_detail :: "string option"

definition mk_outcome :: "outcome_code \<Rightarrow> environment_failure option \<Rightarrow> string option \<Rightarrow> (artifact_error, operation_outcome) result" where
  "mk_outcome code failure detail =
     (if (case detail of None \<Rightarrow> False | Some d \<Rightarrow> re_search SECRET_OR_CONNECTION_TEXT d) then Inl UnsafeDetail
      else if code = OUTCOME_SUCCEEDED \<and> failure \<noteq> None then Inl InconsistentOutcome
      else if code \<noteq> OUTCOME_SUCCEEDED \<and> failure = None then Inl InconsistentOutcome
      else Inr \<lparr>oo_code = code, oo_failure_code = failure, oo_redacted_detail = detail\<rparr>)"

definition outcome_succeeded :: "operation_outcome \<Rightarrow> bool" where
  "outcome_succeeded out \<longleftrightarrow> oo_code out = OUTCOME_SUCCEEDED"

record environment_request =
  eq_operation :: durable_identity
  eq_source_environment_id :: string
  eq_target_environment_id :: string
  eq_target_pointer :: instance_pointer
  eq_target_ref :: "database_ref option"
  eq_source :: capture_source
  eq_spec :: database_spec
  eq_credentials :: string
  eq_actor :: string
  eq_intent :: string
  eq_request_raw_delivery :: bool

record environment_lineage =
  el_actor :: string
  el_intent :: string
  el_source :: string
  el_target :: string
  el_policy :: "string option"
  el_recovery_point :: "string option"
  el_raw_grant :: "raw_data_grant option"

record environment_result =
  er_outcome :: operation_outcome
  er_lineage :: environment_lineage
  er_copy_result :: "copy_result option"

section \<open>Ports and world\<close>

text \<open>An exception that reaches \<open>run\<close>: a preflight failure, which it turns into a refusal, or another one,
  which escapes.\<close>

datatype env_exn =
    PreflightFailure environment_failure "string option" "raw_data_grant option"
  | Escaped copy_exn

datatype env_call =
    Resolved string "(copy_exn, environment_definition) result"
  | Got instance_pointer "(copy_exn, instance_record) result"
  | Policy string "(copy_exn, anonymization_policy) result"
  | Authorized string string "(copy_exn, raw_data_grant option) result"
  | Env_clock "(copy_exn, datetime) result"
  | Acquired database_ref "(copy_exn, string) result"
  | Copied copy_request "(copy_exn, copy_result) result"
  | Checked "(copy_exn, bool) result"
  | Rolled_back database_ref string "(copy_exn, unit) result"
  | Recovery_checked database_ref string "(copy_exn, bool) result"

record 'g env_ports =
  ep_resolve :: "string \<Rightarrow> 'g \<Rightarrow> 'g \<times> (copy_exn, environment_definition) result"
  ep_get :: "instance_pointer \<Rightarrow> 'g \<Rightarrow> 'g \<times> (copy_exn, instance_record) result"
  ep_policy :: "string \<Rightarrow> 'g \<Rightarrow> 'g \<times> (copy_exn, anonymization_policy) result"
  ep_authorize :: "string \<Rightarrow> string \<Rightarrow> 'g \<Rightarrow> 'g \<times> (copy_exn, raw_data_grant option) result"
  ep_now :: "'g \<Rightarrow> 'g \<times> (copy_exn, datetime) result"
  ep_acquire :: "database_ref \<Rightarrow> 'g \<Rightarrow> 'g \<times> (copy_exn, string) result"
  ep_restore_point :: "database_ref \<Rightarrow> string \<Rightarrow> 'g \<Rightarrow> 'g \<times> (copy_exn, unit) result"
  ep_verify_point :: "database_ref \<Rightarrow> string \<Rightarrow> 'g \<Rightarrow> 'g \<times> (copy_exn, bool) result"
  ep_verify_operation :: "copy_result \<Rightarrow> 'g \<Rightarrow> 'g \<times> (copy_exn, bool) result"
  ep_copy :: "'g copy_ports"

record 'g env_world =
  ew_copy :: "'g copy_world"
  ew_calls :: "env_call list"

type_synonym ('g, 'a) env_prog = "('g env_world, env_exn, 'a) prog"

text \<open>A port call; its exception is returned as a value, for the caller to turn into a failure.\<close>

definition attempt ::
    "((copy_exn, 'a) result \<Rightarrow> env_call) \<Rightarrow> ('g copy_world \<Rightarrow> 'g copy_world \<times> (copy_exn, 'a) result)
     \<Rightarrow> ('g, (copy_exn, 'a) result) env_prog" where
  "attempt call p = (\<lambda>s. case p (ew_copy s) of (c, r) \<Rightarrow> (s\<lparr>ew_copy := c, ew_calls := ew_calls s @ [call r]\<rparr>, Inr r))"

definition on_state :: "('g \<Rightarrow> 'g \<times> 'r) \<Rightarrow> 'g copy_world \<Rightarrow> 'g copy_world \<times> 'r" where
  "on_state p c = (case p (cw_state c) of (g, r) \<Rightarrow> (c\<lparr>cw_state := g\<rparr>, r))"

definition or_fail :: "env_exn \<Rightarrow> (copy_exn, 'a) result \<Rightarrow> ('g, 'a) env_prog" where
  "or_fail f r = lift_result (case r of Inl _ \<Rightarrow> Inl f | Inr x \<Rightarrow> Inr x)"

definition or_escape :: "(copy_exn, 'a) result \<Rightarrow> ('g, 'a) env_prog" where
  "or_escape r = lift_result (case r of Inl e \<Rightarrow> Inl (Escaped e) | Inr x \<Rightarrow> Inr x)"

section \<open>The service\<close>

definition definition_accepts :: "environment_request \<Rightarrow> environment_definition \<Rightarrow> bool" where
  "definition_accepts q d \<longleftrightarrow>
     ed_environment_id d = eq_target_environment_id q \<and> ed_lifecycle d = ACTIVE \<and>
     ed_scope d = ip_scope (eq_target_pointer q) \<and>
     list_ex (\<lambda>r. rel_source r = eq_source_environment_id q \<and> rel_target r = eq_target_environment_id q) (ed_relationships d) \<and>
     tg_target_id (csrc_target (eq_source q)) = eq_source_environment_id q"

definition record_accepts :: "environment_request \<Rightarrow> instance_record \<Rightarrow> bool" where
  "record_accepts q r \<longleftrightarrow> ir_receipt r \<noteq> None \<and>
     rf_identifier (ir_resource r) =
       (case eq_target_ref q of Some t \<Rightarrow> db_identifier t | None \<Rightarrow> rf_identifier (ir_resource r))"

text \<open>The raw-data grant, checked against the operation, the environment and the clock.\<close>

definition preflight_grant ::
    "'g env_ports \<Rightarrow> environment_request \<Rightarrow> environment_definition \<Rightarrow> ('g, raw_data_grant option) env_prog" where
  "preflight_grant ports q d =
     (if \<not> eq_request_raw_delivery q then ret None else
      sbind (attempt (Authorized (operation_id (eq_operation q)) (ed_environment_id d))
               (on_state (ep_authorize ports (operation_id (eq_operation q)) (ed_environment_id d)))) (\<lambda>r.
      sbind (or_fail (PreflightFailure RAW_GRANT_REQUIRED (Some (ed_policy_ref d)) None) r) (\<lambda>grant.
      case grant of
        None \<Rightarrow> raise_exn (PreflightFailure RAW_GRANT_REQUIRED (Some (ed_policy_ref d)) None)
      | Some g \<Rightarrow>
          if gr_operation_id g \<noteq> operation_id (eq_operation q) \<or> gr_environment_id g \<noteq> ed_environment_id d
          then raise_exn (PreflightFailure RAW_GRANT_REQUIRED (Some (ed_policy_ref d)) None)
          else sbind (attempt Env_clock (on_state (ep_now ports))) (\<lambda>n.
               sbind (or_escape n) (\<lambda>now.
               sbind (or_escape (dt_le (gr_expires_at g) now)) (\<lambda>expired.
               if expired then raise_exn (PreflightFailure RAW_GRANT_REQUIRED (Some (ed_policy_ref d)) None)
               else ret (Some g)))))))"

definition preflight_point ::
    "'g env_ports \<Rightarrow> environment_request \<Rightarrow> environment_definition \<Rightarrow> raw_data_grant option \<Rightarrow> ('g, string option) env_prog" where
  "preflight_point ports q d grant =
     (case eq_target_ref q of
        None \<Rightarrow> ret None
      | Some t \<Rightarrow>
          sbind (attempt (Acquired t) (on_state (ep_acquire ports t))) (\<lambda>r.
          sbind (or_fail (PreflightFailure RECOVERY_POINT_UNAVAILABLE (Some (ed_policy_ref d)) grant) r) (\<lambda>point.
          ret (Some point))))"

definition preflight ::
    "'g env_ports \<Rightarrow> environment_request
     \<Rightarrow> ('g, environment_definition \<times> anonymization_policy \<times> raw_data_grant option \<times> string option) env_prog" where
  "preflight ports q =
     sbind (attempt (Resolved (eq_target_environment_id q)) (on_state (ep_resolve ports (eq_target_environment_id q)))) (\<lambda>r.
     sbind (or_fail (PreflightFailure AUTHORITY_UNAVAILABLE None None) r) (\<lambda>d.
     if \<not> definition_accepts q d then raise_exn (PreflightFailure INVALID_DEFINITION (Some (ed_policy_ref d)) None) else
     sbind (attempt (Got (eq_target_pointer q)) (on_state (ep_get ports (eq_target_pointer q)))) (\<lambda>r.
     sbind (or_fail (PreflightFailure AUTHORITY_UNAVAILABLE (Some (ed_policy_ref d)) None) r) (\<lambda>record.
     if \<not> record_accepts q record then raise_exn (PreflightFailure INVALID_DEFINITION (Some (ed_policy_ref d)) None) else
     sbind (attempt (Policy (ed_policy_ref d)) (on_state (ep_policy ports (ed_policy_ref d)))) (\<lambda>r.
     sbind (or_fail (PreflightFailure INVALID_DEFINITION (Some (ed_policy_ref d)) None) r) (\<lambda>policy.
     sbind (preflight_grant ports q d) (\<lambda>grant.
     sbind (preflight_point ports q d grant) (\<lambda>point.
     ret (d, policy, grant, point)))))))))"

definition lineage_of ::
    "environment_request \<Rightarrow> string option \<Rightarrow> string option \<Rightarrow> raw_data_grant option \<Rightarrow> environment_lineage" where
  "lineage_of q policy point grant =
     \<lparr>el_actor = eq_actor q, el_intent = eq_intent q, el_source = eq_source_environment_id q,
      el_target = eq_target_environment_id q, el_policy = policy, el_recovery_point = point, el_raw_grant = grant\<rparr>"

text \<open>\<open>_result\<close>: the outcome's validator accepts a failure code with a code other than success.\<close>

definition result_of ::
    "environment_request \<Rightarrow> outcome_code \<Rightarrow> environment_failure \<Rightarrow> string option \<Rightarrow> string option \<Rightarrow> raw_data_grant option
     \<Rightarrow> ('g, environment_result) env_prog" where
  "result_of q code failure policy point grant =
     sbind (lift_result (case mk_outcome code (Some failure) None of Inl _ \<Rightarrow> Inl (Escaped CopyValidation) | Inr o' \<Rightarrow> Inr o')) (\<lambda>o'.
     ret \<lparr>er_outcome = o', er_lineage = lineage_of q policy point grant, er_copy_result = None\<rparr>)"

definition after_mutation_failure ::
    "'g env_ports \<Rightarrow> environment_request \<Rightarrow> string option \<Rightarrow> environment_failure \<Rightarrow> string \<Rightarrow> raw_data_grant option
     \<Rightarrow> ('g, environment_result) env_prog" where
  "after_mutation_failure ports q point failure policy grant =
     sbind (case point of
              None \<Rightarrow> ret failure
            | Some pt \<Rightarrow>
                (case eq_target_ref q of
                   None \<Rightarrow> raise_exn (Escaped CopyAssertion)
                 | Some t \<Rightarrow>
                     sbind (attempt (Rolled_back t pt) (on_state (ep_restore_point ports t pt))) (\<lambda>r.
                     case r of
                       Inl _ \<Rightarrow> ret RECOVERY_RESTORE_FAILED
                     | Inr _ \<Rightarrow>
                         sbind (attempt (Recovery_checked t pt) (on_state (ep_verify_point ports t pt))) (\<lambda>v.
                         ret (if v = Inr True then failure else RECOVERY_VERIFICATION_FAILED))))) (\<lambda>code.
     result_of q OUTCOME_FAILED code (Some policy) point grant)"

definition copy_request_of ::
    "environment_request \<Rightarrow> environment_definition \<Rightarrow> anonymization_policy \<Rightarrow> raw_data_grant option \<Rightarrow> copy_request" where
  "copy_request_of q d policy grant =
     \<lparr>cq_source = eq_source q, cq_spec = eq_spec q, cq_policy = policy, cq_credentials = eq_credentials q,
      cq_operation = eq_operation q, cq_request_raw_delivery = eq_request_raw_delivery q, cq_retain_staged = False,
      cq_raw_grant = grant, cq_raw_grant_environment_id = Some (ed_environment_id d)\<rparr>"

text \<open>From the mutation on.\<close>

definition mutate_environment ::
    "'g env_ports \<Rightarrow> environment_request \<Rightarrow> environment_definition \<Rightarrow> anonymization_policy \<Rightarrow> raw_data_grant option \<Rightarrow> string option
     \<Rightarrow> ('g, environment_result) env_prog" where
  "mutate_environment ports q d policy grant point =
     sbind (attempt (Copied (copy_request_of q d policy grant)) (copy_run (ep_copy ports) (copy_request_of q d policy grant))) (\<lambda>r.
     case r of
       Inl _ \<Rightarrow> after_mutation_failure ports q point MUTATION_FAILED (ed_policy_ref d) grant
     | Inr copied \<Rightarrow>
         sbind (attempt Checked (on_state (ep_verify_operation ports copied))) (\<lambda>v.
         if v \<noteq> Inr True then after_mutation_failure ports q point OPERATION_VERIFICATION_FAILED (ed_policy_ref d) grant
         else sbind (lift_result (case mk_outcome OUTCOME_SUCCEEDED None None of
                Inl _ \<Rightarrow> Inl (Escaped CopyValidation) | Inr o' \<Rightarrow> Inr o')) (\<lambda>o'.
              ret \<lparr>er_outcome = o', er_lineage = lineage_of q (Some (ed_policy_ref d)) point grant,
                   er_copy_result = Some copied\<rparr>)))"

definition environment_run :: "'g env_ports \<Rightarrow> environment_request \<Rightarrow> ('g, environment_result) env_prog" where
  "environment_run ports q =
     sbind (try_catch (sbind (preflight ports q) (\<lambda>x. ret (Inr x)))
       (\<lambda>e. case e of PreflightFailure code policy grant \<Rightarrow> ret (Inl (code, policy, grant)) | Escaped _ \<Rightarrow> raise_exn e)) (\<lambda>checked.
     case checked of
       Inl (code, policy, grant) \<Rightarrow> result_of q OUTCOME_REFUSED code policy None grant
     | Inr (d, policy, grant, point) \<Rightarrow> mutate_environment ports q d policy grant point)"

section \<open>What the service guarantees\<close>

definition is_copy :: "env_call \<Rightarrow> bool" where
  "is_copy c = (case c of Copied _ _ \<Rightarrow> True | _ \<Rightarrow> False)"

definition no_copy :: "env_call list \<Rightarrow> bool" where
  "no_copy cs \<longleftrightarrow> list_all (\<lambda>c. \<not> is_copy c) cs"

lemma no_copy_simps [simp]: "no_copy []" "no_copy (c # cs) \<longleftrightarrow> \<not> is_copy c \<and> no_copy cs"
  "no_copy (xs @ ys) \<longleftrightarrow> no_copy xs \<and> no_copy ys"
  by (simp_all add: no_copy_def)

lemma is_copy_simps [simp]: "\<not> is_copy (Resolved a b)" "\<not> is_copy (Got c d)" "\<not> is_copy (Policy e f)" "\<not> is_copy (Authorized g h i)"
  "\<not> is_copy (Env_clock j)" "\<not> is_copy (Acquired k l)" "\<not> is_copy (Checked m)" "\<not> is_copy (Rolled_back n p q)"
  "\<not> is_copy (Recovery_checked r s t)" "is_copy (Copied u v)"
  by (simp_all add: is_copy_def)

lemma emits_attempt: "(\<And>r. P r [call r]) \<Longrightarrow> emits ew_calls P E (attempt call p)"
  by (auto simp: emits_def wp_def attempt_def added_def split: prod.split)

lemma emits_or_fail: "(\<And>x. r = Inr x \<Longrightarrow> P x []) \<Longrightarrow> E [] \<Longrightarrow> emits ew_calls P E (or_fail f r)"
  unfolding or_fail_def by (rule emits_lift) (auto split: sum.splits)

lemma emits_or_escape: "(\<And>x. r = Inr x \<Longrightarrow> P x []) \<Longrightarrow> E [] \<Longrightarrow> emits ew_calls P E (or_escape r)"
  unfolding or_escape_def by (rule emits_lift) (auto split: sum.splits)

text \<open>A port call whose failure is a preflight failure: after it the call is logged with its answer.\<close>

lemma emits_require:
  assumes "\<And>r. \<not> is_copy (call r)" "\<And>x. emits ew_calls (P x) no_copy (k x)"
    and "\<And>x y cs. P x y cs \<Longrightarrow> Q y (call (Inr x) # cs)"
  shows "emits ew_calls Q no_copy (sbind (attempt call p) (\<lambda>r. sbind (or_fail f r) k))"
proof (rule emits_bind [where P = "\<lambda>r cs. cs = [call r]" and E = "\<lambda>_. False" and E' = "\<lambda>_. no_copy"
      and P' = "\<lambda>r y cs. \<exists>x. r = Inr x \<and> P x y cs"])
  show "emits ew_calls (\<lambda>r cs. cs = [call r]) (\<lambda>_. False) (attempt call p)" by (rule emits_attempt) simp
  show "emits ew_calls (\<lambda>y cs. \<exists>x. r = Inr x \<and> P x y cs) no_copy (sbind (or_fail f r) k)" for r
    by (rule emits_bind [where P = "\<lambda>x cs. r = Inr x \<and> cs = []" and E = no_copy, OF _ assms(2)]) (auto intro: emits_or_fail)
qed (use assms(1,3) in auto)

definition grant_ok :: "environment_request \<Rightarrow> environment_definition \<Rightarrow> raw_data_grant option \<Rightarrow> env_call list \<Rightarrow> bool" where
  "grant_ok q d grant cs \<longleftrightarrow>
     (if eq_request_raw_delivery q
      then \<exists>g now. grant = Some g \<and> gr_operation_id g = operation_id (eq_operation q) \<and> gr_environment_id g = ed_environment_id d \<and>
             Env_clock (Inr now) \<in> set cs \<and> dt_micros now < dt_micros (gr_expires_at g)
      else grant = None)"

definition point_ok :: "environment_request \<Rightarrow> string option \<Rightarrow> env_call list \<Rightarrow> bool" where
  "point_ok q point cs \<longleftrightarrow>
     (case eq_target_ref q of None \<Rightarrow> point = None | Some t \<Rightarrow> \<exists>pt. point = Some pt \<and> Acquired t (Inr pt) \<in> set cs)"

text \<open>What was established before the mutation.\<close>

definition authorised ::
    "environment_request \<Rightarrow> environment_definition \<Rightarrow> anonymization_policy \<Rightarrow> raw_data_grant option \<Rightarrow> string option \<Rightarrow> env_call list \<Rightarrow> bool" where
  "authorised q d policy grant point cs \<longleftrightarrow>
     Resolved (eq_target_environment_id q) (Inr d) \<in> set cs \<and> ed_environment_id d = eq_target_environment_id q \<and>
     ed_lifecycle d = ACTIVE \<and> ed_scope d = ip_scope (eq_target_pointer q) \<and>
     (\<exists>rel \<in> set (ed_relationships d). rel_source rel = eq_source_environment_id q \<and> rel_target rel = eq_target_environment_id q) \<and>
     tg_target_id (csrc_target (eq_source q)) = eq_source_environment_id q \<and>
     (\<exists>r. Got (eq_target_pointer q) (Inr r) \<in> set cs \<and> record_accepts q r) \<and>
     Policy (ed_policy_ref d) (Inr policy) \<in> set cs \<and> grant_ok q d grant cs \<and> point_ok q point cs"

lemma preflight_grant_emits:
  "emits ew_calls (\<lambda>grant cs. no_copy cs \<and> grant_ok q d grant cs) no_copy (preflight_grant ports q d)"
proof (cases "eq_request_raw_delivery q")
  case True
  have clock: "emits ew_calls (\<lambda>grant cs. no_copy cs \<and> grant = Some g \<and> (\<exists>now. Env_clock (Inr now) \<in> set cs \<and> dt_micros now < dt_micros (gr_expires_at g))) no_copy
     (sbind (attempt Env_clock (on_state (ep_now ports))) (\<lambda>n. sbind (or_escape n) (\<lambda>now.
      sbind (or_escape (dt_le (gr_expires_at g) now)) (\<lambda>expired.
      if expired then raise_exn e else ret (Some g)))))" for g e
  proof (rule emits_bind [where P = "\<lambda>n cs. cs = [Env_clock n]" and E = "\<lambda>_. False" and E' = "\<lambda>_. no_copy"
        and P' = "\<lambda>n grant cs. cs = [] \<and> grant = Some g \<and> (\<exists>now. n = Inr now \<and> dt_micros now < dt_micros (gr_expires_at g))"])
    fix n
    show "emits ew_calls (\<lambda>grant cs. cs = [] \<and> grant = Some g \<and> (\<exists>now. n = Inr now \<and> dt_micros now < dt_micros (gr_expires_at g))) no_copy
      (sbind (or_escape n) (\<lambda>now. sbind (or_escape (dt_le (gr_expires_at g) now)) (\<lambda>expired.
        if expired then raise_exn e else ret (Some g))))"
      by (cases n) (auto simp: or_escape_def dt_le_def emits_def wp_rules added_same)
  qed (auto intro: emits_attempt)
  have step: "emits ew_calls (\<lambda>grant cs. no_copy cs \<and> grant_ok q d grant cs) no_copy
     (case x of
        None \<Rightarrow> raise_exn (PreflightFailure RAW_GRANT_REQUIRED (Some (ed_policy_ref d)) None)
      | Some g \<Rightarrow>
          if gr_operation_id g \<noteq> operation_id (eq_operation q) \<or> gr_environment_id g \<noteq> ed_environment_id d
          then raise_exn (PreflightFailure RAW_GRANT_REQUIRED (Some (ed_policy_ref d)) None)
          else sbind (attempt Env_clock (on_state (ep_now ports))) (\<lambda>n. sbind (or_escape n) (\<lambda>now.
               sbind (or_escape (dt_le (gr_expires_at g) now)) (\<lambda>expired.
               if expired then raise_exn (PreflightFailure RAW_GRANT_REQUIRED (Some (ed_policy_ref d)) None)
               else ret (Some g)))))" for x
    by (cases x) (auto intro!: emits_raise emits_weaken [OF clock] simp: grant_ok_def True)
  show ?thesis unfolding preflight_grant_def
    by (simp only: True not_True_eq_False if_False, rule emits_require [OF _ step]) (auto simp: grant_ok_def)
qed (auto simp: preflight_grant_def grant_ok_def intro: emits_ret)

lemma preflight_point_emits:
  "emits ew_calls (\<lambda>point cs. no_copy cs \<and> point_ok q point cs) no_copy (preflight_point ports q d grant)"
proof (cases "eq_target_ref q")
  case (Some t)
  then show ?thesis unfolding preflight_point_def
    by (simp, intro emits_require [where P = "\<lambda>x y cs. cs = [] \<and> y = Some x"]) (auto intro: emits_ret simp: point_ok_def)
qed (auto simp: preflight_point_def point_ok_def intro: emits_ret)

lemma preflight_emits:
  "emits ew_calls (\<lambda>(d, policy, grant, point) cs. no_copy cs \<and> authorised q d policy grant point cs) no_copy (preflight ports q)"
proof -
  have late: "emits ew_calls (\<lambda>(d', policy', grant, point) cs. no_copy cs \<and> d' = d \<and> policy' = policy \<and> grant_ok q d grant cs \<and> point_ok q point cs) no_copy
     (sbind (preflight_grant ports q d) (\<lambda>grant. sbind (preflight_point ports q d grant) (\<lambda>point. ret (d, policy, grant, point))))" for d policy
  proof (rule emits_bind [OF preflight_grant_emits])
    show "emits ew_calls (\<lambda>(d', policy', grant', point) cs. no_copy cs \<and> d' = d \<and> policy' = policy \<and> grant' = grant \<and> point_ok q point cs) no_copy
        (sbind (preflight_point ports q d grant) (\<lambda>point. ret (d, policy, grant, point)))" for grant
      by (rule emits_bind [OF preflight_point_emits, where P' = "\<lambda>point y cs. cs = [] \<and> y = (d, policy, grant, point)" and E' = "\<lambda>_. no_copy"])
        (auto intro: emits_ret)
  qed (auto simp: grant_ok_def point_ok_def split: if_splits option.splits)
  let ?G = "\<lambda>d y cs. case y of (d', policy, grant, point) \<Rightarrow> no_copy cs \<and> d' = d \<and>
      Policy (ed_policy_ref d) (Inr policy) \<in> set cs \<and> grant_ok q d grant cs \<and> point_ok q point cs"
  have policy: "emits ew_calls (?G d) no_copy
     (sbind (attempt (Policy (ed_policy_ref d)) (on_state (ep_policy ports (ed_policy_ref d)))) (\<lambda>r.
      sbind (or_fail (PreflightFailure INVALID_DEFINITION (Some (ed_policy_ref d)) None) r) (\<lambda>policy.
      sbind (preflight_grant ports q d) (\<lambda>grant. sbind (preflight_point ports q d grant) (\<lambda>point. ret (d, policy, grant, point))))))" for d
    by (rule emits_require [OF _ late]) (auto simp: grant_ok_def point_ok_def split: if_splits option.splits)
  let ?R = "\<lambda>d y cs. ?G d y cs \<and> (\<exists>r. Got (eq_target_pointer q) (Inr r) \<in> set cs \<and> record_accepts q r)"
  have got: "emits ew_calls (?R d) no_copy
     (sbind (attempt (Got (eq_target_pointer q)) (on_state (ep_get ports (eq_target_pointer q)))) (\<lambda>r.
      sbind (or_fail (PreflightFailure AUTHORITY_UNAVAILABLE (Some (ed_policy_ref d)) None) r) (\<lambda>record.
      if \<not> record_accepts q record then raise_exn (PreflightFailure INVALID_DEFINITION (Some (ed_policy_ref d)) None) else
      sbind (attempt (Policy (ed_policy_ref d)) (on_state (ep_policy ports (ed_policy_ref d)))) (\<lambda>r.
      sbind (or_fail (PreflightFailure INVALID_DEFINITION (Some (ed_policy_ref d)) None) r) (\<lambda>policy.
      sbind (preflight_grant ports q d) (\<lambda>grant. sbind (preflight_point ports q d grant) (\<lambda>point. ret (d, policy, grant, point))))))))" for d
    by (rule emits_require [where P = "\<lambda>r y cs. record_accepts q r \<and> ?G d y cs"])
      (auto intro!: emits_if emits_raise emits_weaken [OF policy] simp: grant_ok_def point_ok_def split: if_splits option.splits)
  show ?thesis unfolding preflight_def
    by (rule emits_require [where P = "\<lambda>d y cs. definition_accepts q d \<and> ?R d y cs"])
      (auto intro!: emits_if emits_raise emits_weaken [OF got] simp: authorised_def definition_accepts_def list_ex_iff grant_ok_def point_ok_def split: if_splits option.splits)
qed

text \<open>What a failed mutation did with the recovery point, from the reported failure.\<close>

definition rolled_back :: "environment_request \<Rightarrow> string option \<Rightarrow> environment_failure \<Rightarrow> env_call list \<Rightarrow> bool" where
  "rolled_back q point failure cs =
     (case (point, eq_target_ref q) of
        (Some pt, Some t) \<Rightarrow>
          if failure = RECOVERY_RESTORE_FAILED then \<exists>e. Rolled_back t pt (Inl e) \<in> set cs
          else Rolled_back t pt (Inr ()) \<in> set cs \<and>
               (failure = RECOVERY_VERIFICATION_FAILED \<or> Recovery_checked t pt (Inr True) \<in> set cs)
      | _ \<Rightarrow> True)"

lemma rolled_back_Cons: "rolled_back q point failure cs \<Longrightarrow> rolled_back q point failure (c # cs)"
  by (auto simp: rolled_back_def split: option.splits if_splits)

definition failed_outcome :: "environment_request \<Rightarrow> string option \<Rightarrow> environment_result \<Rightarrow> env_call list \<Rightarrow> bool" where
  "failed_outcome q point er cs \<longleftrightarrow> no_copy cs \<and> oo_code (er_outcome er) = OUTCOME_FAILED \<and> er_copy_result er = None \<and>
     (\<exists>failure. oo_failure_code (er_outcome er) = Some failure \<and> rolled_back q point failure cs)"

lemma result_of_emits:
  assumes "code \<noteq> OUTCOME_SUCCEEDED"
  shows "emits ew_calls (\<lambda>er cs. cs = [] \<and> oo_code (er_outcome er) = code \<and> er_copy_result er = None \<and>
     oo_failure_code (er_outcome er) = Some failure) (\<lambda>_. False) (result_of q code failure policy point grant)"
  using assms by (simp add: result_of_def mk_outcome_def emits_def wp_rules added_same)

lemma after_mutation_failure_emits:
  assumes "point \<noteq> None \<longrightarrow> eq_target_ref q \<noteq> None" "failure \<notin> {RECOVERY_RESTORE_FAILED, RECOVERY_VERIFICATION_FAILED}"
  shows "emits ew_calls (failed_outcome q point) (\<lambda>_. False) (after_mutation_failure ports q point failure policy grant)"
  unfolding after_mutation_failure_def
proof (rule emits_bind [where P = "\<lambda>f cs. no_copy cs \<and> rolled_back q point f cs" and E = "\<lambda>_. False", OF _ result_of_emits])
  show "emits ew_calls (\<lambda>f cs. no_copy cs \<and> rolled_back q point f cs) (\<lambda>_. False)
    (case point of None \<Rightarrow> ret failure
     | Some pt \<Rightarrow> (case eq_target_ref q of None \<Rightarrow> raise_exn (Escaped CopyAssertion)
       | Some t \<Rightarrow>
           sbind (attempt (Rolled_back t pt) (on_state (ep_restore_point ports t pt))) (\<lambda>r.
           case r of Inl _ \<Rightarrow> ret RECOVERY_RESTORE_FAILED
           | Inr _ \<Rightarrow>
               sbind (attempt (Recovery_checked t pt) (on_state (ep_verify_point ports t pt))) (\<lambda>v.
               ret (if v = Inr True then failure else RECOVERY_VERIFICATION_FAILED)))))"
  proof (cases point)
    case (Some pt)
    with assms(1) obtain t where t: "eq_target_ref q = Some t" by auto
    have check: "emits ew_calls (\<lambda>f cs. \<exists>v. cs = [Recovery_checked t pt v] \<and> f = (if v = Inr True then failure else RECOVERY_VERIFICATION_FAILED)) (\<lambda>_. False)
        (sbind (attempt (Recovery_checked t pt) (on_state (ep_verify_point ports t pt))) (\<lambda>v.
         ret (if v = Inr True then failure else RECOVERY_VERIFICATION_FAILED)))"
      by (rule emits_bind [where P = "\<lambda>v cs. cs = [Recovery_checked t pt v]" and E = "\<lambda>_. False" and E' = "\<lambda>_ _. False"
            and P' = "\<lambda>v f cs. cs = [] \<and> f = (if v = Inr True then failure else RECOVERY_VERIFICATION_FAILED)"])
        (auto intro: emits_attempt emits_ret)
    let ?P' = "\<lambda>r f cs. case r of Inl e \<Rightarrow> cs = [] \<and> f = RECOVERY_RESTORE_FAILED
       | Inr _ \<Rightarrow> \<exists>v. cs = [Recovery_checked t pt v] \<and> f = (if v = Inr True then failure else RECOVERY_VERIFICATION_FAILED)"
    have "emits ew_calls (?P' r) (\<lambda>_. False) (case r of Inl _ \<Rightarrow> ret RECOVERY_RESTORE_FAILED
           | Inr _ \<Rightarrow>
               sbind (attempt (Recovery_checked t pt) (on_state (ep_verify_point ports t pt))) (\<lambda>v.
               ret (if v = Inr True then failure else RECOVERY_VERIFICATION_FAILED)))" for r :: "(copy_exn, unit) result"
      using check by (cases r) (auto intro: emits_ret)
    then show ?thesis unfolding Some t option.case
      by (intro emits_bind [where P = "\<lambda>r cs. cs = [Rolled_back t pt r]" and E = "\<lambda>_. False" and P' = ?P' and E' = "\<lambda>_ _. False"])
        (use assms(2) in \<open>auto intro: emits_attempt simp: rolled_back_def t split: sum.splits if_splits\<close>)
  qed (auto intro: emits_ret simp: rolled_back_def)
qed (auto simp: failed_outcome_def)

text \<open>A mutation: a success is a copy that returned and was verified, anything else a failure whose
  recovery point was used.\<close>

definition mutated :: "environment_request \<Rightarrow> copy_request \<Rightarrow> string option \<Rightarrow> environment_result \<Rightarrow> env_call list \<Rightarrow> bool" where
  "mutated q rq point er cs \<longleftrightarrow>
     (\<exists>c. cs = [Copied rq (Inr c), Checked (Inr True)] \<and> oo_code (er_outcome er) = OUTCOME_SUCCEEDED \<and>
        oo_failure_code (er_outcome er) = None \<and> er_copy_result er = Some c) \<or>
     (\<exists>r rest. cs = Copied rq r # rest \<and> failed_outcome q point er rest)"

lemma failed_outcome_Cons: "failed_outcome q point er cs \<Longrightarrow> \<not> is_copy c \<Longrightarrow> failed_outcome q point er (c # cs)"
  unfolding failed_outcome_def using rolled_back_Cons by fastforce

lemma mutate_environment_emits:
  assumes "point \<noteq> None \<longrightarrow> eq_target_ref q \<noteq> None"
  shows "emits ew_calls (mutated q (copy_request_of q d policy grant) point) (\<lambda>_. False) (mutate_environment ports q d policy grant point)"
proof -
  let ?rq = "copy_request_of q d policy grant"
  note fail = after_mutation_failure_emits [OF assms]
  let ?V = "\<lambda>copied v er cs. v = Inr True \<and> cs = [] \<and> oo_code (er_outcome er) = OUTCOME_SUCCEEDED \<and>
      oo_failure_code (er_outcome er) = None \<and> er_copy_result er = Some copied \<or> failed_outcome q point er cs"
  have succeed: "emits ew_calls (\<lambda>er cs. cs = [] \<and> oo_code (er_outcome er) = OUTCOME_SUCCEEDED \<and> oo_failure_code (er_outcome er) = None \<and>
      er_copy_result er = Some copied) (\<lambda>_. False)
      (sbind (lift_result (case mk_outcome OUTCOME_SUCCEEDED None None of
                Inl _ \<Rightarrow> Inl (Escaped CopyValidation) | Inr o' \<Rightarrow> Inr o')) (\<lambda>o'.
       ret \<lparr>er_outcome = o', er_lineage = lin, er_copy_result = Some copied\<rparr>))" for copied lin
    by (simp add: mk_outcome_def emits_def wp_rules added_same)
  have verified: "emits ew_calls (?V copied v) (\<lambda>_. False)
      (if v \<noteq> Inr True then after_mutation_failure ports q point OPERATION_VERIFICATION_FAILED (ed_policy_ref d) grant
       else sbind (lift_result (case mk_outcome OUTCOME_SUCCEEDED None None of
                Inl _ \<Rightarrow> Inl (Escaped CopyValidation) | Inr o' \<Rightarrow> Inr o')) (\<lambda>o'.
            ret \<lparr>er_outcome = o', er_lineage = lin, er_copy_result = Some copied\<rparr>))" for copied v lin
  proof (rule emits_if)
    show "emits ew_calls (?V copied v) (\<lambda>_. False) (after_mutation_failure ports q point OPERATION_VERIFICATION_FAILED (ed_policy_ref d) grant)"
      by (rule emits_weaken [OF fail]) auto
    show "emits ew_calls (?V copied v) (\<lambda>_. False) (sbind (lift_result (case mk_outcome OUTCOME_SUCCEEDED None None of
                Inl _ \<Rightarrow> Inl (Escaped CopyValidation) | Inr o' \<Rightarrow> Inr o')) (\<lambda>o'.
            ret \<lparr>er_outcome = o', er_lineage = lin, er_copy_result = Some copied\<rparr>))" if "\<not> v \<noteq> Inr True"
      by (rule emits_weaken [OF succeed]) (use that in auto)
  qed
  let ?P' = "\<lambda>r er cs. case r of Inl _ \<Rightarrow> failed_outcome q point er cs
     | Inr copied \<Rightarrow> \<exists>v ds. cs = Checked v # ds \<and> ?V copied v er ds"
  have check: "emits ew_calls (?P' (Inr copied)) (\<lambda>_. False)
      (sbind (attempt Checked (on_state (ep_verify_operation ports copied))) (\<lambda>v.
       if v \<noteq> Inr True then after_mutation_failure ports q point OPERATION_VERIFICATION_FAILED (ed_policy_ref d) grant
       else sbind (lift_result (case mk_outcome OUTCOME_SUCCEEDED None None of
                Inl _ \<Rightarrow> Inl (Escaped CopyValidation) | Inr o' \<Rightarrow> Inr o')) (\<lambda>o'.
            ret \<lparr>er_outcome = o', er_lineage = lin, er_copy_result = Some copied\<rparr>)))" for copied lin
    by (rule emits_bind [where P = "\<lambda>v cs. cs = [Checked v]" and E = "\<lambda>_. False", OF _ verified]) (auto intro: emits_attempt)
  have step: "emits ew_calls (?P' r) (\<lambda>_. False)
    (case r of
       Inl _ \<Rightarrow> after_mutation_failure ports q point MUTATION_FAILED (ed_policy_ref d) grant
     | Inr copied \<Rightarrow>
         sbind (attempt Checked (on_state (ep_verify_operation ports copied))) (\<lambda>v.
         if v \<noteq> Inr True then after_mutation_failure ports q point OPERATION_VERIFICATION_FAILED (ed_policy_ref d) grant
         else sbind (lift_result (case mk_outcome OUTCOME_SUCCEEDED None None of
                Inl _ \<Rightarrow> Inl (Escaped CopyValidation) | Inr o' \<Rightarrow> Inr o')) (\<lambda>o'.
              ret \<lparr>er_outcome = o', er_lineage = lineage_of q (Some (ed_policy_ref d)) point grant,
                   er_copy_result = Some copied\<rparr>)))" for r
    using check fail [of MUTATION_FAILED] by (cases r) simp_all
  have join: "mutated q ?rq point er (Copied ?rq r # cs)" if "?P' r er cs" for r er cs
    using that by (cases r) (auto simp: mutated_def intro: failed_outcome_Cons)
  show ?thesis unfolding mutate_environment_def
    by (rule emits_bind [where P = "\<lambda>r cs. cs = [Copied ?rq r]" and E = "\<lambda>_. False", OF _ step]) (auto intro: emits_attempt join)
qed

text \<open>The calls of a run: no copy, or what was established, the copy, and what followed.\<close>

definition environment_log :: "environment_request \<Rightarrow> environment_result option \<Rightarrow> env_call list \<Rightarrow> bool" where
  "environment_log q result cs \<longleftrightarrow>
     (no_copy cs \<and> (\<forall>er. result = Some er \<longrightarrow> oo_code (er_outcome er) = OUTCOME_REFUSED \<and> er_copy_result er = None)) \<or>
     (\<exists>pre rest d policy grant point er. cs = pre @ rest \<and> result = Some er \<and> no_copy pre \<and> authorised q d policy grant point pre \<and>
        mutated q (copy_request_of q d policy grant) point er rest)"

lemma authorised_target: "authorised q d policy grant point cs \<Longrightarrow> point \<noteq> None \<longrightarrow> eq_target_ref q \<noteq> None"
  by (auto simp: authorised_def point_ok_def split: option.splits)

lemma environment_run_emits:
  "emits ew_calls (\<lambda>er. environment_log q (Some er)) (environment_log q None) (environment_run ports q)"
  unfolding environment_run_def
proof (rule emits_bind_if)
  let ?P = "\<lambda>x cs. no_copy cs \<and> (case x of Inl _ \<Rightarrow> True | Inr (d, policy, grant, point) \<Rightarrow> authorised q d policy grant point cs)"
  show "emits ew_calls ?P no_copy (try_catch (sbind (preflight ports q) (\<lambda>x. ret (Inr x)))
       (\<lambda>e. case e of PreflightFailure code policy grant \<Rightarrow> ret (Inl (code, policy, grant)) | Escaped _ \<Rightarrow> raise_exn e))"
  proof (rule emits_try [where P = ?P and E = no_copy and P' = "\<lambda>x cs. cs = [] \<and> (\<exists>y. x = Inl y)" and E' = no_copy])
    show "emits ew_calls ?P no_copy (sbind (preflight ports q) (\<lambda>x. ret (Inr x)))"
      by (rule emits_bind [OF preflight_emits, where P' = "\<lambda>x y cs. cs = [] \<and> y = Inr x" and E' = "\<lambda>_. no_copy"]) (auto intro: emits_ret)
    show "emits ew_calls (\<lambda>x cs. cs = [] \<and> (\<exists>y. x = Inl y)) no_copy
       (case e of PreflightFailure code policy grant \<Rightarrow> ret (Inl (code, policy, grant)) | Escaped _ \<Rightarrow> raise_exn e)" for e
      by (cases e) (auto intro: emits_ret emits_raise)
  qed auto
  let ?P' = "\<lambda>x er cs. case x of Inl _ \<Rightarrow> cs = [] \<and> oo_code (er_outcome er) = OUTCOME_REFUSED \<and> er_copy_result er = None
     | Inr (d, policy, grant, point) \<Rightarrow> mutated q (copy_request_of q d policy grant) point er cs"
  show "emits ew_calls (?P' x) (\<lambda>_. False) (case x of Inl (code, policy, grant) \<Rightarrow> result_of q OUTCOME_REFUSED code policy None grant
     | Inr (d, policy, grant, point) \<Rightarrow> mutate_environment ports q d policy grant point)" if "?P x cs"
    for x :: "(environment_failure \<times> string option \<times> raw_data_grant option) + (environment_definition \<times> anonymization_policy \<times> raw_data_grant option \<times> string option)" and cs
    using that
    by (cases x) (auto intro: emits_weaken [OF result_of_emits] mutate_environment_emits dest: authorised_target split: prod.splits)
qed (auto simp: environment_log_def split: sum.splits)

section \<open>Properties\<close>

text \<open>C22: a run of the service that copies anything has before resolved the target environment to an active
  definition of the pointer's scope that is related to the source, found the registered target with
  a receipt, resolved its policy, taken a recovery point of an existing target and, for raw data,
  obtained a grant that had not expired; it copies exactly once, with that policy and grant. It
  reports success only for a copy that returned and was verified; otherwise it reports a failure, and
  for an existing target the recovery point was restored, and checked unless the report says that it
  could not be. A refused run copied nothing.\<close>

theorem environment_mutates_only_authorised:
  "\<exists>cs. ew_calls (fst (environment_run ports q s)) = ew_calls s @ cs \<and>
     environment_log q (case snd (environment_run ports q s) of Inl _ \<Rightarrow> None | Inr er \<Rightarrow> Some er) cs"
  using emitsD [OF environment_run_emits [of q ports], of s]
  by (auto simp: wp_def added_def split: prod.splits sum.splits)

end
