(* ===== verification/Instance_Registry.thy ===== *)
theory Instance_Registry
  imports Registry_Types
begin

text \<open>
  The instance registry: its port as a locale, the in-memory implementation
  (\<open>odoo_forge_instances_postgres/fakes.py\<close>) and the PostgreSQL adapter
  (\<open>odoo_forge_instances_postgres/adapter.py\<close>). The table has the primary key and the unique index on the
  operation id of \<open>migrations/0001_instance_registry.sql\<close>. The four receipt columns are written together
  by the one statement that writes them, so that a row has a receipt or none. A statement is a function
  of the table; \<open>transaction\<close> undoes the writes of an operation that raises or whose commit the server
  refuses. A commit may also take effect while its acknowledgement is lost, which raises as well.
\<close>

type_synonym row_key = "string \<times> string \<times> string"

definition pointer_key :: "instance_pointer \<Rightarrow> row_key" where
  "pointer_key p = (ps_tenant (ip_scope p), ps_project_id (ip_scope p), ip_instance_id p)"

lemma pointer_key_inject [simp]: "pointer_key p = pointer_key q \<longleftrightarrow> p = q"
  by (cases p; cases q; cases "ip_scope p"; cases "ip_scope q") (auto simp: pointer_key_def)

definition receipt_operation :: "instance_record \<Rightarrow> string option" where
  "receipt_operation r = map_option (\<lambda>rc. operation_id (or_operation rc)) (ir_receipt r)"

definition record_ok :: "instance_record \<Rightarrow> bool" where
  "record_ok r \<longleftrightarrow> pointer_ok (ir_pointer r) \<and> resource_ref_ok (ir_resource r) \<and>
     (case ir_receipt r of None \<Rightarrow> True
      | Some rc \<Rightarrow> operation_id (or_operation rc) \<noteq> [] \<and> request_digest (or_operation rc) \<noteq> [])"

section \<open>The port\<close>

text \<open>What a registry promises of a registration, over an abstract reading \<open>stored\<close> of its state.\<close>

locale registration =
  fixes register :: "instance_record \<Rightarrow> ('g, exn, instance_record) prog"
    and stored :: "'g \<Rightarrow> instance_pointer \<Rightarrow> instance_record option"
    and inv :: "'g \<Rightarrow> bool"
  assumes register_inv: "inv s \<Longrightarrow> record_ok r \<Longrightarrow> inv (fst (register r s))"
    and register_keeps: "inv s \<Longrightarrow> stored s p = Some x \<Longrightarrow> stored (fst (register r s)) p = Some x"
    and register_frame: "inv s \<Longrightarrow> p \<noteq> ir_pointer r \<Longrightarrow> stored (fst (register r s)) p = stored s p"
    and register_result: "inv s \<Longrightarrow> register r s = (s', Inr x) \<Longrightarrow>
      x = r \<and> ir_receipt r \<noteq> None \<and> stored s' (ir_pointer r) = Some r"
    and register_again: "inv s \<Longrightarrow> stored s (ir_pointer r) = Some r \<Longrightarrow> ir_receipt r \<noteq> None \<Longrightarrow> register r s = (s, Inr r)"
begin

text \<open>A registration that succeeded can be repeated, also after further registrations of others, and
  none of them changes it.\<close>

lemma register_stable:
  assumes "inv s" "record_ok r" "register r s = (s', Inr x)"
    and "register r' s' = (s'', out)" "record_ok r'"
  shows "register r s'' = (s'', Inr r)"
proof -
  have "stored s' (ir_pointer r) = Some r" "ir_receipt r \<noteq> None" using register_result assms by blast+
  moreover have "inv s'" using register_inv [OF assms(1,2)] assms(3) by simp
  moreover from calculation have "stored s'' (ir_pointer r) = Some r" "inv s''"
    using register_keeps [of s' "ir_pointer r" r r'] register_inv [of s' r'] assms(4,5) by simp_all
  ultimately show ?thesis using register_again by blast
qed

end

text \<open>A registry whose reads return what was registered, receipt included.\<close>

locale faithful_registry = registration +
  fixes get_record :: "instance_pointer \<Rightarrow> ('g, exn, instance_record) prog"
  assumes get_stored: "inv s \<Longrightarrow>
    get_record p s = (s, case stored s p of None \<Rightarrow> Inl (RecordNotFound p) | Some r \<Rightarrow> Inr r)"

section \<open>The in-memory registry\<close>

record fake_registry =
  fr_records :: "(row_key \<times> instance_record) list"
  fr_by_operation :: "(string \<times> instance_record) list"

definition fake_store :: "instance_record \<Rightarrow> (fake_registry, exn, instance_record) prog" where
  "fake_store r = (\<lambda>s. let key = pointer_key (ir_pointer r) in
     case map_of (fr_records s) key of
       Some existing \<Rightarrow>
         if ir_receipt existing \<noteq> None then (s, Inl (ReceiptOverwriteRejected (ir_pointer r)))
         else (s\<lparr>fr_records := AList.update key r (fr_records s)\<rparr>, Inr r)
     | None \<Rightarrow> (s\<lparr>fr_records := AList.update key r (fr_records s)\<rparr>, Inr r))"

definition fake_get :: "instance_pointer \<Rightarrow> (fake_registry, exn, instance_record) prog" where
  "fake_get p = (\<lambda>s. (s, of_option (RecordNotFound p) (map_of (fr_records s) (pointer_key p))))"

definition fake_list :: "project_scope \<Rightarrow> (fake_registry, exn, instance_record list) prog" where
  "fake_list scope = (\<lambda>s. (s, Inr (sort_key (\<lambda>r. ip_instance_id (ir_pointer r))
     (map snd (filter (\<lambda>((tenant, project, _), _). tenant = ps_tenant scope \<and> project = ps_project_id scope) (fr_records s))))))"

definition fake_register :: "instance_record \<Rightarrow> (fake_registry, exn, instance_record) prog" where
  "fake_register r = (\<lambda>s. case ir_receipt r of
       None \<Rightarrow> (s, Inl (MissingReceipt (ir_pointer r)))
     | Some receipt \<Rightarrow>
         let operation = operation_id (or_operation receipt);
             key = pointer_key (ir_pointer r);
             existing = (case map_of (fr_by_operation s) operation of Some e \<Rightarrow> Some e | None \<Rightarrow> map_of (fr_records s) key) in
         case existing of
           Some e \<Rightarrow> if e = r then (s, Inr e) else (s, Inl (RegistrationConflict (ir_pointer r)))
         | None \<Rightarrow> (s\<lparr>fr_by_operation := AList.update operation r (fr_by_operation s),
                      fr_records := AList.update key r (fr_records s)\<rparr>, Inr r))"

definition fake_stored :: "fake_registry \<Rightarrow> instance_pointer \<Rightarrow> instance_record option" where
  "fake_stored s p = map_of (fr_records s) (pointer_key p)"

text \<open>Records are filed under their own key, and the index by operation lists exactly the records with
  a receipt, under their operation.\<close>

definition fake_inv :: "fake_registry \<Rightarrow> bool" where
  "fake_inv s \<longleftrightarrow>
     (\<forall>key r. map_of (fr_records s) key = Some r \<longrightarrow> key = pointer_key (ir_pointer r)) \<and>
     (\<forall>operation r. map_of (fr_by_operation s) operation = Some r \<longleftrightarrow>
        receipt_operation r = Some operation \<and> map_of (fr_records s) (pointer_key (ir_pointer r)) = Some r)"

lemma fake_invD:
  assumes "fake_inv s"
  shows "map_of (fr_records s) key = Some r \<Longrightarrow> key = pointer_key (ir_pointer r)"
    and "map_of (fr_by_operation s) operation = Some r \<Longrightarrow> receipt_operation r = Some operation \<and> fake_stored s (ir_pointer r) = Some r"
    and "receipt_operation r = Some operation \<Longrightarrow> fake_stored s (ir_pointer r) = Some r \<Longrightarrow> map_of (fr_by_operation s) operation = Some r"
  using assms unfolding fake_inv_def fake_stored_def by blast+

text \<open>A registration fails without a change, finds the same record, or adds a new one.\<close>

lemma fake_register_cases:
  assumes "fake_inv s"
  obtains (failed) e where "fake_register r s = (s, Inl e)" "ir_receipt r \<noteq> None \<Longrightarrow> fake_stored s (ir_pointer r) \<noteq> Some r"
  | (found) "fake_register r s = (s, Inr r)" "ir_receipt r \<noteq> None" "fake_stored s (ir_pointer r) = Some r"
  | (fresh) operation where "receipt_operation r = Some operation" "map_of (fr_by_operation s) operation = None"
      "fake_stored s (ir_pointer r) = None"
      "fake_register r s = (s\<lparr>fr_by_operation := AList.update operation r (fr_by_operation s),
         fr_records := AList.update (pointer_key (ir_pointer r)) r (fr_records s)\<rparr>, Inr r)"
proof (cases "ir_receipt r")
  case None
  then show ?thesis by (intro failed) (simp_all add: fake_register_def)
next
  case (Some receipt)
  define operation where "operation = operation_id (or_operation receipt)"
  have op: "receipt_operation r = Some operation" by (simp add: receipt_operation_def Some operation_def)
  note run = fake_register_def Some operation_def [symmetric] Let_def
  show ?thesis
  proof (cases "map_of (fr_by_operation s) operation")
    case (Some e)
    note e = fake_invD(2) [OF assms Some]
    show ?thesis
    proof (cases "e = r")
      case True
      with e Some show ?thesis by (intro found) (simp_all add: run)
    next
      case False
      with fake_invD(3) [OF assms op] Some show ?thesis by (intro failed) (auto simp: run)
    qed
  next
    case None
    show ?thesis
    proof (cases "fake_stored s (ir_pointer r)")
      case (Some e)
      with None op fake_invD(3) [OF assms] have "e \<noteq> r" by auto
      with None Some show ?thesis by (intro failed) (simp_all add: run fake_stored_def)
    next
      case None': None
      with None op show ?thesis by (intro fresh) (simp_all add: run fake_stored_def)
    qed
  qed
qed

lemma fake_invI:
  assumes "\<And>key r. map_of (fr_records s) key = Some r \<Longrightarrow> key = pointer_key (ir_pointer r)"
    and "\<And>operation r. map_of (fr_by_operation s) operation = Some r \<Longrightarrow>
      receipt_operation r = Some operation \<and> fake_stored s (ir_pointer r) = Some r"
    and "\<And>operation r. receipt_operation r = Some operation \<Longrightarrow> fake_stored s (ir_pointer r) = Some r \<Longrightarrow>
      map_of (fr_by_operation s) operation = Some r"
  shows "fake_inv s"
  using assms unfolding fake_inv_def fake_stored_def by blast

lemma fake_stored_update:
  "fake_stored (s\<lparr>fr_by_operation := d, fr_records := AList.update (pointer_key q) r (fr_records s)\<rparr>) p =
     (if p = q then Some r else fake_stored s p)"
  "fake_stored (s\<lparr>fr_records := AList.update (pointer_key q) r (fr_records s)\<rparr>) p =
     (if p = q then Some r else fake_stored s p)"
  by (simp_all add: fake_stored_def dict_simps)

lemma fake_register_inv:
  assumes "fake_inv s" shows "fake_inv (fst (fake_register r s))"
  using assms
proof (cases rule: fake_register_cases [where r = r])
  case (fresh operation)
  show ?thesis unfolding fresh(4) fst_conv
  proof (rule fake_invI, goal_cases)
    case (1 key r')
    then show ?case using fake_invD(1) [OF assms] by (auto simp: dict_simps split: if_splits)
  next
    case (2 op' r')
    show ?case
    proof (cases "op' = operation")
      case True
      with 2 fresh(1) show ?thesis by (simp add: dict_simps fake_stored_update)
    next
      case False
      with 2 have "map_of (fr_by_operation s) op' = Some r'" by (simp add: dict_simps)
      from fake_invD(2) [OF assms this] fresh(3) show ?thesis by (auto simp: fake_stored_update)
    qed
  next
    case (3 op' r')
    show ?case
    proof (cases "ir_pointer r' = ir_pointer r")
      case True
      with 3 fresh(1) show ?thesis by (auto simp: fake_stored_update dict_simps)
    next
      case False
      with 3 have "map_of (fr_by_operation s) op' = Some r'" by (intro fake_invD(3) [OF assms]) (auto simp: fake_stored_update)
      with fresh(2) show ?thesis by (auto simp: dict_simps)
    qed
  qed
qed (use assms in simp_all)

interpretation fake: faithful_registry fake_register fake_stored fake_inv fake_get
proof
  fix s r p x assume inv: "fake_inv s"
  show "fake_inv (fst (fake_register r s))" using fake_register_inv [OF inv] .
  show "fake_stored (fst (fake_register r s)) p = Some x" if "fake_stored s p = Some x"
    using inv by (cases rule: fake_register_cases [where r = r]) (use that in \<open>auto simp: fake_stored_update\<close>)
  show "fake_stored (fst (fake_register r s)) p = fake_stored s p" if "p \<noteq> ir_pointer r"
    using inv by (cases rule: fake_register_cases [where r = r]) (use that in \<open>auto simp: fake_stored_update\<close>)
  show "x = r \<and> ir_receipt r \<noteq> None \<and> fake_stored s' (ir_pointer r) = Some r" if "fake_register r s = (s', Inr x)" for s'
    using inv by (cases rule: fake_register_cases [where r = r])
      (use that in \<open>auto simp: fake_stored_update receipt_operation_def\<close>)
  show "fake_register r s = (s, Inr r)" if "fake_stored s (ir_pointer r) = Some r" "ir_receipt r \<noteq> None"
    using inv by (cases rule: fake_register_cases [where r = r]) (use that in auto)
  show "fake_get p s = (s, case fake_stored s p of None \<Rightarrow> Inl (RecordNotFound p) | Some r \<Rightarrow> Inr r)"
    by (simp add: fake_get_def fake_stored_def of_option_def split: option.split)
qed

text \<open>A store of a record without a receipt keeps the index; it never touches a record with one.\<close>

lemma fake_store_inv:
  assumes "fake_inv s" "ir_receipt r = None" shows "fake_inv (fst (fake_store r s))"
proof (cases "\<exists>e. fake_stored s (ir_pointer r) = Some e \<and> ir_receipt e \<noteq> None")
  case True
  with assms show ?thesis by (auto simp: fake_store_def fake_stored_def Let_def)
next
  case False
  let ?s = "s\<lparr>fr_records := AList.update (pointer_key (ir_pointer r)) r (fr_records s)\<rparr>"
  have "fst (fake_store r s) = ?s"
    using False by (auto simp: fake_store_def fake_stored_def Let_def split: option.splits)
  moreover have "fake_inv ?s"
  proof (rule fake_invI, goal_cases)
    case (1 key r')
    then show ?case using fake_invD(1) [OF assms(1)] by (auto simp: dict_simps split: if_splits)
  next
    case (2 op' r')
    then have "receipt_operation r' = Some op'" "fake_stored s (ir_pointer r') = Some r'"
      using fake_invD(2) [OF assms(1)] by simp_all
    with False show ?case by (auto simp: fake_stored_update receipt_operation_def)
  next
    case (3 op' r')
    then have "ir_pointer r' \<noteq> ir_pointer r" using assms(2) by (auto simp: fake_stored_update receipt_operation_def)
    with 3 show ?case using fake_invD(3) [OF assms(1)] by (simp add: fake_stored_update)
  qed
  ultimately show ?thesis by simp
qed

section \<open>The PostgreSQL registry\<close>

record registry_row =
  rw_key :: row_key
  rw_resource :: resource_ref
  rw_receipt :: "ownership_receipt option"

type_synonym registry_table = "registry_row list"

definition row_operation :: "registry_row \<Rightarrow> string option" where
  "row_operation row = map_option (\<lambda>rc. operation_id (or_operation rc)) (rw_receipt row)"

text \<open>Reading a row validates the values; \<open>_record_from_row\<close> has no receipt to read.\<close>

definition pointer_of_key :: "row_key \<Rightarrow> instance_pointer" where
  "pointer_of_key = (\<lambda>(tenant, project, inst). \<lparr>ip_scope = \<lparr>ps_tenant = tenant, ps_project_id = project\<rparr>, ip_instance_id = inst\<rparr>)"

definition record_from_row :: "registry_row \<Rightarrow> (exn, instance_record) result" where
  "record_from_row row = (let p = pointer_of_key (rw_key row) in
     if pointer_ok p \<and> resource_ref_ok (rw_resource row)
     then Inr \<lparr>ir_pointer = p, ir_resource = rw_resource row, ir_receipt = None\<rparr> else Inl ValidationErr)"

definition record_from_receipt_row :: "registry_row \<Rightarrow> (exn, instance_record) result" where
  "record_from_receipt_row row = rbind (record_from_row row) (\<lambda>r.
     case rw_receipt row of
       None \<Rightarrow> Inl ValidationErr
     | Some rc \<Rightarrow>
         if operation_id (or_operation rc) \<noteq> [] \<and> request_digest (or_operation rc) \<noteq> []
         then Inr (r\<lparr>ir_receipt := Some rc\<rparr>) else Inl ValidationErr)"

definition receipt_row :: "instance_record \<Rightarrow> ownership_receipt \<Rightarrow> registry_row" where
  "receipt_row r receipt = \<lparr>rw_key = pointer_key (ir_pointer r), rw_resource = ir_resource r, rw_receipt = Some receipt\<rparr>"

definition find_row :: "row_key \<Rightarrow> registry_table \<Rightarrow> registry_row option" where
  "find_row key t = find (\<lambda>row. rw_key row = key) t"

text \<open>The statements.\<close>

definition STORE_SQL :: "instance_record \<Rightarrow> registry_table \<Rightarrow> registry_table" where
  "STORE_SQL r t = (let key = pointer_key (ir_pointer r) in
     if find_row key t = None then t @ [\<lparr>rw_key = key, rw_resource = ir_resource r, rw_receipt = None\<rparr>]
     else map (\<lambda>row. if rw_key row = key then row\<lparr>rw_resource := ir_resource r\<rparr> else row) t)"

definition REGISTER_LOOKUP_SQL :: "string \<Rightarrow> row_key \<Rightarrow> registry_table \<Rightarrow> registry_row list" where
  "REGISTER_LOOKUP_SQL operation key t = filter (\<lambda>row. row_operation row = Some operation \<or> rw_key row = key) t"

text \<open>\<open>ON CONFLICT DO NOTHING\<close>: nothing is returned when the key or the operation id is taken.\<close>

definition REGISTER_INSERT_SQL :: "registry_row \<Rightarrow> registry_table \<Rightarrow> registry_table \<times> registry_row option" where
  "REGISTER_INSERT_SQL row t =
     (if list_ex (\<lambda>x. rw_key x = rw_key row \<or> row_operation row \<noteq> None \<and> row_operation x = row_operation row) t
      then (t, None) else (t @ [row], Some row))"

datatype commit_outcome = Committed | Aborted exn | Unacknowledged exn

definition transaction :: "commit_outcome \<Rightarrow> (registry_table, exn, 'a) prog \<Rightarrow> (registry_table, exn, 'a) prog" where
  "transaction commit operation = (\<lambda>t. case operation t of
       (t', Inr x) \<Rightarrow> (case commit of Committed \<Rightarrow> (t', Inr x) | Aborted e \<Rightarrow> (t, Inl e) | Unacknowledged e \<Rightarrow> (t', Inl e))
     | (t', Inl e) \<Rightarrow> (t, Inl e))"

definition store_check :: "instance_record \<Rightarrow> registry_table \<Rightarrow> (exn, unit) result" where
  "store_check r t = (case find_row (pointer_key (ir_pointer r)) t of
       Some row \<Rightarrow> guard (row_operation row = None) (ReceiptOverwriteRejected (ir_pointer r))
     | None \<Rightarrow> Inr ())"

definition pg_store :: "commit_outcome \<Rightarrow> instance_record \<Rightarrow> (registry_table, exn, instance_record) prog" where
  "pg_store commit r = transaction commit
     (sthen (sbind (gets (store_check r)) lift_result)
     (sthen (modify (STORE_SQL r))
     (sbind (gets (find_row (pointer_key (ir_pointer r)))) (\<lambda>row.
     case row of None \<Rightarrow> raise_exn (PortErr ''store did not return an authoritative row'')
     | Some row \<Rightarrow> lift_result (record_from_row row)))))"

definition pg_get :: "commit_outcome \<Rightarrow> instance_pointer \<Rightarrow> (registry_table, exn, instance_record) prog" where
  "pg_get commit p = transaction commit
     (sbind (gets (find_row (pointer_key p))) (\<lambda>row.
     case row of None \<Rightarrow> raise_exn (RecordNotFound p) | Some row \<Rightarrow> lift_result (record_from_row row)))"

definition LIST_SQL :: "project_scope \<Rightarrow> registry_table \<Rightarrow> registry_row list" where
  "LIST_SQL scope t = sort_key (\<lambda>row. snd (snd (rw_key row)))
     (filter (\<lambda>row. fst (rw_key row) = ps_tenant scope \<and> fst (snd (rw_key row)) = ps_project_id scope) t)"

definition pg_list :: "commit_outcome \<Rightarrow> project_scope \<Rightarrow> (registry_table, exn, instance_record list) prog" where
  "pg_list commit scope = transaction commit
     (sbind (gets (LIST_SQL scope)) (\<lambda>rows. lift_result (rmap record_from_row rows)))"

fun first_equal :: "instance_record \<Rightarrow> registry_row list \<Rightarrow> (exn, instance_record option) result" where
  "first_equal r [] = Inr None"
| "first_equal r (row # rows) = rbind (record_from_receipt_row row) (\<lambda>existing.
     if existing = r then Inr (Some existing) else first_equal r rows)"

definition matching_registered_row ::
    "instance_record \<Rightarrow> ownership_receipt \<Rightarrow> registry_table \<Rightarrow> (exn, instance_record option) result" where
  "matching_registered_row r receipt t =
     (let rows = REGISTER_LOOKUP_SQL (operation_id (or_operation receipt)) (pointer_key (ir_pointer r)) t in
      rbind (first_equal r rows) (\<lambda>found.
      case found of
        Some existing \<Rightarrow> Inr (Some existing)
      | None \<Rightarrow> if rows \<noteq> [] then Inl (RegistrationConflict (ir_pointer r)) else Inr None))"

definition register_insert :: "instance_record \<Rightarrow> ownership_receipt \<Rightarrow> (registry_table, exn, registry_row option) prog" where
  "register_insert r receipt = (\<lambda>t. case REGISTER_INSERT_SQL (receipt_row r receipt) t of (t', row) \<Rightarrow> (t', Inr row))"

definition pg_register :: "commit_outcome \<Rightarrow> instance_record \<Rightarrow> (registry_table, exn, instance_record) prog" where
  "pg_register commit r = (case ir_receipt r of
       None \<Rightarrow> raise_exn (MissingReceipt (ir_pointer r))
     | Some receipt \<Rightarrow> transaction commit
         (sbind (sbind (gets (matching_registered_row r receipt)) lift_result) (\<lambda>existing.
         case existing of Some e \<Rightarrow> ret e
         | None \<Rightarrow>
             sbind (register_insert r receipt) (\<lambda>inserted.
             case inserted of Some row \<Rightarrow> lift_result (record_from_receipt_row row)
             | None \<Rightarrow>
                 sbind (sbind (gets (matching_registered_row r receipt)) lift_result) (\<lambda>existing.
                 case existing of Some e \<Rightarrow> ret e
                 | None \<Rightarrow> raise_exn (RegistrationConflict (ir_pointer r)))))))"

section \<open>The table\<close>

definition full_record :: "registry_row \<Rightarrow> instance_record" where
  "full_record row = \<lparr>ir_pointer = pointer_of_key (rw_key row), ir_resource = rw_resource row, ir_receipt = rw_receipt row\<rparr>"

definition pg_stored :: "registry_table \<Rightarrow> instance_pointer \<Rightarrow> instance_record option" where
  "pg_stored t p = map_option full_record (find_row (pointer_key p) t)"

definition unique_operations :: "registry_table \<Rightarrow> bool" where
  "unique_operations t \<longleftrightarrow> (\<forall>x \<in> set t. \<forall>y \<in> set t. row_operation x \<noteq> None \<longrightarrow> row_operation x = row_operation y \<longrightarrow> x = y)"

definition pg_inv :: "registry_table \<Rightarrow> bool" where
  "pg_inv t \<longleftrightarrow> distinct (map rw_key t) \<and> unique_operations t \<and> (\<forall>row \<in> set t. record_ok (full_record row))"

lemma pointer_of_key [simp]: "pointer_of_key (pointer_key p) = p" "pointer_key (pointer_of_key k) = k"
  by (cases p, cases "ip_scope p") (auto simp: pointer_of_key_def pointer_key_def split: prod.splits)

lemma full_record_receipt_row [simp]: "ir_receipt r = Some rc \<Longrightarrow> full_record (receipt_row r rc) = r"
  by (cases r) (simp add: full_record_def receipt_row_def)

lemma receipt_row_simps [simp]:
  "rw_key (receipt_row r rc) = pointer_key (ir_pointer r)" "row_operation (receipt_row r rc) = Some (operation_id (or_operation rc))"
  by (simp_all add: receipt_row_def row_operation_def)

lemma record_from_receipt_row_Inr_iff:
  "record_from_receipt_row row = Inr x \<longleftrightarrow> x = full_record row \<and> record_ok (full_record row) \<and> rw_receipt row \<noteq> None"
  by (cases "rw_receipt row")
    (auto simp: record_from_receipt_row_def record_from_row_def Let_def full_record_def record_ok_def)

lemma find_row_iff: "distinct (map rw_key t) \<Longrightarrow> find_row key t = Some row \<longleftrightarrow> row \<in> set t \<and> rw_key row = key"
  by (induction t) (auto simp: find_row_def)

lemma find_row_None_iff: "find_row key t = None \<longleftrightarrow> (\<forall>row \<in> set t. rw_key row \<noteq> key)"
  by (auto simp: find_row_def find_None_iff)

lemma filter_single: "distinct t \<Longrightarrow> x \<in> set t \<Longrightarrow> (\<And>y. y \<in> set t \<Longrightarrow> P y \<longleftrightarrow> y = x) \<Longrightarrow> filter P t = [x]"
proof (induction t)
  case (Cons y t)
  show ?case
  proof (cases "y = x")
    case True
    then have "filter P t = []" using Cons.prems by (auto simp: filter_empty_conv)
    with True Cons.prems show ?thesis by simp
  next
    case False
    with Cons show ?thesis by simp
  qed
qed simp

lemma pg_invD:
  assumes "pg_inv t"
  shows "distinct (map rw_key t)" "distinct t" "x \<in> set t \<Longrightarrow> record_ok (full_record x)"
    "x \<in> set t \<Longrightarrow> y \<in> set t \<Longrightarrow> rw_key x = rw_key y \<Longrightarrow> x = y"
    "x \<in> set t \<Longrightarrow> y \<in> set t \<Longrightarrow> row_operation x = Some operation \<Longrightarrow> row_operation y = Some operation \<Longrightarrow> x = y"
  using assms inj_onD [of rw_key "set t" x y] by (auto simp: pg_inv_def unique_operations_def distinct_map)

lemma lookup_registered:
  assumes "pg_inv t" "row \<in> set t" "rw_receipt row = Some rc"
  shows "REGISTER_LOOKUP_SQL (operation_id (or_operation rc)) (rw_key row) t = [row]"
  unfolding REGISTER_LOOKUP_SQL_def
proof (rule filter_single [OF pg_invD(2) [OF assms(1)] assms(2)])
  have "row_operation row = Some (operation_id (or_operation rc))" by (simp add: row_operation_def assms(3))
  then show "(row_operation y = Some (operation_id (or_operation rc)) \<or> rw_key y = rw_key row) = (y = row)" if "y \<in> set t" for y
    using pg_invD(4,5) [OF assms(1)] that assms(2) by metis
qed

lemma first_equal_Some_iff: "first_equal r rows = Inr (Some x) \<Longrightarrow> \<exists>row \<in> set rows. x = r \<and> record_from_receipt_row row = Inr r"
  by (induction rows) (auto simp: result_iff split: if_splits)

lemma insert_after_lookup:
  "REGISTER_LOOKUP_SQL (operation_id (or_operation rc)) (pointer_key (ir_pointer r)) t = [] \<Longrightarrow>
     REGISTER_INSERT_SQL (receipt_row r rc) t = (t @ [receipt_row r rc], Some (receipt_row r rc))"
  by (auto simp: REGISTER_LOOKUP_SQL_def REGISTER_INSERT_SQL_def filter_empty_conv list_ex_iff)

text \<open>A lookup fails, finds the record, or finds that its key and its operation are free.\<close>

lemma matching_cases:
  assumes "pg_inv t" "ir_receipt r = Some rc"
  obtains (failed) e where "matching_registered_row r rc t = Inl e" "pg_stored t (ir_pointer r) \<noteq> Some r"
  | (found) "matching_registered_row r rc t = Inr (Some r)" "pg_stored t (ir_pointer r) = Some r"
  | (free) "matching_registered_row r rc t = Inr None" "pg_stored t (ir_pointer r) = None"
      "REGISTER_LOOKUP_SQL (operation_id (or_operation rc)) (pointer_key (ir_pointer r)) t = []"
proof -
  let ?rows = "REGISTER_LOOKUP_SQL (operation_id (or_operation rc)) (pointer_key (ir_pointer r)) t"
  note m = matching_registered_row_def [of r rc t, unfolded Let_def]
  have stored: "matching_registered_row r rc t = Inr (Some r)" if "pg_stored t (ir_pointer r) = Some r"
  proof -
    from that obtain row where row: "row \<in> set t" "rw_key row = pointer_key (ir_pointer r)" "full_record row = r"
      by (auto simp: pg_stored_def find_row_iff [OF pg_invD(1) [OF assms(1)]])
    have "ir_receipt (full_record row) = rw_receipt row" by (simp add: full_record_def)
    with row(3) assms(2) have rc: "rw_receipt row = Some rc" by simp
    then have "?rows = [row]" using lookup_registered [OF assms(1) row(1)] row(2) by simp
    moreover have "record_from_receipt_row row = Inr r"
      using row rc pg_invD(3) [OF assms(1) row(1)] by (simp add: record_from_receipt_row_Inr_iff)
    ultimately show ?thesis by (simp add: m)
  qed
  show thesis
  proof (cases "first_equal r ?rows")
    case (Inl e)
    then show ?thesis using stored by (intro failed [of e]) (auto simp: m)
  next
    case (Inr found_opt)
    show ?thesis
    proof (cases found_opt)
      case (Some x)
      with Inr first_equal_Some_iff obtain row where "row \<in> set ?rows" "x = r" "record_from_receipt_row row = Inr r" by blast
      then have "row \<in> set t" "full_record row = r"
        by (auto simp: REGISTER_LOOKUP_SQL_def record_from_receipt_row_Inr_iff)
      moreover from this have "rw_key row = pointer_key (ir_pointer r)" by (auto simp: full_record_def)
      ultimately have "pg_stored t (ir_pointer r) = Some r"
        using find_row_iff [OF pg_invD(1) [OF assms(1)]] by (auto simp: pg_stored_def)
      with stored show ?thesis by (intro found) simp_all
    next
      case None
      show ?thesis
      proof (cases "?rows = []")
        case True
        then have "find_row (pointer_key (ir_pointer r)) t = None"
          by (auto simp: REGISTER_LOOKUP_SQL_def filter_empty_conv find_row_None_iff)
        with True show ?thesis by (intro free) (simp_all add: m pg_stored_def)
      next
        case False
        with Inr None have "matching_registered_row r rc t = Inl (RegistrationConflict (ir_pointer r))" by (simp add: m)
        then show ?thesis using stored by (intro failed) auto
      qed
    qed
  qed
qed

lemma pg_register_cases:
  assumes "pg_inv t"
  obtains (failed) e where "pg_register Committed r t = (t, Inl e)"
      "ir_receipt r \<noteq> None \<Longrightarrow> pg_stored t (ir_pointer r) \<noteq> Some r"
  | (found) "pg_register Committed r t = (t, Inr r)" "ir_receipt r \<noteq> None" "pg_stored t (ir_pointer r) = Some r"
  | (fresh) rc where "ir_receipt r = Some rc" "record_ok r" "pg_stored t (ir_pointer r) = None"
      "REGISTER_LOOKUP_SQL (operation_id (or_operation rc)) (pointer_key (ir_pointer r)) t = []"
      "pg_register Committed r t = (t @ [receipt_row r rc], Inr r)"
proof (cases "ir_receipt r")
  case None
  then show ?thesis by (intro failed) (simp_all add: pg_register_def raise_exn_def)
next
  case (Some rc)
  note run = pg_register_def transaction_def sbind_def gets_def lift_result_def ret_def register_insert_def Some
  show ?thesis using assms Some
  proof (cases rule: matching_cases)
    case (failed e)
    then show ?thesis by (intro that(1) [of e]) (simp_all add: run)
  next
    case found
    then show ?thesis
      by (intro that(2)) (simp_all add: run)
  next
    case free
    note insert = insert_after_lookup [OF free(3)]
    show ?thesis
    proof (cases "record_ok r")
      case True
      then have "record_from_receipt_row (receipt_row r rc) = Inr r"
        using Some by (simp add: record_from_receipt_row_Inr_iff) (simp add: receipt_row_def)
      with True free insert Some show ?thesis by (intro that(3) [of rc]) (simp_all add: run)
    next
      case False
      have "record_from_receipt_row (receipt_row r rc) \<noteq> Inr x" for x
        using False Some by (auto simp: record_from_receipt_row_Inr_iff)
      then have "\<exists>e. pg_register Committed r t = (t, Inl e)"
        using free insert by (cases "record_from_receipt_row (receipt_row r rc)") (auto simp: run)
      then show ?thesis using that(1) free by auto
    qed
  qed
qed

lemma find_row_snoc: "find_row key (t @ [row]) = (case find_row key t of Some x \<Rightarrow> Some x | None \<Rightarrow> if rw_key row = key then Some row else None)"
  by (induction t) (auto simp: find_row_def)

lemma pg_stored_snoc:
  "pg_stored t (ir_pointer r) = None \<Longrightarrow> ir_receipt r = Some rc \<Longrightarrow>
     pg_stored (t @ [receipt_row r rc]) p = (if p = ir_pointer r then Some r else pg_stored t p)"
  by (auto simp: pg_stored_def find_row_snoc split: option.splits)

lemma pg_inv_snoc:
  assumes "pg_inv t" "ir_receipt r = Some rc" "record_ok r"
    and "REGISTER_LOOKUP_SQL (operation_id (or_operation rc)) (pointer_key (ir_pointer r)) t = []"
  shows "pg_inv (t @ [receipt_row r rc])"
  using assms unfolding pg_inv_def unique_operations_def
  by (auto simp: REGISTER_LOOKUP_SQL_def filter_empty_conv)

interpretation pg: registration "pg_register Committed" pg_stored pg_inv
proof
  fix t r p x assume inv: "pg_inv t"
  show "pg_inv (fst (pg_register Committed r t))"
    using inv by (cases rule: pg_register_cases [where r = r]) (use inv pg_inv_snoc in auto)
  show "pg_stored (fst (pg_register Committed r t)) p = Some x" if "pg_stored t p = Some x"
    using inv by (cases rule: pg_register_cases [where r = r]) (use that in \<open>auto simp: pg_stored_snoc\<close>)
  show "pg_stored (fst (pg_register Committed r t)) p = pg_stored t p" if "p \<noteq> ir_pointer r"
    using inv by (cases rule: pg_register_cases [where r = r]) (use that in \<open>auto simp: pg_stored_snoc\<close>)
  show "x = r \<and> ir_receipt r \<noteq> None \<and> pg_stored t' (ir_pointer r) = Some r" if "pg_register Committed r t = (t', Inr x)" for t'
    using inv by (cases rule: pg_register_cases [where r = r]) (use that in \<open>auto simp: pg_stored_snoc\<close>)
  show "pg_register Committed r t = (t, Inr r)" if "pg_stored t (ir_pointer r) = Some r" "ir_receipt r \<noteq> None"
    using inv by (cases rule: pg_register_cases [where r = r]) (use that in auto)
qed

section \<open>Concurrent transactions\<close>

text \<open>
  Sessions of the adapter on one table, interleaved between their statements. A statement reads the
  committed table. PostgreSQL makes a conflicting insert or update wait for the transaction it conflicts
  with, so that its outcome is decided by the committed table and a writing statement and its commit are
  one step here; how long a transaction waits, and whether it ever goes on, is outside the model. A
  transaction may fail at any statement, which leaves the table as it was, and a commit that took effect
  may be reported as failed.
\<close>

datatype session =
    Registering instance_record ownership_receipt
  | Looked instance_record ownership_receipt
  | Skipped instance_record ownership_receipt
  | Registered instance_record ownership_receipt "(exn, instance_record) result"
  | Storing instance_record
  | Checked instance_record
  | Stored instance_record "(exn, instance_record) result"

type_synonym pg_world = "registry_table \<times> (nat \<Rightarrow> session)"

definition after_lookup :: "instance_record \<Rightarrow> ownership_receipt \<Rightarrow> registry_table \<Rightarrow> session" where
  "after_lookup r rc t = (case matching_registered_row r rc t of
       Inl e \<Rightarrow> Registered r rc (Inl e) | Inr (Some x) \<Rightarrow> Registered r rc (Inr x) | Inr None \<Rightarrow> Looked r rc)"

definition after_second_lookup :: "instance_record \<Rightarrow> ownership_receipt \<Rightarrow> registry_table \<Rightarrow> session" where
  "after_second_lookup r rc t = (case matching_registered_row r rc t of
       Inl e \<Rightarrow> Registered r rc (Inl e) | Inr (Some x) \<Rightarrow> Registered r rc (Inr x)
     | Inr None \<Rightarrow> Registered r rc (Inl (RegistrationConflict (ir_pointer r))))"

definition after_check :: "instance_record \<Rightarrow> registry_table \<Rightarrow> session" where
  "after_check r t = (case store_check r t of Inl e \<Rightarrow> Stored r (Inl e) | Inr _ \<Rightarrow> Checked r)"

inductive pg_step :: "pg_world \<Rightarrow> pg_world \<Rightarrow> bool" where
  lookup: "ss i = Registering r rc \<Longrightarrow> pg_step (t, ss) (t, ss(i := after_lookup r rc t))"
| insert: "ss i = Looked r rc \<Longrightarrow> REGISTER_INSERT_SQL (receipt_row r rc) t = (t', Some row) \<Longrightarrow>
    pg_step (t, ss) (t', ss(i := Registered r rc (record_from_receipt_row row)))"
| skip: "ss i = Looked r rc \<Longrightarrow> REGISTER_INSERT_SQL (receipt_row r rc) t = (t', None) \<Longrightarrow>
    pg_step (t, ss) (t, ss(i := Skipped r rc))"
| second_lookup: "ss i = Skipped r rc \<Longrightarrow> pg_step (t, ss) (t, ss(i := after_second_lookup r rc t))"
| fail_register: "ss i \<in> {Registering r rc, Looked r rc, Skipped r rc} \<Longrightarrow>
    pg_step (t, ss) (t, ss(i := Registered r rc (Inl e)))"
| check: "ss i = Storing r \<Longrightarrow> pg_step (t, ss) (t, ss(i := after_check r t))"
| upsert: "ss i = Checked r \<Longrightarrow> find_row (pointer_key (ir_pointer r)) (STORE_SQL r t) = Some row \<Longrightarrow>
    pg_step (t, ss) (STORE_SQL r t, ss(i := Stored r (record_from_row row)))"
| lost_register: "ss i = Looked r rc \<Longrightarrow> REGISTER_INSERT_SQL (receipt_row r rc) t = (t', Some row) \<Longrightarrow>
    pg_step (t, ss) (t', ss(i := Registered r rc (Inl e)))"
| lost_store: "ss i = Checked r \<Longrightarrow> pg_step (t, ss) (STORE_SQL r t, ss(i := Stored r (Inl e)))"
| fail_store: "ss i \<in> {Storing r, Checked r} \<Longrightarrow> pg_step (t, ss) (t, ss(i := Stored r (Inl e)))"

inductive_cases pg_step_cases: "pg_step (t, ss) w"

definition receipts :: "registry_table \<Rightarrow> (row_key \<times> ownership_receipt) set" where
  "receipts t = {(key, rc). (key, Some rc) \<in> set (map (\<lambda>row. (rw_key row, rw_receipt row)) t)}"

text \<open>What a session carries is valid, and a registration that returned has its receipt in the table.\<close>

fun session_ok :: "registry_table \<Rightarrow> session \<Rightarrow> bool" where
  "session_ok t (Registering r rc) \<longleftrightarrow> record_ok r \<and> ir_receipt r = Some rc"
| "session_ok t (Looked r rc) \<longleftrightarrow> record_ok r \<and> ir_receipt r = Some rc"
| "session_ok t (Skipped r rc) \<longleftrightarrow> record_ok r \<and> ir_receipt r = Some rc"
| "session_ok t (Registered r rc (Inr x)) \<longleftrightarrow> x = r \<and> ir_receipt r = Some rc \<and> (pointer_key (ir_pointer r), rc) \<in> receipts t"
| "session_ok t (Registered r rc (Inl e)) \<longleftrightarrow> True"
| "session_ok t (Storing r) \<longleftrightarrow> record_ok r"
| "session_ok t (Checked r) \<longleftrightarrow> record_ok r"
| "session_ok t (Stored r out) \<longleftrightarrow> True"

definition world_ok :: "pg_world \<Rightarrow> bool" where
  "world_ok w \<longleftrightarrow> pg_inv (fst w) \<and> (\<forall>i. session_ok (fst w) (snd w i))"

lemma receipts_member: "row \<in> set t \<Longrightarrow> rw_receipt row = Some rc \<Longrightarrow> (rw_key row, rc) \<in> receipts t"
  by (force simp: receipts_def)

lemma receipts_append [simp]: "receipts (t @ u) = receipts t \<union> receipts u"
  by (auto simp: receipts_def)

lemma session_ok_mono: "session_ok t x \<Longrightarrow> receipts t \<subseteq> receipts t' \<Longrightarrow> session_ok t' x"
  by (cases "(t, x)" rule: session_ok.cases) auto

lemma receipts_stored:
  assumes "pg_inv t" "pg_stored t (ir_pointer r) = Some r" "ir_receipt r = Some rc"
  shows "(pointer_key (ir_pointer r), rc) \<in> receipts t"
proof -
  from assms(2) obtain row where row: "row \<in> set t" "rw_key row = pointer_key (ir_pointer r)" "full_record row = r"
    by (auto simp: pg_stored_def find_row_iff [OF pg_invD(1) [OF assms(1)]])
  have "ir_receipt (full_record row) = rw_receipt row" by (simp add: full_record_def)
  with row assms(3) have "rw_receipt row = Some rc" by simp
  from receipts_member [OF row(1) this] row(2) show ?thesis by simp
qed

lemma lookup_session_ok:
  assumes "pg_inv t" "record_ok r" "ir_receipt r = Some rc"
  shows "session_ok t (after_lookup r rc t)" "session_ok t (after_second_lookup r rc t)"
  using assms(1,3)
  by (cases rule: matching_cases; simp add: after_lookup_def after_second_lookup_def assms receipts_stored)+

lemma STORE_SQL_receipts: "receipts (STORE_SQL r t) = receipts t"
proof -
  have "receipts (map (\<lambda>row. if rw_key row = key then row\<lparr>rw_resource := x\<rparr> else row) t) = receipts t" for key x
  proof -
    have "map (\<lambda>row. (rw_key row, rw_receipt row)) (map (\<lambda>row. if rw_key row = key then row\<lparr>rw_resource := x\<rparr> else row) t) =
        map (\<lambda>row. (rw_key row, rw_receipt row)) t" by simp
    then show ?thesis by (simp only: receipts_def)
  qed
  moreover have "receipts [\<lparr>rw_key = key, rw_resource = x, rw_receipt = None\<rparr>] = {}" for key x by (simp add: receipts_def)
  ultimately show ?thesis by (simp add: STORE_SQL_def Let_def)
qed

lemma unique_operations_snoc: "unique_operations t \<Longrightarrow> row_operation row = None \<Longrightarrow> unique_operations (t @ [row])"
  unfolding unique_operations_def by (metis (no_types, lifting) Un_iff empty_iff insert_iff list.set(1,2) set_append)

lemma pg_inv_map:
  assumes "pg_inv t" "\<And>x. rw_key (f x) = rw_key x" "\<And>x. row_operation (f x) = row_operation x"
    and "\<And>x. x \<in> set t \<Longrightarrow> record_ok (full_record (f x))"
  shows "pg_inv (map f t)"
  unfolding pg_inv_def
proof (intro conjI)
  have "rw_key \<circ> f = rw_key" using assms(2) by auto
  then show "distinct (map rw_key (map f t))" using assms(1) by (simp add: pg_inv_def)
  show "unique_operations (map f t)"
    unfolding unique_operations_def set_map ball_simps assms(3)
    using assms(1) by (auto simp: pg_inv_def unique_operations_def)
  show "\<forall>row \<in> set (map f t). record_ok (full_record row)" using assms(4) by simp
qed

lemma STORE_SQL_inv:
  assumes "pg_inv t" "record_ok r" shows "pg_inv (STORE_SQL r t)"
proof (cases "find_row (pointer_key (ir_pointer r)) t")
  case None
  then have "pointer_key (ir_pointer r) \<notin> rw_key ` set t" by (auto simp: find_row_None_iff)
  moreover have "record_ok (full_record \<lparr>rw_key = pointer_key (ir_pointer r), rw_resource = ir_resource r, rw_receipt = None\<rparr>)"
    using assms(2) by (simp add: full_record_def record_ok_def)
  moreover have "unique_operations (t @ [\<lparr>rw_key = pointer_key (ir_pointer r), rw_resource = ir_resource r, rw_receipt = None\<rparr>])"
    using assms(1) by (intro unique_operations_snoc) (simp_all add: pg_inv_def row_operation_def)
  ultimately show ?thesis using assms(1) None by (simp add: pg_inv_def STORE_SQL_def Let_def)
next
  case (Some row)
  let ?f = "\<lambda>row. if rw_key row = pointer_key (ir_pointer r) then row\<lparr>rw_resource := ir_resource r\<rparr> else row"
  have "STORE_SQL r t = map ?f t" using Some by (simp add: STORE_SQL_def Let_def)
  moreover have "pg_inv (map ?f t)"
  proof (rule pg_inv_map [OF assms(1)])
    show "record_ok (full_record (?f x))" if "x \<in> set t" for x
      using pg_invD(3) [OF assms(1) that] assms(2) by (auto simp: full_record_def record_ok_def)
  qed (simp_all add: row_operation_def)
  ultimately show ?thesis by simp
qed

lemma insert_Some:
  assumes "REGISTER_INSERT_SQL (receipt_row r rc) t = (t', Some row)"
  shows "row = receipt_row r rc" "t' = t @ [row]"
    "REGISTER_LOOKUP_SQL (operation_id (or_operation rc)) (pointer_key (ir_pointer r)) t = []"
  using assms by (auto simp: REGISTER_INSERT_SQL_def REGISTER_LOOKUP_SQL_def filter_empty_conv list_ex_iff split: if_splits)

lemma world_ok_upd:
  assumes "world_ok (t, ss)" "pg_inv t'" "receipts t \<subseteq> receipts t'" "session_ok t' x"
  shows "world_ok (t', ss(i := x))"
  using assms by (auto simp: world_ok_def intro: session_ok_mono)

lemma insert_inv:
  assumes "pg_inv t" "record_ok r" "ir_receipt r = Some rc" "REGISTER_INSERT_SQL (receipt_row r rc) t = (t', Some row)"
  shows "pg_inv t'" "receipts t \<subseteq> receipts t'" "(pointer_key (ir_pointer r), rc) \<in> receipts t'"
proof -
  note row = insert_Some [OF assms(4)]
  show "pg_inv t'" using pg_inv_snoc [OF assms(1,3,2) row(3)] row by simp
  show "receipts t \<subseteq> receipts t'" "(pointer_key (ir_pointer r), rc) \<in> receipts t'"
    using row(1,2) receipts_member [of "receipt_row r rc" t' rc] by (simp_all add: receipt_row_def)
qed

lemma pg_step_inv:
  assumes "world_ok w" "pg_step w w'"
  shows "world_ok w' \<and> receipts (fst w) \<subseteq> receipts (fst w')"
  using assms(2,1)
proof (cases rule: pg_step.cases)
  case (insert ss i r rc t t' row)
  have ok: "pg_inv t" "record_ok r" "ir_receipt r = Some rc"
    using assms(1) insert by (auto simp: world_ok_def dest: spec [of _ i])
  have "record_from_receipt_row row = Inr r"
    using ok by (simp add: record_from_receipt_row_Inr_iff insert_Some(1) [OF insert(4)]) (simp add: receipt_row_def)
  with insert_inv [OF ok insert(4)] show ?thesis using insert assms(1) ok world_ok_upd by simp
next
  case (lost_register ss i r rc t t' row e)
  then have "pg_inv t" "record_ok r" "ir_receipt r = Some rc" using assms(1) by (auto simp: world_ok_def dest: spec [of _ i])
  from insert_inv [OF this lost_register(4)] show ?thesis using lost_register assms(1) world_ok_upd by simp
next
  case (lost_store ss i r t e)
  then have "pg_inv t" "record_ok r" using assms(1) by (auto simp: world_ok_def dest: spec [of _ i])
  then have "pg_inv (STORE_SQL r t)" by (rule STORE_SQL_inv)
  with lost_store assms(1) world_ok_upd show ?thesis by (simp add: STORE_SQL_receipts)
next
  case (upsert ss i r t row)
  then have "pg_inv t" "record_ok r" using assms(1) by (auto simp: world_ok_def dest: spec [of _ i])
  then have "pg_inv (STORE_SQL r t)" by (rule STORE_SQL_inv)
  with upsert assms(1) world_ok_upd show ?thesis by (simp add: STORE_SQL_receipts)
next
  case (lookup ss i r rc t)
  then have "pg_inv t" "record_ok r" "ir_receipt r = Some rc" using assms(1) by (auto simp: world_ok_def dest: spec [of _ i])
  with lookup assms(1) show ?thesis by (simp add: world_ok_upd lookup_session_ok)
next
  case (second_lookup ss i r rc t)
  then have "pg_inv t" "record_ok r" "ir_receipt r = Some rc" using assms(1) by (auto simp: world_ok_def dest: spec [of _ i])
  with second_lookup assms(1) show ?thesis by (simp add: world_ok_upd lookup_session_ok)
next
  case (check ss i r t)
  then have "pg_inv t" "session_ok t (after_check r t)" using assms(1)
    by (auto simp: world_ok_def after_check_def dest: spec [of _ i] split: sum.splits)
  with check assms(1) show ?thesis by (simp add: world_ok_upd)
next
  case (skip ss i r rc t t')
  then have "pg_inv t" "session_ok t (Skipped r rc)" using assms(1) by (auto simp: world_ok_def dest: spec [of _ i])
  with skip assms(1) show ?thesis by (simp add: world_ok_upd del: session_ok.simps)
qed (use assms(1) in \<open>simp_all add: world_ok_def\<close>)

lemma reachable_inv:
  assumes "pg_step\<^sup>*\<^sup>* w w'" "world_ok w"
  shows "world_ok w' \<and> receipts (fst w) \<subseteq> receipts (fst w')"
  using assms
proof (induction rule: rtranclp_induct)
  case (step w1 w2)
  then show ?case using pg_step_inv [of w1 w2] by blast
qed simp

lemma receipts_unique:
  assumes "pg_inv t" "(k, rc) \<in> receipts t" "(k', rc') \<in> receipts t"
    and "k = k' \<or> operation_id (or_operation rc) = operation_id (or_operation rc')"
  shows "k = k' \<and> rc = rc'"
proof -
  from assms(2,3) obtain x y where x: "x \<in> set t" "rw_key x = k" "rw_receipt x = Some rc"
    and y: "y \<in> set t" "rw_key y = k'" "rw_receipt y = Some rc'" by (auto simp: receipts_def)
  from assms(4) have "x = y"
  proof
    assume "k = k'"
    with x y show ?thesis using pg_invD(4) [OF assms(1)] by blast
  next
    assume "operation_id (or_operation rc) = operation_id (or_operation rc')"
    with x y show ?thesis using pg_invD(5) [OF assms(1), of x y] by (simp add: row_operation_def)
  qed
  with x y show ?thesis by simp
qed

definition demo_pointer :: instance_pointer where
  "demo_pointer = \<lparr>ip_scope = \<lparr>ps_tenant = ''acme'', ps_project_id = ''shop''\<rparr>, ip_instance_id = ''prod''\<rparr>"

definition demo_receipt :: ownership_receipt where
  "demo_receipt = \<lparr>or_operation = \<lparr>operation_id = ''docker:op-1'', request_digest = ''d1''\<rparr>,
     or_owned_resource_ids = [''c1''], or_live_proof_expected = True\<rparr>"

definition demo_resource :: resource_ref where
  "demo_resource = \<lparr>rf_identifier = ''shop-prod'', rf_resource_kind = ''container'', rf_ownership = Created\<rparr>"

definition demo_record :: instance_record where
  "demo_record = \<lparr>ir_pointer = demo_pointer, ir_resource = demo_resource, ir_receipt = Some demo_receipt\<rparr>"

definition demo_overwrite :: instance_record where
  "demo_overwrite = \<lparr>ir_pointer = demo_pointer, ir_resource = demo_resource\<lparr>rf_identifier := ''other''\<rparr>, ir_receipt = None\<rparr>"

text \<open>C27: whatever transactions run interleaved on the registry table, it keeps its primary key and the
  uniqueness of operation ids, no receipt is ever lost or changed, and registrations that returned
  agree: each returned its own record, and two for the same instance or under the same operation are
  for the same instance with the same receipt.\<close>

theorem registrations_agree:
  assumes "pg_step\<^sup>*\<^sup>* (t0, ss0) (t, ss)" "world_ok (t0, ss0)"
    and "ss i = Registered r rc (Inr x)" "ss j = Registered r' rc' (Inr x')"
    and "ir_pointer r = ir_pointer r' \<or> operation_id (or_operation rc) = operation_id (or_operation rc')"
  shows "pg_inv t \<and> receipts t0 \<subseteq> receipts t \<and> x = r \<and> x' = r' \<and> ir_pointer r = ir_pointer r' \<and> rc = rc' \<and>
    (pointer_key (ir_pointer r), rc) \<in> receipts t"
proof -
  from reachable_inv [OF assms(1,2)] have ok: "pg_inv t" "receipts t0 \<subseteq> receipts t" "session_ok t (ss i)" "session_ok t (ss j)"
    by (simp_all add: world_ok_def)
  with assms(3,4) have "x = r" "x' = r'" "(pointer_key (ir_pointer r), rc) \<in> receipts t" "(pointer_key (ir_pointer r'), rc') \<in> receipts t"
    by simp_all
  with receipts_unique [OF ok(1) this(3,4)] assms(5) ok show ?thesis by auto
qed

text \<open>Two sessions looked before either inserted: the second one finds the first one's row.\<close>

lemma demo_run:
  "pg_step\<^sup>*\<^sup>* ([], \<lambda>_. Registering demo_record demo_receipt)
     ([receipt_row demo_record demo_receipt],
      (\<lambda>_. Registering demo_record demo_receipt)(0 := Registered demo_record demo_receipt (Inr demo_record),
        1 := Registered demo_record demo_receipt (Inr demo_record)))"
proof -
  let ?s = "\<lambda>_ :: nat. Registering demo_record demo_receipt" and ?L = "Looked demo_record demo_receipt"
  let ?R = "Registered demo_record demo_receipt (Inr demo_record)" and ?row = "receipt_row demo_record demo_receipt"
  have look: "after_lookup demo_record demo_receipt [] = ?L" by (simp add: after_lookup_def matching_registered_row_def REGISTER_LOOKUP_SQL_def)
  have ins: "REGISTER_INSERT_SQL ?row [] = ([?row], Some ?row)" "REGISTER_INSERT_SQL ?row [?row] = ([?row], None)"
    by (simp_all add: REGISTER_INSERT_SQL_def)
  have found: "record_from_receipt_row ?row = Inr demo_record" by code_simp
  have again: "after_second_lookup demo_record demo_receipt [?row] = ?R" by code_simp
  have "pg_step ([], ?s) ([], ?s(0 := ?L))" using pg_step.lookup [of ?s 0 demo_record demo_receipt "[]"] by (simp add: look)
  moreover have "pg_step ([], ?s(0 := ?L)) ([], ?s(0 := ?L, 1 := ?L))"
    using pg_step.lookup [of "?s(0 := ?L)" 1 demo_record demo_receipt "[]"] by (simp add: look)
  moreover have "pg_step ([], ?s(0 := ?L, 1 := ?L)) ([?row], ?s(0 := ?R, 1 := ?L))"
    using pg_step.insert [of "?s(0 := ?L, 1 := ?L)" 0, OF _ ins(1)] by (simp add: found fun_upd_twist)
  moreover have "pg_step ([?row], ?s(0 := ?R, 1 := ?L)) ([?row], ?s(0 := ?R, 1 := Skipped demo_record demo_receipt))"
    using pg_step.skip [of "?s(0 := ?R, 1 := ?L)" 1, OF _ ins(2)] by simp
  moreover have "pg_step ([?row], ?s(0 := ?R, 1 := Skipped demo_record demo_receipt)) ([?row], ?s(0 := ?R, 1 := ?R))"
    using pg_step.second_lookup [of "?s(0 := ?R, 1 := Skipped demo_record demo_receipt)" 1 demo_record demo_receipt "[?row]"] by (simp add: again)
  ultimately show ?thesis by (meson converse_rtranclp_into_rtranclp rtranclp.rtrancl_refl)
qed

lemma demo_world_ok: "world_ok ([], \<lambda>_. Registering demo_record demo_receipt)"
  by (simp add: world_ok_def pg_inv_def unique_operations_def demo_record_def record_ok_def demo_pointer_def demo_receipt_def
      demo_resource_def pointer_ok_def scope_ok_def resource_ref_ok_def)

theorem registrations_agree_witness:
  "receipts [receipt_row demo_record demo_receipt] \<supseteq> {(pointer_key demo_pointer, demo_receipt)}"
proof -
  let ?ss = "(\<lambda>_. Registering demo_record demo_receipt)(0 := Registered demo_record demo_receipt (Inr demo_record),
      1 := Registered demo_record demo_receipt (Inr demo_record))"
  have "?ss 0 = Registered demo_record demo_receipt (Inr demo_record)" "?ss 1 = Registered demo_record demo_receipt (Inr demo_record)"
    by simp_all
  from registrations_agree [OF demo_run demo_world_ok this] show ?thesis by (simp add: demo_record_def)
qed

text \<open>A store whose check found the instance free, run after a registration of the instance committed.\<close>

lemma STORE_SQL_after_insert:
  assumes "pointer_key (ir_pointer r) \<notin> rw_key ` set t" "ir_pointer q = ir_pointer r"
  shows "STORE_SQL q (t @ [receipt_row r rc]) = t @ [(receipt_row r rc)\<lparr>rw_resource := ir_resource q\<rparr>]"
proof -
  have "map (\<lambda>row. if rw_key row = pointer_key (ir_pointer r) then row\<lparr>rw_resource := ir_resource q\<rparr> else row) t = t"
    using assms(1) by (intro map_idI) (metis image_eqI)
  moreover have "find_row (pointer_key (ir_pointer r)) (t @ [receipt_row r rc]) \<noteq> None"
    by (auto simp: find_row_None_iff receipt_row_def)
  ultimately show ?thesis using assms(2) by (simp add: STORE_SQL_def Let_def)
qed

lemma record_from_row_stored:
  "record_ok q \<Longrightarrow> rw_key row = pointer_key (ir_pointer q) \<Longrightarrow> rw_resource row = ir_resource q \<Longrightarrow>
     record_from_row row = Inr (q\<lparr>ir_receipt := None\<rparr>)"
  by (simp add: record_from_row_def record_ok_def Let_def)

text \<open>C28: take any table in which neither an instance nor an operation occurs, a store of the instance and a
  registration of it under that operation, both about to start among any other sessions. The two can
  interleave so that both return success while the store rewrites the resource of the row that the
  registration inserted: the row carries the receipt, and what the table holds for the instance is no longer
  what was registered.\<close>

theorem store_overwrites_registered_row:
  assumes "ss i = Storing q" "ss j = Registering r rc" "record_ok q" "record_ok r" "ir_receipt r = Some rc"
    and "ir_pointer q = ir_pointer r"
    and "REGISTER_LOOKUP_SQL (operation_id (or_operation rc)) (pointer_key (ir_pointer r)) t = []"
  shows "\<exists>t' ss'. pg_step\<^sup>*\<^sup>* (t, ss) (t', ss') \<and> t' = t @ [(receipt_row r rc)\<lparr>rw_resource := ir_resource q\<rparr>] \<and>
    ss' i = Stored q (Inr (q\<lparr>ir_receipt := None\<rparr>)) \<and> ss' j = Registered r rc (Inr r) \<and>
    pg_stored t' (ir_pointer r) = Some (r\<lparr>ir_resource := ir_resource q\<rparr>)"
proof -
  let ?row = "receipt_row r rc" and ?C = "Checked q" and ?L = "Looked r rc" and ?R = "Registered r rc (Inr r)"
  let ?new = "?row\<lparr>rw_resource := ir_resource q\<rparr>" and ?S = "Stored q (Inr (q\<lparr>ir_receipt := None\<rparr>))"
  have ij: "i \<noteq> j" using assms(1,2) by auto
  have free: "pointer_key (ir_pointer r) \<notin> rw_key ` set t" using assms(7) by (auto simp: REGISTER_LOOKUP_SQL_def filter_empty_conv)
  then have none: "find_row (pointer_key (ir_pointer r)) t = None" by (metis find_row_None_iff image_eqI)
  have new: "find_row (pointer_key (ir_pointer r)) (t @ [?new]) = Some ?new"
    by (simp add: find_row_snoc none)
  have read: "record_from_receipt_row ?row = Inr r"
    using assms(4,5) by (simp add: record_from_receipt_row_Inr_iff) (simp add: receipt_row_def)
  have "after_check q t = ?C" "after_lookup r rc t = ?L"
    using none assms(6,7) by (simp_all add: after_check_def store_check_def after_lookup_def matching_registered_row_def)
  then have "pg_step (t, ss) (t, ss(i := ?C))" "pg_step (t, ss(i := ?C)) (t, ss(i := ?C, j := ?L))"
    using pg_step.check [of ss i q t, OF assms(1)] pg_step.lookup [of "ss(i := ?C)" j r rc t] assms(2) ij by simp_all
  moreover have "pg_step (t, ss(i := ?C, j := ?L)) (t @ [?row], ss(i := ?C, j := ?R))"
    using pg_step.insert [of "ss(i := ?C, j := ?L)" j r rc, OF _ insert_after_lookup [OF assms(7)]] by (simp add: read)
  moreover have "pg_step (t @ [?row], ss(i := ?C, j := ?R)) (t @ [?new], ss(j := ?R, i := ?S))"
    using pg_step.upsert [of "ss(i := ?C, j := ?R)" i q "t @ [?row]" ?new] ij assms(6) new
      record_from_row_stored [OF assms(3), of ?new] STORE_SQL_after_insert [OF free assms(6), of rc]
    by (simp add: fun_upd_twist)
  ultimately have "pg_step\<^sup>*\<^sup>* (t, ss) (t @ [?new], ss(j := ?R, i := ?S))"
    by (meson converse_rtranclp_into_rtranclp rtranclp.rtrancl_refl)
  moreover have "pg_stored (t @ [?new]) (ir_pointer r) = Some (r\<lparr>ir_resource := ir_resource q\<rparr>)"
    using assms(5) by (simp add: pg_stored_def new) (simp add: full_record_def receipt_row_def)
  ultimately show ?thesis using ij by (intro exI [of _ "t @ [?new]"] exI [of _ "ss(j := ?R, i := ?S)"]) simp
qed

theorem store_overwrites_registered_row_witness:
  "\<exists>t ss. pg_step\<^sup>*\<^sup>* ([], (\<lambda>_. Storing demo_overwrite)(1 := Registering demo_record demo_receipt)) (t, ss) \<and>
    ss 1 = Registered demo_record demo_receipt (Inr demo_record) \<and>
    pg_stored t demo_pointer = Some (demo_record\<lparr>ir_resource := demo_resource\<lparr>rf_identifier := ''other''\<rparr>\<rparr>) \<and>
    pg_stored t demo_pointer \<noteq> Some demo_record"
proof -
  let ?ss = "(\<lambda>_ :: nat. Storing demo_overwrite)(1 := Registering demo_record demo_receipt)"
  have ok: "record_ok demo_overwrite" "record_ok demo_record" "ir_receipt demo_record = Some demo_receipt"
    "ir_pointer demo_overwrite = ir_pointer demo_record" by code_simp+
  have diff: "demo_record\<lparr>ir_resource := demo_resource\<lparr>rf_identifier := ''other''\<rparr>\<rparr> \<noteq> demo_record" by code_simp
  have "?ss 0 = Storing demo_overwrite" "?ss 1 = Registering demo_record demo_receipt" by simp_all
  from store_overwrites_registered_row [OF this ok, of "[]"]
  obtain t ss where "pg_step\<^sup>*\<^sup>* ([], ?ss) (t, ss)" "ss 1 = Registered demo_record demo_receipt (Inr demo_record)"
    "pg_stored t (ir_pointer demo_record) = Some (demo_record\<lparr>ir_resource := ir_resource demo_overwrite\<rparr>)"
    by (auto simp only: REGISTER_LOOKUP_SQL_def filter.simps)
  moreover have "ir_pointer demo_record = demo_pointer" "ir_resource demo_overwrite = demo_resource\<lparr>rf_identifier := ''other''\<rparr>"
    by (simp_all add: demo_record_def demo_overwrite_def)
  ultimately show ?thesis using diff by (metis option.inject)
qed

end
