(* ===== verification/Backend_Plan.thy ===== *)
theory Backend_Plan
  imports Demo_Project
begin

text \<open>
  The local backend: naming and status of an instance (\<open>backend/status.py\<close>) and the plan of its
  network, volumes and containers (\<open>backend/plan.py\<close>). SHA-256 is the parameter \<open>sha\<close>, the text to
  its hexadecimal digest. The JSON of \<open>docker inspect\<close> is a \<^typ>\<open>json\<close> value; reading an attribute of
  something that is not a dict raises \<open>AttributeError\<close>.
\<close>

section \<open>Names\<close>

definition VALID_CHAR :: "char \<Rightarrow> bool" where
  "VALID_CHAR c \<longleftrightarrow> is_lower c \<or> is_digit c \<or> c = CHR ''_'' \<or> c = CHR ''.'' \<or> c = CHR ''-''"

definition VALID_FIRST_CHAR :: "char \<Rightarrow> bool" where
  "VALID_FIRST_CHAR c \<longleftrightarrow> is_lower c \<or> is_digit c"

definition HASH_LEN :: nat where "HASH_LEN = 8"

definition sanitize_name :: "(string \<Rightarrow> string) \<Rightarrow> string \<Rightarrow> string" where
  "sanitize_name sha raw =
     (let lowered = py_lower raw;
          cleaned = filter VALID_CHAR lowered;
          lossy = (lowered \<noteq> raw \<or> cleaned \<noteq> lowered);
          (cleaned, lossy) =
            (case cleaned of
               [] \<Rightarrow> ([], True)
             | c # _ \<Rightarrow> if VALID_FIRST_CHAR c then (cleaned, lossy) else (CHR ''x'' # cleaned, True))
      in if \<not> lossy then cleaned
         else (if cleaned = [] then ''x'' else cleaned) @ ''-'' @ take HASH_LEN (sha raw))"

record instance_ref =
  ref_project :: string
  ref_instance :: string
  ref_network :: string
  ref_postgres_container :: string
  ref_odoo_container :: string

definition derive_instance_ref :: "(string \<Rightarrow> string) \<Rightarrow> manifest \<Rightarrow> string \<Rightarrow> instance_ref" where
  "derive_instance_ref sha m inst =
     (let project = sanitize_name sha (m_name m); normalized = sanitize_name sha inst;
          network = ''odoo-forge-'' @ project @ ''-'' @ normalized in
      \<lparr>ref_project = project, ref_instance = normalized, ref_network = network,
       ref_postgres_container = network @ ''-db'', ref_odoo_container = network @ ''-odoo''\<rparr>)"

section \<open>Status\<close>

datatype role_state = Exited | Starting | Unhealthy | Healthy | NoHealthcheck | UnknownState

datatype container_role = OdooRole | PostgresRole

record role_status =
  rs_running :: bool
  rs_state :: role_state
  rs_ready :: bool

record instance_status =
  is_odoo :: role_status
  is_postgres :: role_status

datatype status_error = AttributeErr | UnhashableErr | NotIterableErr

definition NOT_RUNNING :: role_status where
  "NOT_RUNNING = \<lparr>rs_running = False, rs_state = Exited, rs_ready = False\<rparr>"

text \<open>\<open>bool(x)\<close> of a decoded JSON value; a float is false when all its mantissa digits are zero.\<close>

definition float_mantissa :: "string \<Rightarrow> string" where
  "float_mantissa w = takeWhile (\<lambda>c. c \<noteq> CHR ''e'' \<and> c \<noteq> CHR ''E'') w"

fun py_truthy :: "json \<Rightarrow> bool" where
  "py_truthy JNull = False"
| "py_truthy (JBool b) = b"
| "py_truthy (JInt i) = (i \<noteq> 0)"
| "py_truthy (JFloat w) = list_ex (\<lambda>c. c \<notin> set ''-0.'') (float_mantissa w)"
| "py_truthy (JStr s) = (s \<noteq> [])"
| "py_truthy (JArr vs) = (vs \<noteq> [])"
| "py_truthy (JObj kvs) = (kvs \<noteq> [])"

text \<open>\<open>x.get(key, default)\<close>.\<close>

fun dict_get :: "string \<Rightarrow> json \<Rightarrow> json \<Rightarrow> (status_error, json) result" where
  "dict_get key dflt (JObj kvs) = Inr (case map_of kvs key of None \<Rightarrow> dflt | Some v \<Rightarrow> v)"
| "dict_get key dflt _ = Inl AttributeErr"

definition health_status :: "json \<Rightarrow> json" where
  "health_status health =
     (case health of JObj kvs \<Rightarrow> (case map_of kvs ''Status'' of None \<Rightarrow> JNull | Some v \<Rightarrow> v) | _ \<Rightarrow> JNull)"

definition judge_role :: "container_role \<Rightarrow> json option \<Rightarrow> (status_error, role_status) result" where
  "judge_role role container =
     (case container of None \<Rightarrow> Inr NOT_RUNNING
      | Some c \<Rightarrow>
          rbind (dict_get ''State'' JNull c) (\<lambda>st0.
          let st = (if py_truthy st0 then st0 else JObj []) in
          rbind (dict_get ''Running'' JNull st) (\<lambda>running.
          if \<not> py_truthy running then Inr NOT_RUNNING
          else rbind (dict_get ''Health'' JNull st) (\<lambda>health.
            let status = health_status health in
            if status = JStr ''healthy'' then Inr \<lparr>rs_running = True, rs_state = Healthy, rs_ready = True\<rparr>
            else if status = JStr ''starting'' then Inr \<lparr>rs_running = True, rs_state = Starting, rs_ready = False\<rparr>
            else if status = JStr ''unhealthy'' then Inr \<lparr>rs_running = True, rs_state = Unhealthy, rs_ready = False\<rparr>
            else if role = PostgresRole then Inr \<lparr>rs_running = True, rs_state = NoHealthcheck, rs_ready = False\<rparr>
            else Inr \<lparr>rs_running = True, rs_state = UnknownState, rs_ready = False\<rparr>))))"

text \<open>What iterating over the decoded value yields.\<close>

fun inspected_containers :: "json \<Rightarrow> (status_error, json list) result" where
  "inspected_containers JNull = Inr []"
| "inspected_containers (JObj kvs) = Inr [JObj kvs]"
| "inspected_containers (JArr vs) = Inr vs"
| "inspected_containers (JStr s) = Inr (map (\<lambda>c. JStr [c]) s)"
| "inspected_containers _ = Inl NotIterableErr"

definition role_label :: "json \<Rightarrow> (status_error, json) result" where
  "role_label container =
     rbind (dict_get ''Config'' (JObj []) container) (\<lambda>config.
     rbind (dict_get ''Labels'' (JObj []) config) (\<lambda>labels.
     dict_get ''com.odoo-forge.role'' JNull labels))"

definition put_by_role :: "json \<Rightarrow> (json \<times> json) list \<Rightarrow> (status_error, (json \<times> json) list) result" where
  "put_by_role container by_role =
     rbind (role_label container) (\<lambda>role.
     if \<not> py_truthy role then Inr by_role
     else case role of
       JArr _ \<Rightarrow> Inl UnhashableErr
     | JObj _ \<Rightarrow> Inl UnhashableErr
     | _ \<Rightarrow> Inr (AList.update role container by_role))"

definition parse_status :: "json \<Rightarrow> (status_error, instance_status) result" where
  "parse_status inspect_json =
     rbind (inspected_containers inspect_json) (\<lambda>containers.
     rbind (rfold put_by_role containers []) (\<lambda>by_role.
     rbind (judge_role OdooRole (map_of by_role (JStr ''odoo''))) (\<lambda>odoo.
     rbind (judge_role PostgresRole (map_of by_role (JStr ''postgres''))) (\<lambda>postgres.
     Inr \<lparr>is_odoo = odoo, is_postgres = postgres\<rparr>))))"

section \<open>The plan\<close>

record bind_mount =
  bm_root :: string
  bm_host_path :: string
  bm_container_path :: string
  bm_read_only :: bool

record named_spec =
  ns_name :: string
  ns_labels :: "(string \<times> string) list"

record container_spec =
  cs_name :: string
  cs_image :: string
  cs_role :: container_role
  cs_network :: string
  cs_env :: "(string \<times> string) list"
  cs_secret_env :: "(string \<times> string) list"
  cs_mounts :: "bind_mount list"
  cs_labels :: "(string \<times> string) list"
  cs_volumes :: "named_spec list"
  cs_bind_host :: string
  cs_ports :: "(string \<times> int option) list"

record backend_plan =
  bp_network :: named_spec
  bp_volumes :: "named_spec list"
  bp_postgres :: container_spec
  bp_odoo :: container_spec
  bp_postgres_credentials :: "string option"

datatype plan_error = PartsIndexErr | AddonsRootErr workspace_error

definition DEFAULT_ODOO_BIND_HOST :: string where "DEFAULT_ODOO_BIND_HOST = ''127.0.0.1''"

definition forge_labels :: "string \<Rightarrow> string \<Rightarrow> string option \<Rightarrow> (string \<times> string) list" where
  "forge_labels project inst role =
     [(''com.odoo-forge.project'', project), (''com.odoo-forge.instance'', inst), (''com.odoo-forge.managed'', ''true'')]
     @ (case role of None \<Rightarrow> [] | Some r \<Rightarrow> [(''com.odoo-forge.role'', r)])"

definition bind_mount_of :: "mount_evidence \<Rightarrow> (plan_error, bind_mount) result" where
  "bind_mount_of e = (let parts = path_parts (me_container_path e) in
     if length parts \<le> 2 then Inl PartsIndexErr
     else Inr \<lparr>bm_root = parts ! 2, bm_host_path = path_str (me_source_path e),
               bm_container_path = path_str (me_container_path e), bm_read_only = me_read_only e\<rparr>)"

definition odoo_settings :: "manifest \<Rightarrow> int option \<times> string" where
  "odoo_settings m = (case m_backend m of None \<Rightarrow> (None, DEFAULT_ODOO_BIND_HOST)
     | Some b \<Rightarrow> (case bc_odoo b of None \<Rightarrow> (None, DEFAULT_ODOO_BIND_HOST) | Some c \<Rightarrow> (http_port c, bind_host c)))"

definition postgres_spec :: "instance_ref \<Rightarrow> named_spec \<Rightarrow> container_spec" where
  "postgres_spec ref pgdata =
     \<lparr>cs_name = ref_postgres_container ref, cs_image = ''postgres:16'', cs_role = PostgresRole,
      cs_network = ref_network ref,
      cs_env = [(''POSTGRES_USER'', ''odoo''), (''POSTGRES_DB'', ref_project ref)],
      cs_secret_env = [], cs_mounts = [],
      cs_labels = forge_labels (ref_project ref) (ref_instance ref) (Some ''postgres''),
      cs_volumes = [pgdata], cs_bind_host = DEFAULT_ODOO_BIND_HOST, cs_ports = []\<rparr>"

definition odoo_spec ::
    "manifest \<Rightarrow> instance_ref \<Rightarrow> string option \<Rightarrow> string option \<Rightarrow> bind_mount list \<Rightarrow> path list \<Rightarrow> named_spec \<Rightarrow> container_spec" where
  "odoo_spec m ref odoo_image password mounts addons filestore =
     \<lparr>cs_name = ref_odoo_container ref,
      cs_image = (case odoo_image of Some i \<Rightarrow> i | None \<Rightarrow> ''odoo-forge-odoo:'' @ m_odoo_version m),
      cs_role = OdooRole, cs_network = ref_network ref,
      cs_env = [(''DB_HOST'', ref_postgres_container ref), (''DB_PORT'', ''5432''), (''DB_USER'', ''odoo''),
        (''POSTGRES_DB'', ref_project ref), (''FORGE_ADDONS_PATH_ORDER'', join_with '','' (map path_str addons))],
      cs_secret_env = (case password of Some h \<Rightarrow> [(''DB_PASSWORD'', h)] | None \<Rightarrow> []),
      cs_mounts = mounts,
      cs_labels = forge_labels (ref_project ref) (ref_instance ref) (Some ''odoo''),
      cs_volumes = [filestore], cs_bind_host = snd (odoo_settings m),
      cs_ports = [(''8069'', fst (odoo_settings m)), (''8072'', None)]\<rparr>"

definition plan_backend ::
    "(string \<Rightarrow> string) \<Rightarrow> manifest \<Rightarrow> mount_evidence list \<Rightarrow> string \<Rightarrow> string option \<Rightarrow> string option \<Rightarrow> string option
     \<Rightarrow> (plan_error, backend_plan) result" where
  "plan_backend sha m view inst odoo_image password postgres_credentials =
     rbind (rmap bind_mount_of view) (\<lambda>mounts.
     let ref = derive_instance_ref sha m inst;
         labels = forge_labels (ref_project ref) (ref_instance ref);
         pgdata = \<lparr>ns_name = ref_network ref @ ''-pgdata'', ns_labels = labels (Some ''postgres'')\<rparr>;
         filestore = \<lparr>ns_name = ref_network ref @ ''-filestore'', ns_labels = labels (Some ''odoo'')\<rparr> in
     case ordered_addons_roots m CONTAINER_MOUNT_BASE of
       Inl e \<Rightarrow> Inl (AddonsRootErr e)
     | Inr addons \<Rightarrow>
         Inr \<lparr>bp_network = \<lparr>ns_name = ref_network ref, ns_labels = labels None\<rparr>,
              bp_volumes = [pgdata, filestore],
              bp_postgres = postgres_spec ref pgdata,
              bp_odoo = odoo_spec m ref odoo_image password mounts addons filestore,
              bp_postgres_credentials = postgres_credentials\<rparr>)"

text \<open>\<open>instance_ref(plan)\<close>; \<open>None\<close> is the \<open>KeyError\<close> of a missing label.\<close>

definition instance_ref_of :: "backend_plan \<Rightarrow> instance_ref option" where
  "instance_ref_of plan =
     (case map_of (ns_labels (bp_network plan)) ''com.odoo-forge.project'' of None \<Rightarrow> None
      | Some project \<Rightarrow>
          (case map_of (ns_labels (bp_network plan)) ''com.odoo-forge.instance'' of None \<Rightarrow> None
           | Some inst \<Rightarrow>
               Some \<lparr>ref_project = project, ref_instance = inst, ref_network = ns_name (bp_network plan),
                     ref_postgres_container = cs_name (bp_postgres plan), ref_odoo_container = cs_name (bp_odoo plan)\<rparr>))"

section \<open>Names are tokens docker accepts\<close>

definition docker_token :: "string \<Rightarrow> bool" where
  "docker_token s \<longleftrightarrow> s \<noteq> [] \<and> VALID_FIRST_CHAR (hd s) \<and> list_all VALID_CHAR s"

definition hex_text :: "string \<Rightarrow> bool" where
  "hex_text s \<longleftrightarrow> list_all (\<lambda>c. is_digit c \<or> in_range 97 102 c) s"

lemma valid_char_facts:
  "VALID_FIRST_CHAR c \<Longrightarrow> VALID_CHAR c" "VALID_CHAR c \<Longrightarrow> lower_char c = c"
  "VALID_FIRST_CHAR (CHR ''x'')" "VALID_CHAR (CHR ''-'')"
  by (auto simp: VALID_FIRST_CHAR_def VALID_CHAR_def lower_char_def in_range_def cp_def)

lemma hex_text_valid: "hex_text s \<Longrightarrow> list_all VALID_CHAR (take n s)"
  by (auto simp: hex_text_def list_all_iff VALID_CHAR_def in_range_def dest!: in_set_takeD)

lemma py_lower_valid: "list_all VALID_CHAR s \<Longrightarrow> py_lower s = s"
  by (auto simp: py_lower_def list_all_iff valid_char_facts intro: map_idI)

lemma filter_valid_id: "list_all VALID_CHAR s \<Longrightarrow> filter VALID_CHAR s = s"
  by (simp add: list_all_iff filter_id_conv)

lemma sanitize_token: "docker_token raw \<Longrightarrow> sanitize_name sha raw = raw"
  by (cases raw) (simp_all add: docker_token_def sanitize_name_def py_lower_valid filter_valid_id)

text \<open>The name is the cleaned text, unless something was lost on the way: then a prefix of the digest
  tells the names apart.\<close>

lemma sanitize_cases:
  obtains (kept) "sanitize_name sha raw = raw" "docker_token raw"
  | (hashed) pre where "sanitize_name sha raw = pre @ ''-'' @ take HASH_LEN (sha raw)" "docker_token pre"
      "length pre \<le> Suc (length raw)"
proof -
  let ?c = "filter VALID_CHAR (py_lower raw)"
  have valid: "list_all VALID_CHAR ?c" by (simp add: list_all_iff)
  have len: "length ?c \<le> length raw" by (metis length_filter_le length_map py_lower_def)
  show thesis
  proof (cases ?c)
    case Nil
    then show ?thesis by (intro hashed [of "''x''"]) (simp_all add: sanitize_name_def docker_token_def valid_char_facts)
  next
    case (Cons c cs)
    then have tok: "docker_token ?c \<longleftrightarrow> VALID_FIRST_CHAR c" using valid by (simp add: docker_token_def)
    consider "VALID_FIRST_CHAR c" "?c = raw" | "VALID_FIRST_CHAR c" "?c \<noteq> raw" | "\<not> VALID_FIRST_CHAR c" by blast
    then show ?thesis
    proof cases
      case 1
      with tok show ?thesis by (metis kept sanitize_token)
    next
      case 2
      then have "sanitize_name sha raw = ?c @ ''-'' @ take HASH_LEN (sha raw)"
        using Cons by (auto simp: sanitize_name_def)
      then show ?thesis using hashed 2 tok len by fastforce
    next
      case 3
      then have "sanitize_name sha raw = (CHR ''x'' # ?c) @ ''-'' @ take HASH_LEN (sha raw)"
        using Cons by (simp add: sanitize_name_def)
      moreover have "docker_token (CHR ''x'' # ?c)" using valid valid_char_facts(1,3) by (simp add: docker_token_def)
      ultimately show ?thesis using hashed len by fastforce
    qed
  qed
qed

text \<open>C23: with a digest made of hexadecimal digits every name becomes a token docker accepts (lower-case
  letters, digits, \<open>_\<close>, \<open>.\<close> and \<open>-\<close>, starting with a letter or a digit), at most ten characters longer
  than the name, and exactly the names that are such tokens are kept.\<close>

theorem sanitize_name_docker_safe:
  assumes "\<And>t. hex_text (sha t)"
  shows "docker_token (sanitize_name sha raw) \<and> length (sanitize_name sha raw) \<le> length raw + 10 \<and>
    (sanitize_name sha raw = raw \<longleftrightarrow> docker_token raw)"
proof (cases rule: sanitize_cases [of sha raw])
  case kept
  then show ?thesis by simp
next
  case (hashed pre)
  then have "docker_token (sanitize_name sha raw)"
    using hex_text_valid [OF assms] by (simp add: docker_token_def valid_char_facts)
  moreover have "length (sanitize_name sha raw) \<le> length raw + 10" using hashed by (simp add: HASH_LEN_def)
  ultimately show ?thesis using sanitize_token by metis
qed

theorem sanitize_name_docker_safe_witness:
  "docker_token (sanitize_name (\<lambda>_. ''0123456789abcdef'') ''My Shop'') \<and>
   sanitize_name (\<lambda>_. ''0123456789abcdef'') ''My Shop'' = ''myshop-01234567''"
proof -
  have "hex_text ((\<lambda>_. ''0123456789abcdef'') t)" for t :: string by (simp add: hex_text_def in_range_def cp_def)
  moreover have "sanitize_name (\<lambda>_. ''0123456789abcdef'') ''My Shop'' = ''myshop-01234567''" by code_simp
  ultimately show ?thesis using sanitize_name_docker_safe [of "\<lambda>_. ''0123456789abcdef''" "''My Shop''"] by simp
qed

text \<open>The project and the instance are joined by a dash that both may contain, so that the same
  text split at another dash names the same network and the same containers.\<close>

theorem instance_names_collide:
  assumes "docker_token (p @ ''-'' @ q)" "docker_token (q @ ''-'' @ r)" "docker_token p" "docker_token r"
  shows "ref_network (derive_instance_ref sha (m\<lparr>m_name := p @ ''-'' @ q\<rparr>) r) =
      ref_network (derive_instance_ref sha (m\<lparr>m_name := p\<rparr>) (q @ ''-'' @ r)) \<and>
    ref_odoo_container (derive_instance_ref sha (m\<lparr>m_name := p @ ''-'' @ q\<rparr>) r) =
      ref_odoo_container (derive_instance_ref sha (m\<lparr>m_name := p\<rparr>) (q @ ''-'' @ r))"
  using assms by (simp add: derive_instance_ref_def Let_def sanitize_token)

theorem instance_names_collide_witness:
  "ref_network (derive_instance_ref (\<lambda>s. s) (demo_manifest\<lparr>m_name := ''shop-eu''\<rparr>) ''dev'') =
   ref_network (derive_instance_ref (\<lambda>s. s) (demo_manifest\<lparr>m_name := ''shop''\<rparr>) ''eu-dev'')"
proof -
  have "docker_token (''shop'' @ ''-'' @ ''eu'')" "docker_token (''eu'' @ ''-'' @ ''dev'')" "docker_token ''shop''" "docker_token ''dev''"
    by code_simp+
  from instance_names_collide [OF this] show ?thesis by simp
qed

section \<open>Planning from an accepted mount view\<close>

lemma system_root_path: "(k, p) \<in> set (system_roots CONTAINER_MOUNT_BASE) \<Longrightarrow> p = Path ''/'' [''mnt'', k] \<and> is_segment k"
  by (auto simp: system_roots_def CONTAINER_MOUNT_BASE_def)

lemma before_first_segment: "is_segment k \<Longrightarrow> before_first (CHR ''/'') k = k"
  by (auto simp: before_first_def is_segment_def takeWhile_eq_all_conv)

text \<open>A container root lies below \<open>/mnt\<close>, and its third part is the first component of its key.\<close>

lemma container_root_shape:
  assumes "manifest_valid m" "(k, p) \<in> set (default_container_roots m)"
  obtains rest where "p = Path ''/'' (''mnt'' # before_first (CHR ''/'') k # rest)" "wf_path p"
proof -
  from assms(2) consider "(k, p) \<in> set (system_roots CONTAINER_MOUNT_BASE)"
    | l where "l \<in> set (m_layers m)" "k = custom_root_key (layer_category l)"
        "p = path_join (path_join CONTAINER_MOUNT_BASE ''custom'') (custom_category_folder (layer_category l))"
    unfolding default_container_roots_def using mount_roots_member by blast
  then show ?thesis
  proof cases
    case 1
    then have "p = Path ''/'' [''mnt'', k]" "is_segment k" using system_root_path by blast+
    then show ?thesis by (intro that [of "[]"]) (simp_all add: before_first_segment wf_path_def is_segment_def)
  next
    case 2
    then have "p = Path ''/'' [''mnt'', ''custom'', custom_category_folder (layer_category l)]"
        "is_segment (custom_category_folder (layer_category l))"
      using category_segment [OF assms(1)] by (simp_all add: CONTAINER_MOUNT_BASE_def)
    then show ?thesis using 2(2)
      by (intro that [of "[custom_category_folder (layer_category l)]"])
        (auto simp: before_first_def custom_root_key_def wf_path_def is_segment_def)
  qed
qed

text \<open>Where the evidence of an accepted view is mounted.\<close>

definition placed_at :: "manifest \<Rightarrow> mount_evidence \<Rightarrow> string \<Rightarrow> bool" where
  "placed_at m e key \<longleftrightarrow> (case map_of (default_container_roots m) key of None \<Rightarrow> False
     | Some root \<Rightarrow> me_container_path e = projected_path root (me_layer e) (me_url e))"

lemma view_placed:
  assumes "build_mount_planning_view sha m lock_opt scanned state roots None = Inr view" "e \<in> set view"
  shows "\<exists>key. placed_at m e key"
  using assms(1)
proof (rule view_stages)
  fix lock steps container_paths sources
  let ?E = "map (\<lambda>s. (step_identity s, s)) steps"
  assume "rmap (mount_of (case None of None \<Rightarrow> default_container_roots m | Some r \<Rightarrow> r) sources) (sort_key fst ?E) = Inr view"
  then have "list_all2 (\<lambda>x e. mount_of (default_container_roots m) sources x = Inr e) (sort_key fst ?E) view"
    by (simp add: rmap_Inr_iff)
  moreover obtain i where "i < length view" "view ! i = e" using assms(2) by (auto simp: in_set_conv_nth)
  ultimately have "mount_of (default_container_roots m) sources (sort_key fst ?E ! i) = Inr e"
    using list_all2_nthD2 by fastforce
  then have "placed_at m e (wp_mount_root (snd (sort_key fst ?E ! i)))"
    by (cases "sort_key fst ?E ! i") (auto simp: mount_of_def placed_at_def Let_def root_path_def result_iff)
  then show ?thesis ..
qed

lemma path_join_wf:
  assumes "CHR ''/'' \<notin> set s" "wf_path (Path r ss)"
  obtains ts where "path_join (Path r ss) s = Path r (ss @ ts)" "wf_path (Path r (ss @ ts))"
proof -
  have "path_join (Path r ss) s = Path r (ss @ filter (\<lambda>w. w \<noteq> [] \<and> w \<noteq> ''.'') [s])"
    using assms(1) by (simp add: path_join_def parse_path_def split_on_free parse_root_segment)
  moreover have "wf_path (Path r (ss @ filter (\<lambda>w. w \<noteq> [] \<and> w \<noteq> ''.'') [s]))"
    using assms by (auto simp: wf_path_def is_segment_def)
  ultimately show ?thesis using that by blast
qed

lemma placed_path:
  assumes "manifest_valid m" "placed_at m e key" "is_segment (me_layer e)"
  obtains rest where "me_container_path e = Path ''/'' (''mnt'' # before_first (CHR ''/'') key # rest)" "wf_path (me_container_path e)"
proof -
  from assms(2) obtain root where root: "map_of (default_container_roots m) key = Some root"
    and path: "me_container_path e = projected_path root (me_layer e) (me_url e)"
    by (auto simp: placed_at_def split: option.splits)
  from container_root_shape [OF assms(1) map_of_SomeD [OF root]] obtain rest where
    rest: "root = Path ''/'' (''mnt'' # before_first (CHR ''/'') key # rest)" "wf_path root" .
  let ?ss = "''mnt'' # before_first (CHR ''/'') key # rest @ [me_layer e]"
  have "wf_path (Path ''/'' ?ss)" using rest assms(3) by (simp add: wf_path_def)
  from path_join_wf [OF repo_name_no_slash this] obtain ts where
    "path_join (Path ''/'' ?ss) (repo_name (me_url e)) = Path ''/'' (?ss @ ts)" "wf_path (Path ''/'' (?ss @ ts))" .
  with rest(1) assms(3) have "me_container_path e = Path ''/'' (?ss @ ts)" "wf_path (me_container_path e)"
    by (simp_all add: path projected_path_def)
  then show ?thesis using that by simp
qed

lemma bind_mount_placed:
  assumes "manifest_valid m" "placed_at m e key" "is_segment (me_layer e)"
  shows "bind_mount_of e = Inr \<lparr>bm_root = before_first (CHR ''/'') key, bm_host_path = path_str (me_source_path e),
     bm_container_path = path_str (me_container_path e), bm_read_only = me_read_only e\<rparr>"
proof -
  from placed_path [OF assms] obtain rest where
    "me_container_path e = Path ''/'' (''mnt'' # before_first (CHR ''/'') key # rest)" .
  then show ?thesis by (simp add: bind_mount_of_def path_parts_def Let_def)
qed

lemma instance_ref_plan:
  "plan_backend sha m view inst odoo_image password cred = Inr plan \<Longrightarrow>
    instance_ref_of plan = Some (derive_instance_ref sha m inst)"
  by (cases "rmap bind_mount_of view"; cases "ordered_addons_roots m CONTAINER_MOUNT_BASE")
    (auto simp: plan_backend_def Let_def instance_ref_of_def forge_labels_def postgres_spec_def odoo_spec_def derive_instance_ref_def)

definition bind_of :: "manifest \<Rightarrow> mount_evidence \<Rightarrow> bind_mount \<Rightarrow> bool" where
  "bind_of m e b \<longleftrightarrow> bm_host_path b = path_str (me_source_path e) \<and> bm_container_path b = path_str (me_container_path e) \<and>
     bm_read_only b = me_read_only e \<and> (\<exists>key. placed_at m e key \<and> bm_root b = before_first (CHR ''/'') key)"

text \<open>The layers of a view with known identities.\<close>

lemma view_layers: "map mount_identity view = sort (map f xs) \<Longrightarrow> set (map me_layer view) = set (map (fst \<circ> f) xs)"
proof -
  assume "map mount_identity view = sort (map f xs)"
  then have "fst ` set (map mount_identity view) = fst ` set (sort (map f xs))" by (rule arg_cong)
  then show ?thesis by (simp add: mount_identity_def image_image)
qed

lemma odoo_settings_split:
  "fst (odoo_settings m) = Option.bind (Option.bind (m_backend m) bc_odoo) http_port"
  "snd (odoo_settings m) = (case Option.bind (m_backend m) bc_odoo of None \<Rightarrow> ''127.0.0.1'' | Some c \<Rightarrow> bind_host c)"
  by (simp_all add: odoo_settings_def DEFAULT_ODOO_BIND_HOST_def split: option.split)

text \<open>C25: from an accepted mount view of a valid manifest whose layer names are path segments a plan is
  always made; reading the identity back from its labels gives the instance it was made for; the odoo
  container binds each piece of evidence once, from its host path, with its writability and under the
  root of its mount key, all at different container paths; it talks to the planned postgres container
  and publishes the port the manifest asks for, on the host it asks for or else on the loopback address; no credential is put in the environment of
  the postgres container.\<close>

theorem backend_plan_of_view:
  assumes "manifest_valid m" "build_mount_planning_view sha m lock_opt scanned st roots None = Inr view"
    and "list_all (\<lambda>e. is_segment (me_layer e)) view"
  shows "\<exists>plan. plan_backend sha m view inst odoo_image password cred = Inr plan \<and>
    instance_ref_of plan = Some (derive_instance_ref sha m inst) \<and>
    list_all2 (bind_of m) view (cs_mounts (bp_odoo plan)) \<and> distinct (map bm_container_path (cs_mounts (bp_odoo plan))) \<and>
    map_of (cs_env (bp_odoo plan)) ''DB_HOST'' = Some (cs_name (bp_postgres plan)) \<and>
    cs_network (bp_odoo plan) = cs_network (bp_postgres plan) \<and>
    cs_ports (bp_odoo plan) = [(''8069'', Option.bind (Option.bind (m_backend m) bc_odoo) http_port), (''8072'', None)] \<and>
    cs_bind_host (bp_odoo plan) = (case Option.bind (m_backend m) bc_odoo of None \<Rightarrow> ''127.0.0.1'' | Some c \<Rightarrow> bind_host c) \<and>
    cs_secret_env (bp_postgres plan) = [] \<and> cs_ports (bp_postgres plan) = []"
proof -
  have seg: "is_segment (me_layer e)" if "e \<in> set view" for e using assms(3) that by (simp add: list_all_iff)
  define key where "key e = (SOME k. placed_at m e k)" for e
  have key: "placed_at m e (key e)" if "e \<in> set view" for e
    unfolding key_def by (rule someI_ex) (rule view_placed [OF assms(2) that])
  define bind where "bind e = \<lparr>bm_root = before_first (CHR ''/'') (key e), bm_host_path = path_str (me_source_path e),
     bm_container_path = path_str (me_container_path e), bm_read_only = me_read_only e\<rparr>" for e
  have mounts: "rmap bind_mount_of view = Inr (map bind view)"
    by (rule rmap_total) (simp add: bind_def bind_mount_placed [OF assms(1) key seg])
  obtain addons where addons: "ordered_addons_roots m CONTAINER_MOUNT_BASE = Inr addons"
    using ordered_addons_roots_spec [OF assms(1)] by blast
  obtain plan where plan: "plan_backend sha m view inst odoo_image password cred = Inr plan"
    and odoo: "\<exists>filestore. bp_odoo plan = odoo_spec m (derive_instance_ref sha m inst) odoo_image password (map bind view) addons filestore"
    and pg: "\<exists>pgdata. bp_postgres plan = postgres_spec (derive_instance_ref sha m inst) pgdata"
    by (auto simp: plan_backend_def mounts addons Let_def)
  have "distinct (map me_container_path view)" using mount_view_sound [OF assms(2)] by blast
  moreover have "inj_on path_str (me_container_path ` set view)"
    by (rule inj_onI) (use placed_path [OF assms(1) key seg] path_str_inject in blast)
  ultimately have dist: "distinct (map bm_container_path (map bind view))"
    by (simp add: bind_def comp_def distinct_map inj_on_def)
  have binds: "list_all2 (bind_of m) view (map bind view)"
    unfolding list_all2_map2 list_all2_same bind_of_def by (auto simp: bind_def intro: key)
  from odoo pg dist binds have "cs_mounts (bp_odoo plan) = map bind view \<and>
      map_of (cs_env (bp_odoo plan)) ''DB_HOST'' = Some (cs_name (bp_postgres plan)) \<and>
      cs_network (bp_odoo plan) = cs_network (bp_postgres plan) \<and>
      cs_ports (bp_odoo plan) = [(''8069'', Option.bind (Option.bind (m_backend m) bc_odoo) http_port), (''8072'', None)] \<and>
      cs_bind_host (bp_odoo plan) = (case Option.bind (m_backend m) bc_odoo of None \<Rightarrow> ''127.0.0.1'' | Some c \<Rightarrow> bind_host c) \<and>
      cs_secret_env (bp_postgres plan) = [] \<and> cs_ports (bp_postgres plan) = []"
    by (auto simp: odoo_spec_def postgres_spec_def odoo_settings_split)
  with plan instance_ref_plan [OF plan] dist binds show ?thesis by metis
qed

theorem backend_plan_of_view_witness:
  "\<exists>view plan. plan_backend demo_hash demo_manifest view ''default'' None None None = Inr plan \<and>
    instance_ref_of plan = Some (derive_instance_ref demo_hash demo_manifest ''default'') \<and>
    list_all2 (bind_of demo_manifest) view (cs_mounts (bp_odoo plan))"
proof -
  let ?R = "build_mount_roots demo_base (Some demo_manifest)"
  note lock = build_lock_shape [OF demo_build_lock]
  obtain steps where plan: "plan_projection demo_manifest demo_lock (Some ?R) = Inr steps"
    using plan_projection_total [OF lock(6)] by blast
  obtain st where st: "materialize_state (scan_of steps) ?R = Inr st"
    using roundtrip_clean [OF demo_manifest_valid demo_projectable lock(3) plan] by blast
  from roundtrip_view [OF demo_manifest_valid lock(1) lock(7) [OF demo_faithful] lock(3) demo_projectable plan st]
  obtain view where view: "build_mount_planning_view demo_hash demo_manifest (Some demo_lock) (scan_of steps) st ?R None = Inr view"
    by (auto simp: is_ok_iff)
  have "map mount_identity view = sort (map (\<lambda>(layer, url, commit). (layer, url)) (locked_repos demo_lock))"
    using mount_view_sound [OF view] by (metis option.inject)
  from view_layers [OF this]
  have layers: "set (map me_layer view) = set (map (fst \<circ> (\<lambda>(layer, url, commit). (layer, url))) (locked_repos demo_lock))" .
  have "list_all is_segment (map (fst \<circ> (\<lambda>(layer, url, commit). (layer, url))) (locked_repos demo_lock))" by code_simp
  then have "list_all is_segment (map me_layer view)" unfolding list_all_iff layers .
  then have "list_all (\<lambda>e. is_segment (me_layer e)) view" by (simp add: list.pred_map comp_def)
  from backend_plan_of_view [OF demo_manifest_valid view this] show ?thesis by metis
qed

section \<open>Status of what docker reports\<close>

text \<open>A container as \<open>docker inspect\<close> prints it: dictionaries where they are expected, and a role label
  that is a string when there is one. It is ready when it runs and its health check passed.\<close>

definition docker_container :: "json \<Rightarrow> bool" where
  "docker_container c \<longleftrightarrow>
     (case dict_get ''State'' JNull c of Inr (JObj _) \<Rightarrow> True | Inr JNull \<Rightarrow> True | _ \<Rightarrow> False) \<and>
     (case role_label c of Inr (JStr _) \<Rightarrow> True | Inr JNull \<Rightarrow> True | _ \<Rightarrow> False)"

definition state_field :: "string \<Rightarrow> json \<Rightarrow> json" where
  "state_field key c = (case dict_get ''State'' JNull c of Inr (JObj kvs) \<Rightarrow> (case map_of kvs key of None \<Rightarrow> JNull | Some v \<Rightarrow> v) | _ \<Rightarrow> JNull)"

definition is_running :: "json \<Rightarrow> bool" where
  "is_running c \<longleftrightarrow> py_truthy (state_field ''Running'' c)"

definition is_healthy :: "json \<Rightarrow> bool" where
  "is_healthy c \<longleftrightarrow> health_status (state_field ''Health'' c) = JStr ''healthy''"

definition last_with_role :: "string \<Rightarrow> json list \<Rightarrow> json option" where
  "last_with_role role cs = find (\<lambda>c. role_label c = Inr (JStr role)) (rev cs)"

lemma last_with_role_simps [simp]:
  "last_with_role role [] = None"
  "last_with_role role (cs @ [c]) = (if role_label c = Inr (JStr role) then Some c else last_with_role role cs)"
  by (simp_all add: last_with_role_def)

lemma last_with_role_in: "last_with_role role cs = Some c \<Longrightarrow> c \<in> set cs"
  unfolding last_with_role_def find_Some_iff by (metis length_rev nth_mem set_rev)

lemma put_by_role_labelled:
  "role_label c = Inr JNull \<Longrightarrow> put_by_role c d = Inr d"
  "role_label c = Inr (JStr s) \<Longrightarrow> put_by_role c d = Inr (if s = [] then d else AList.update (JStr s) c d)"
  by (simp_all add: put_by_role_def)

lemma by_role_last:
  assumes "list_all docker_container cs"
  shows "\<exists>d. rfold put_by_role cs [] = Inr d \<and> (\<forall>role. role \<noteq> [] \<longrightarrow> map_of d (JStr role) = last_with_role role cs)"
  using assms
proof (induction cs rule: rev_induct)
  case (snoc c cs)
  then obtain d where d: "rfold put_by_role cs [] = Inr d"
      "\<And>role. role \<noteq> [] \<Longrightarrow> map_of d (JStr role) = last_with_role role cs" by auto
  from snoc.prems consider "role_label c = Inr JNull" | s where "role_label c = Inr (JStr s)"
    by (auto simp: docker_container_def split: sum.splits json.splits)
  then show ?case
  proof cases
    case 1
    with d show ?thesis by (simp add: rfold_append put_by_role_labelled)
  next
    case 2
    with d show ?thesis by (auto simp: rfold_append put_by_role_labelled dict_simps)
  qed
qed simp

lemma role_status_found:
  assumes "docker_container c"
  shows "\<exists>r. judge_role role (Some c) = Inr r \<and> rs_running r = is_running c \<and>
    (rs_ready r \<longleftrightarrow> is_running c \<and> is_healthy c) \<and> (rs_state r = Exited \<longleftrightarrow> \<not> is_running c)"
proof -
  from assms consider "dict_get ''State'' JNull c = Inr JNull" | kvs where "dict_get ''State'' JNull c = Inr (JObj kvs)"
    by (auto simp: docker_container_def split: sum.splits json.splits)
  then show ?thesis
    by cases (auto simp: judge_role_def Let_def is_running_def is_healthy_def state_field_def NOT_RUNNING_def)
qed

definition observed :: "json option \<Rightarrow> role_status \<Rightarrow> bool" where
  "observed found r = (case found of None \<Rightarrow> r = NOT_RUNNING
     | Some c \<Rightarrow> rs_running r = is_running c \<and> (rs_ready r \<longleftrightarrow> is_running c \<and> is_healthy c) \<and> (rs_state r = Exited \<longleftrightarrow> \<not> is_running c))"

lemma role_status_observed:
  assumes "\<And>c. found = Some c \<Longrightarrow> docker_container c"
  shows "\<exists>r. judge_role role found = Inr r \<and> observed found r"
proof (cases found)
  case None
  then show ?thesis by (simp add: judge_role_def observed_def)
next
  case (Some c)
  with assms show ?thesis using role_status_found [of c role] by (auto simp: observed_def)
qed

text \<open>C26: what docker reports is always read without an error. Each role is judged by the last container
  labelled with it: without one it is not running; it counts as running, and as ready, exactly when
  that container runs and, for ready, its health check passed.\<close>

theorem parse_status_observes:
  assumes "list_all docker_container cs"
  shows "\<exists>st. parse_status (JArr cs) = Inr st \<and>
    observed (last_with_role ''odoo'' cs) (is_odoo st) \<and> observed (last_with_role ''postgres'' cs) (is_postgres st)"
proof -
  have ok: "docker_container c" if "last_with_role role cs = Some c" for role c
    using assms last_with_role_in [OF that] by (simp add: list_all_iff)
  obtain d where d: "rfold put_by_role cs [] = Inr d"
      "\<And>role. role \<noteq> [] \<Longrightarrow> map_of d (JStr role) = last_with_role role cs"
    using by_role_last [OF assms] by blast
  obtain o' p where "judge_role OdooRole (last_with_role ''odoo'' cs) = Inr o'" "observed (last_with_role ''odoo'' cs) o'"
      "judge_role PostgresRole (last_with_role ''postgres'' cs) = Inr p" "observed (last_with_role ''postgres'' cs) p"
    using role_status_observed ok by metis
  with d show ?thesis by (simp add: parse_status_def)
qed

definition demo_container :: json where
  "demo_container = JObj
     [(''Config'', JObj [(''Labels'', JObj [(''com.odoo-forge.role'', JStr ''odoo'')])]),
      (''State'', JObj [(''Running'', JBool True), (''Health'', JObj [(''Status'', JStr ''healthy'')])])]"

theorem parse_status_observes_witness:
  "list_all docker_container [demo_container] \<and>
   (\<exists>st. parse_status (JArr [demo_container]) = Inr st \<and> observed (Some demo_container) (is_odoo st) \<and> is_healthy demo_container)"
proof -
  have "list_all docker_container [demo_container]" "last_with_role ''odoo'' [demo_container] = Some demo_container"
    "is_healthy demo_container" by code_simp+
  with parse_status_observes [OF this(1)] show ?thesis by metis
qed

end
