(* ===== verification/Control_Plane.thy ===== *)
theory Control_Plane
  imports Instance_Registry Backend_Plan
begin

text \<open>
  The control plane: custody requests (\<open>ports/resource_custody.py\<close>), the registration authority
  (\<open>control_plane/authority.py\<close>) and the read-only reconciler (\<open>control_plane/models.py\<close>,
  \<open>control_plane/reconcile.py\<close>). The registry, the custody adapter and the live status reader are
  parameters, programs over their own state. SHA-256 is the parameter \<open>sha\<close>.
\<close>

section \<open>Custody requests\<close>

datatype custody_transition = RESERVE_BIND_ACTIVATE

datatype custody_starting_state = UNRESERVED

datatype custody_error =
    NotProviderQualified | ProviderRequired | TokenRequired | NameMismatch | DigestMismatch | UnsupportedResource | EmptyField

record custody_request =
  cq_operation :: durable_identity
  cq_pointer :: instance_pointer
  cq_resource :: resource_ref
  cq_resource_name :: string
  cq_resource_id :: string
  cq_starting_state :: custody_starting_state
  cq_requested_transition :: custody_transition

definition custody_operation_parts :: "string \<Rightarrow> (custody_error, string \<times> string) result" where
  "custody_operation_parts operation =
     (case partition_at (CHR '':'') operation of
        (_, None) \<Rightarrow> Inl NotProviderQualified
      | (provider, Some token) \<Rightarrow>
          if provider = [] \<or> provider \<noteq> py_strip provider then Inl ProviderRequired
          else if token = [] \<or> token \<noteq> py_strip token then Inl TokenRequired
          else Inr (provider, token))"

definition ownership_value :: "resource_ownership \<Rightarrow> string" where
  "ownership_value o' = (case o' of Created \<Rightarrow> ''created'' | Adopted \<Rightarrow> ''adopted'' | External \<Rightarrow> ''external'')"

definition custody_payload :: "string \<Rightarrow> instance_pointer \<Rightarrow> resource_ref \<Rightarrow> string \<Rightarrow> string \<Rightarrow> json" where
  "custody_payload operation p resource name rid = JObj
     [(''operation_id'', JStr operation), (''tenant'', JStr (ps_tenant (ip_scope p))),
      (''project'', JStr (ps_project_id (ip_scope p))), (''instance'', JStr (ip_instance_id p)),
      (''resource_identifier'', JStr (rf_identifier resource)), (''resource_kind'', JStr (rf_resource_kind resource)),
      (''resource_ownership'', JStr (ownership_value (rf_ownership resource))),
      (''resource_name'', JStr name), (''resource_id'', JStr rid),
      (''starting_state'', JStr ''unreserved''), (''requested_transition'', JStr ''reserve_bind_activate'')]"

definition custody_request_digest :: "(string \<Rightarrow> string) \<Rightarrow> string \<Rightarrow> instance_pointer \<Rightarrow> resource_ref \<Rightarrow> string \<Rightarrow> string \<Rightarrow> string" where
  "custody_request_digest sha operation p resource name rid = sha (json_dumps False (custody_payload operation p resource name rid))"

definition validate_contract :: "(string \<Rightarrow> string) \<Rightarrow> custody_request \<Rightarrow> (custody_error, custody_request) result" where
  "validate_contract sha q =
     rbind (custody_operation_parts (operation_id (cq_operation q))) (\<lambda>_.
     rbind (guard (cq_resource_name q = rf_identifier (cq_resource q)) NameMismatch) (\<lambda>_.
     rbind (guard (request_digest (cq_operation q) =
        custody_request_digest sha (operation_id (cq_operation q)) (cq_pointer q) (cq_resource q) (cq_resource_name q) (cq_resource_id q))
        DigestMismatch) (\<lambda>_.
     rbind (guard (rf_resource_kind (cq_resource q) = ''container'' \<and> rf_ownership (cq_resource q) = Created) UnsupportedResource) (\<lambda>_.
     Inr q))))"

definition mk_custody_request :: "(string \<Rightarrow> string) \<Rightarrow> custody_request \<Rightarrow> (custody_error, custody_request) result" where
  "mk_custody_request sha q =
     rbind (guard (cq_resource_name q \<noteq> [] \<and> cq_resource_id q \<noteq> []) EmptyField) (\<lambda>_. validate_contract sha q)"

section \<open>The authority\<close>

record registration_request =
  rq_operation :: durable_identity
  rq_pointer :: instance_pointer
  rq_resource :: resource_ref
  rq_resource_name :: string
  rq_resource_id :: string

definition registration_ok :: "registration_request \<Rightarrow> bool" where
  "registration_ok q \<longleftrightarrow> operation_id (rq_operation q) \<noteq> [] \<and> request_digest (rq_operation q) \<noteq> [] \<and>
     pointer_ok (rq_pointer q) \<and> resource_ref_ok (rq_resource q) \<and> rq_resource_name q \<noteq> [] \<and> rq_resource_id q \<noteq> []"

datatype authority_exn = RegistrationInvalid | Raised exn

record ('g, 'c) authority_world =
  aw_registry :: 'g
  aw_custody :: 'c
  aw_confirmed :: "custody_request list"

type_synonym ('g, 'c, 'a) authority_prog = "(('g, 'c) authority_world, authority_exn, 'a) prog"

record ('g, 'c) authority_ports =
  ap_get :: "instance_pointer \<Rightarrow> ('g, exn, instance_record) prog"
  ap_register :: "instance_record \<Rightarrow> ('g, exn, instance_record) prog"
  ap_confirm :: "custody_request \<Rightarrow> ('c, exn, ownership_receipt) prog"

definition on_registry :: "('g, exn, 'a) prog \<Rightarrow> ('g, 'c, 'a) authority_prog" where
  "on_registry m = (\<lambda>s. case m (aw_registry s) of
       (g, Inl e) \<Rightarrow> (s\<lparr>aw_registry := g\<rparr>, Inl (Raised e)) | (g, Inr x) \<Rightarrow> (s\<lparr>aw_registry := g\<rparr>, Inr x))"

definition confirm :: "('g, 'c) authority_ports \<Rightarrow> custody_request \<Rightarrow> ('g, 'c, ownership_receipt) authority_prog" where
  "confirm ports q = (\<lambda>s. case ap_confirm ports q (aw_custody s) of
       (c, Inl e) \<Rightarrow> (s\<lparr>aw_custody := c, aw_confirmed := aw_confirmed s @ [q]\<rparr>, Inl (Raised e))
     | (c, Inr x) \<Rightarrow> (s\<lparr>aw_custody := c, aw_confirmed := aw_confirmed s @ [q]\<rparr>, Inr x))"

definition custody_request_of :: "(string \<Rightarrow> string) \<Rightarrow> registration_request \<Rightarrow> ('g, 'c, custody_request) authority_prog" where
  "custody_request_of sha q =
     (case mk_custody_request sha \<lparr>cq_operation = rq_operation q, cq_pointer = rq_pointer q, cq_resource = rq_resource q,
         cq_resource_name = rq_resource_name q, cq_resource_id = rq_resource_id q,
         cq_starting_state = UNRESERVED, cq_requested_transition = RESERVE_BIND_ACTIVATE\<rparr> of
        Inl _ \<Rightarrow> raise_exn RegistrationInvalid | Inr c \<Rightarrow> ret c)"

definition existing_record :: "('g, 'c) authority_ports \<Rightarrow> instance_pointer \<Rightarrow> ('g, 'c, instance_record option) authority_prog" where
  "existing_record ports p =
     try_catch (sbind (on_registry (ap_get ports p)) (\<lambda>r. ret (Some r)))
       (\<lambda>e. case e of Raised (RecordNotFound _) \<Rightarrow> ret None | _ \<Rightarrow> raise_exn e)"

definition matches :: "instance_record \<Rightarrow> registration_request \<Rightarrow> bool" where
  "matches existing q \<longleftrightarrow> ir_pointer existing = rq_pointer q \<and> ir_resource existing = rq_resource q \<and>
     (case ir_receipt existing of None \<Rightarrow> False
      | Some rc \<Rightarrow> or_operation rc = rq_operation q \<and> or_owned_resource_ids rc = [rq_resource_id q])"

definition register_new :: "('g, 'c) authority_ports \<Rightarrow> instance_record \<Rightarrow> ('g, 'c, instance_record) authority_prog" where
  "register_new ports r =
     try_catch (on_registry (ap_register ports r))
       (\<lambda>e. case e of Raised (RegistrationConflict _) \<Rightarrow> raise_exn e | _ \<Rightarrow> on_registry (ap_register ports r))"

definition authority_register ::
    "(string \<Rightarrow> string) \<Rightarrow> ('g, 'c) authority_ports \<Rightarrow> registration_request \<Rightarrow> ('g, 'c, instance_record) authority_prog" where
  "authority_register sha ports q =
     sbind (custody_request_of sha q) (\<lambda>custody.
     sbind (existing_record ports (rq_pointer q)) (\<lambda>existing.
     case existing of
       Some r \<Rightarrow> if matches r q then ret r else raise_exn (Raised (RegistrationConflict (rq_pointer q)))
     | None \<Rightarrow>
         sbind (confirm ports custody) (\<lambda>receipt.
         register_new ports \<lparr>ir_pointer = rq_pointer q, ir_resource = rq_resource q, ir_receipt = Some receipt\<rparr>)))"

section \<open>The reconciler\<close>

datatype reconciliation_outcome = FRESH | DRIFTED | STALE_UNVERIFIED | EMPTY | PERSISTENCE_ERROR | PARTIAL_FAILURE

record reconciliation_row =
  rr_record :: instance_record
  rr_live :: "instance_status option"
  rr_outcome :: reconciliation_outcome
  rr_detail :: "string option"

record reconciliation_result =
  rres_outcome :: reconciliation_outcome
  rres_rows :: "reconciliation_row list"
  rres_detail :: "string option"

definition instance_ref_of_record :: "(string \<Rightarrow> string) \<Rightarrow> instance_record \<Rightarrow> instance_ref option" where
  "instance_ref_of_record sha r =
     (let project = sanitize_name sha (ps_project_id (ip_scope (ir_pointer r)));
          inst = sanitize_name sha (ip_instance_id (ir_pointer r));
          expected = ''odoo-forge-'' @ project @ ''-'' @ inst;
          identifier = rf_identifier (ir_resource r) in
      if rf_resource_kind (ir_resource r) \<noteq> ''instance'' \<or> identifier \<noteq> expected then None
      else Some \<lparr>ref_project = ps_project_id (ip_scope (ir_pointer r)), ref_instance = ip_instance_id (ir_pointer r),
                 ref_network = identifier, ref_postgres_container = identifier @ ''-db'', ref_odoo_container = identifier @ ''-odoo''\<rparr>)"

definition status_outcome :: "instance_status \<Rightarrow> reconciliation_outcome" where
  "status_outcome st =
     (if \<not> rs_running (is_odoo st) \<or> \<not> rs_running (is_postgres st) then DRIFTED
      else if \<not> rs_ready (is_odoo st) \<or> \<not> rs_ready (is_postgres st) then DRIFTED else FRESH)"

definition reconcile_row ::
    "(string \<Rightarrow> string) \<Rightarrow> (instance_ref \<Rightarrow> ('s, exn, instance_status) prog) \<Rightarrow> instance_record \<Rightarrow> ('s, exn, reconciliation_row) prog" where
  "reconcile_row sha status r =
     (case instance_ref_of_record sha r of
        None \<Rightarrow> ret \<lparr>rr_record = r, rr_live = None, rr_outcome = STALE_UNVERIFIED,
                      rr_detail = Some ''resource handle could not be verified''\<rparr>
      | Some ref \<Rightarrow>
          try_catch (sbind (status ref) (\<lambda>live. ret \<lparr>rr_record = r, rr_live = Some live, rr_outcome = status_outcome live, rr_detail = None\<rparr>))
            (\<lambda>_. ret \<lparr>rr_record = r, rr_live = None, rr_outcome = STALE_UNVERIFIED,
                      rr_detail = Some ''live status could not be verified''\<rparr>))"

definition reconcile_envelope :: "reconciliation_row list \<Rightarrow> reconciliation_result" where
  "reconcile_envelope rows =
     (let outcomes = map rr_outcome rows;
          failures = List.member outcomes STALE_UNVERIFIED;
          usable = filter (\<lambda>o'. o' \<noteq> STALE_UNVERIFIED) outcomes in
      if failures \<and> usable \<noteq> [] then
        \<lparr>rres_outcome = PARTIAL_FAILURE,
         rres_rows = map (\<lambda>row. if rr_outcome row = STALE_UNVERIFIED then row\<lparr>rr_outcome := PARTIAL_FAILURE\<rparr> else row) rows,
         rres_detail = None\<rparr>
      else \<lparr>rres_outcome = (if List.member outcomes DRIFTED then DRIFTED else if failures then STALE_UNVERIFIED else FRESH),
            rres_rows = rows, rres_detail = None\<rparr>)"

definition reconcile ::
    "(string \<Rightarrow> string) \<Rightarrow> (instance_ref \<Rightarrow> ('s, exn, instance_status) prog) \<Rightarrow> instance_record list \<Rightarrow> ('s, exn, reconciliation_result) prog" where
  "reconcile sha status records =
     (let ordered = sort_key (\<lambda>r. ip_instance_id (ir_pointer r)) records in
      if ordered = [] then ret \<lparr>rres_outcome = EMPTY, rres_rows = [], rres_detail = None\<rparr>
      else sbind (smap (reconcile_row sha status) ordered) (\<lambda>rows. ret (reconcile_envelope rows)))"

definition persistence_error :: reconciliation_result where
  "persistence_error = \<lparr>rres_outcome = PERSISTENCE_ERROR, rres_rows = [], rres_detail = Some ''instance registry could not be read''\<rparr>"

text \<open>The \<open>try\<close> around the registry read has its own value: the records, or the result to return.\<close>

definition reconciler_list ::
    "(string \<Rightarrow> string) \<Rightarrow> (project_scope \<Rightarrow> ('s, exn, instance_record list) prog)
     \<Rightarrow> (instance_ref \<Rightarrow> ('s, exn, instance_status) prog) \<Rightarrow> project_scope \<Rightarrow> ('s, exn, reconciliation_result) prog" where
  "reconciler_list sha list_records status scope =
     sbind (try_catch (sbind (list_records scope) (\<lambda>rs. ret (Inl rs))) (\<lambda>_. ret (Inr persistence_error))) (\<lambda>read.
     case read of Inr result \<Rightarrow> ret result | Inl records \<Rightarrow> reconcile sha status records)"

definition reconciler_get ::
    "(string \<Rightarrow> string) \<Rightarrow> (instance_pointer \<Rightarrow> ('s, exn, instance_record) prog)
     \<Rightarrow> (instance_ref \<Rightarrow> ('s, exn, instance_status) prog) \<Rightarrow> instance_pointer \<Rightarrow> ('s, exn, reconciliation_result) prog" where
  "reconciler_get sha get_record status p =
     sbind (try_catch (sbind (get_record p) (\<lambda>r. ret (Inl r)))
       (\<lambda>e. case e of RecordNotFound _ \<Rightarrow> ret (Inr \<lparr>rres_outcome = EMPTY, rres_rows = [], rres_detail = None\<rparr>)
                    | _ \<Rightarrow> ret (Inr persistence_error))) (\<lambda>read.
     case read of Inr result \<Rightarrow> ret result | Inl r \<Rightarrow> reconcile sha status [r])"

section \<open>Registering again\<close>

text \<open>What the authority relies on of the custody adapter: the receipt is for the confirmed request.\<close>

definition faithful_custody :: "(custody_request \<Rightarrow> ('c, exn, ownership_receipt) prog) \<Rightarrow> bool" where
  "faithful_custody cf \<longleftrightarrow> (\<forall>q c c' rc. cf q c = (c', Inr rc) \<longrightarrow>
     or_operation rc = cq_operation q \<and> or_owned_resource_ids rc = [cq_resource_id q])"

lemma custody_request_of_run:
  obtains (invalid) "\<And>s :: ('g, 'c) authority_world. custody_request_of sha q s = (s, Inl RegistrationInvalid)"
  | (valid) c where "\<And>s :: ('g, 'c) authority_world. custody_request_of sha q s = (s, Inr c)" "cq_operation c = rq_operation q" "cq_resource_id c = rq_resource_id q"
      "rf_resource_kind (rq_resource q) = ''container''" "mk_custody_request sha c = Inr c"
proof -
  define c where "c = \<lparr>cq_operation = rq_operation q, cq_pointer = rq_pointer q, cq_resource = rq_resource q,
         cq_resource_name = rq_resource_name q, cq_resource_id = rq_resource_id q,
         cq_starting_state = UNRESERVED, cq_requested_transition = RESERVE_BIND_ACTIVATE\<rparr>"
  show thesis
  proof (cases "mk_custody_request sha c")
    case (Inl e)
    then show ?thesis using that(1) by (simp add: custody_request_of_def c_def raise_exn_def)
  next
    case (Inr d)
    then have "d = c" "rf_resource_kind (cq_resource c) = ''container''"
      by (auto simp: mk_custody_request_def validate_contract_def result_iff)
    with Inr show ?thesis using that(2) [of c] by (simp add: custody_request_of_def c_def ret_def)
  qed
qed

lemma new_record_ok:
  assumes "registration_ok q" "or_operation rc = rq_operation q"
  shows "record_ok \<lparr>ir_pointer = rq_pointer q, ir_resource = rq_resource q, ir_receipt = Some rc\<rparr>"
  using assms by (simp add: registration_ok_def record_ok_def)

context faithful_registry begin

lemma existing_record_run:
  assumes "inv (aw_registry s)" "ap_get ports = get_record"
  shows "existing_record ports p s = (s, Inr (stored (aw_registry s) p))"
  using get_stored [OF assms(1), of p]
  by (simp add: existing_record_def assms(2) try_catch_def sbind_def on_registry_def ret_def split: option.split)

lemma register_new_result:
  assumes inv: "inv (aw_registry s)" and ok: "record_ok r" and ports: "ap_register ports = register"
    and run: "register_new ports r s = (s', Inr x)"
  shows "x = r \<and> inv (aw_registry s') \<and> stored (aw_registry s') (ir_pointer r) = Some r"
proof -
  obtain g out where first: "register r (aw_registry s) = (g, out)" by fastforce
  then have g: "inv g" using register_inv [OF inv ok] by simp
  show ?thesis
  proof (cases out)
    case (Inr y)
    with run first ports have "s' = s\<lparr>aw_registry := g\<rparr>" "x = y"
      by (simp_all add: register_new_def try_catch_def on_registry_def)
    with register_result [OF inv] first Inr g show ?thesis by simp
  next
    case (Inl e)
    obtain g' out' where second: "register r g = (g', out')" by fastforce
    with run first Inl ports have "out' = Inr x" "s' = s\<lparr>aw_registry := g'\<rparr>"
      by (auto simp: register_new_def try_catch_def on_registry_def raise_exn_def split: sum.splits exn.splits)
    with register_result [OF g] second register_inv [OF g ok] show ?thesis by auto
  qed
qed

text \<open>An accepted registration is stored, and asking again returns it without any effect.\<close>

lemma authority_retry:
  fixes ports :: "('g, 'c) authority_ports"
  assumes inv: "inv (aw_registry s)" and q: "registration_ok q" and custody: "faithful_custody (ap_confirm ports)"
    and ports: "ap_get ports = get_record" "ap_register ports = register"
    and run: "authority_register sha ports q s = (s', Inr r)"
  shows "authority_register sha ports q s' = (s', Inr r) \<and> stored (aw_registry s') (rq_pointer q) = Some r \<and> matches r q"
  using custody_request_of_run [where 'g = 'g and 'c = 'c and sha = sha and q = q]
proof cases
  case invalid
  with run show ?thesis by (simp add: authority_register_def sbind_def)
next
  case (valid c)
  note find = existing_record_run [of _ ports "rq_pointer q", OF _ ports(1)]
  have again: "authority_register sha ports q s1 = (s1, Inr x)"
    if "inv (aw_registry s1)" "stored (aw_registry s1) (rq_pointer q) = Some x" "matches x q" for s1 x
    using that valid(1) find [OF that(1)] by (simp add: authority_register_def sbind_def ret_def)
  show ?thesis
  proof (cases "stored (aw_registry s) (rq_pointer q)")
    case (Some x)
    with run valid(1) find [OF inv] have "s' = s" "r = x" "matches x q"
      by (auto simp: authority_register_def sbind_def ret_def raise_exn_def split: if_splits)
    with again [OF inv Some] Some show ?thesis by simp
  next
    case None
    obtain c' out where cf: "ap_confirm ports c (aw_custody s) = (c', out)" by fastforce
    let ?s = "s\<lparr>aw_custody := c', aw_confirmed := aw_confirmed s @ [c]\<rparr>"
    from run None valid(1) find [OF inv] cf obtain rc where rc: "out = Inr rc"
        "register_new ports \<lparr>ir_pointer = rq_pointer q, ir_resource = rq_resource q, ir_receipt = Some rc\<rparr> ?s = (s', Inr r)"
      by (auto simp: authority_register_def sbind_def ret_def confirm_def split: sum.splits)
    have receipt: "or_operation rc = rq_operation q" "or_owned_resource_ids rc = [rq_resource_id q]"
      using custody cf rc(1) valid(2,3) by (auto simp: faithful_custody_def)
    have "inv (aw_registry ?s)" using inv by simp
    from register_new_result [OF this new_record_ok [OF q receipt(1)] ports(2) rc(2)]
    have "r = \<lparr>ir_pointer = rq_pointer q, ir_resource = rq_resource q, ir_receipt = Some rc\<rparr>" "inv (aw_registry s')"
      "stored (aw_registry s') (rq_pointer q) = Some r" by auto
    moreover from this receipt have "matches r q" by (simp add: matches_def)
    ultimately show ?thesis using again by blast
  qed
qed

end

definition fake_ports :: "(custody_request \<Rightarrow> ('c, exn, ownership_receipt) prog) \<Rightarrow> (fake_registry, 'c) authority_ports" where
  "fake_ports cf = \<lparr>ap_get = fake_get, ap_register = fake_register, ap_confirm = cf\<rparr>"

definition pg_ports :: "(custody_request \<Rightarrow> ('c, exn, ownership_receipt) prog) \<Rightarrow> (registry_table, 'c) authority_ports" where
  "pg_ports cf = \<lparr>ap_get = pg_get Committed, ap_register = pg_register Committed, ap_confirm = cf\<rparr>"

text \<open>A custody adapter that always confirms, and a request it is asked for.\<close>

definition demo_confirm :: "custody_request \<Rightarrow> (unit, exn, ownership_receipt) prog" where
  "demo_confirm q = ret \<lparr>or_operation = cq_operation q, or_owned_resource_ids = [cq_resource_id q], or_live_proof_expected = True\<rparr>"

definition demo_request :: registration_request where
  "demo_request = \<lparr>rq_operation = \<lparr>operation_id = ''docker:op-1'', request_digest = ''d''\<rparr>, rq_pointer = demo_pointer,
     rq_resource = demo_resource, rq_resource_name = ''shop-prod'', rq_resource_id = ''c1''\<rparr>"

definition demo_sha :: "string \<Rightarrow> string" where "demo_sha t = ''d''"

definition demo_registered :: instance_record where
  "demo_registered = \<lparr>ir_pointer = demo_pointer, ir_resource = demo_resource,
     ir_receipt = Some \<lparr>or_operation = \<lparr>operation_id = ''docker:op-1'', request_digest = ''d''\<rparr>,
       or_owned_resource_ids = [''c1''], or_live_proof_expected = True\<rparr>\<rparr>"

lemma demo_faithful_custody: "faithful_custody demo_confirm"
  by (auto simp: faithful_custody_def demo_confirm_def ret_def)

lemma demo_registration_ok: "registration_ok demo_request"
  by code_simp

text \<open>C30: over the in-memory registry an accepted registration is stored under its pointer and matches the
  request; asking again, with nothing else in between, returns the same record without a second
  confirmation by the custody adapter and without any other effect.\<close>

theorem registration_idempotent:
  assumes "fake_inv (aw_registry s)" "registration_ok q" "faithful_custody cf"
    and "authority_register sha (fake_ports cf) q s = (s', Inr r)"
  shows "authority_register sha (fake_ports cf) q s' = (s', Inr r) \<and> fake_stored (aw_registry s') (rq_pointer q) = Some r \<and> matches r q"
  using fake.authority_retry [OF assms(1,2), of "fake_ports cf" sha s' r] assms(3,4) by (simp add: fake_ports_def)

definition demo_fake_world :: "(fake_registry, unit) authority_world" where
  "demo_fake_world = \<lparr>aw_registry = \<lparr>fr_records = [], fr_by_operation = []\<rparr>, aw_custody = (), aw_confirmed = []\<rparr>"

lemma demo_fake_register:
  "snd (authority_register demo_sha (fake_ports demo_confirm) demo_request demo_fake_world) = Inr demo_registered"
  by code_simp

theorem registration_idempotent_witness:
  "\<exists>s'. snd (authority_register demo_sha (fake_ports demo_confirm) demo_request demo_fake_world) = Inr demo_registered \<and>
    authority_register demo_sha (fake_ports demo_confirm) demo_request s' = (s', Inr demo_registered)"
proof -
  obtain s' where run: "authority_register demo_sha (fake_ports demo_confirm) demo_request demo_fake_world = (s', Inr demo_registered)"
    using demo_fake_register by (metis prod.collapse)
  have "fake_inv (aw_registry demo_fake_world)"
    by (rule fake_invI) (simp_all add: demo_fake_world_def fake_stored_def)
  from registration_idempotent [OF this demo_registration_ok demo_faithful_custody run] run show ?thesis by auto
qed

text \<open>Over PostgreSQL a read has no receipt, so that nothing that is read matches a request.\<close>

lemma pg_get_receipt: "pg_get Committed p t = (t', Inr r) \<Longrightarrow> t' = t \<and> ir_receipt r = None \<and> pg_stored t p \<noteq> None"
  by (auto simp: pg_get_def transaction_def sbind_def gets_def lift_result_def raise_exn_def record_from_row_def pg_stored_def Let_def
      split: option.splits if_splits)

lemma pg_get_stored:
  assumes "pg_inv t" "pg_stored t p = Some x"
  shows "pg_get Committed p t = (t, Inr (x\<lparr>ir_receipt := None\<rparr>))"
proof -
  from assms(2) obtain row where row: "find_row (pointer_key p) t = Some row" "x = full_record row" by (auto simp: pg_stored_def)
  then have "record_ok x" using assms(1) pg_invD(3) find_row_iff [OF pg_invD(1)] by blast
  with row show ?thesis
    by (simp add: pg_get_def transaction_def sbind_def gets_def lift_result_def record_from_row_def Let_def full_record_def record_ok_def)
qed

text \<open>C31: over the PostgreSQL registry every registration for an instance that is already in the table,
  also the retry of one that was accepted, raises a registration conflict: reading a row drops its
  receipt, without which it matches no request.\<close>

theorem postgres_retry_conflicts:
  assumes "pg_inv (aw_registry s)" "pg_stored (aw_registry s) (rq_pointer q) = Some r"
    and "snd (custody_request_of sha q s) = Inr c"
  shows "authority_register sha (pg_ports cf) q s = (s, Inl (Raised (RegistrationConflict (rq_pointer q))))"
proof -
  have custody: "custody_request_of sha q s = (s, Inr c)"
    using custody_request_of_run [where 'g = registry_table and 'c = 'a and sha = sha and q = q] assms(3) by cases simp_all
  have "existing_record (pg_ports cf) (rq_pointer q) s = (s, Inr (Some (r\<lparr>ir_receipt := None\<rparr>)))"
    using pg_get_stored [OF assms(1,2)]
    by (simp add: existing_record_def pg_ports_def try_catch_def sbind_def on_registry_def ret_def)
  moreover have "\<not> matches (r\<lparr>ir_receipt := None\<rparr>) q" by (simp add: matches_def)
  ultimately show ?thesis using custody by (simp add: authority_register_def sbind_def raise_exn_def)
qed

definition demo_pg_world :: "(registry_table, unit) authority_world" where
  "demo_pg_world = \<lparr>aw_registry = [], aw_custody = (), aw_confirmed = []\<rparr>"

lemma demo_pg_register:
  "authority_register demo_sha (pg_ports demo_confirm) demo_request demo_pg_world =
     (\<lparr>aw_registry = [receipt_row demo_registered (the (ir_receipt demo_registered))], aw_custody = (),
       aw_confirmed = aw_confirmed (fst (authority_register demo_sha (pg_ports demo_confirm) demo_request demo_pg_world))\<rparr>,
      Inr demo_registered)"
proof -
  have "aw_registry (fst (authority_register demo_sha (pg_ports demo_confirm) demo_request demo_pg_world)) =
      [receipt_row demo_registered (the (ir_receipt demo_registered))]"
    "snd (authority_register demo_sha (pg_ports demo_confirm) demo_request demo_pg_world) = Inr demo_registered"
    by code_simp+
  then show ?thesis by (metis authority_world.surjective old.unit.exhaust prod.collapse)
qed

theorem postgres_retry_conflicts_witness:
  "\<exists>s'. authority_register demo_sha (pg_ports demo_confirm) demo_request demo_pg_world = (s', Inr demo_registered) \<and>
    authority_register demo_sha (pg_ports demo_confirm) demo_request s' = (s', Inl (Raised (RegistrationConflict demo_pointer)))"
proof -
  define s' where "s' = fst (authority_register demo_sha (pg_ports demo_confirm) demo_request demo_pg_world)"
  have run: "authority_register demo_sha (pg_ports demo_confirm) demo_request demo_pg_world = (s', Inr demo_registered)"
    unfolding s'_def using demo_pg_register by (metis prod.collapse snd_conv)
  have reg: "aw_registry s' = [receipt_row demo_registered (the (ir_receipt demo_registered))]"
    using demo_pg_register run by (metis authority_world.select_convs(1) prod.inject)
  have "pg_inv (aw_registry s')" unfolding reg pg_inv_def unique_operations_def by code_simp
  moreover have "pg_stored (aw_registry s') (rq_pointer demo_request) = Some demo_registered" unfolding reg by code_simp
  moreover obtain c where "snd (custody_request_of demo_sha demo_request s') = Inr c"
  proof -
    have "is_ok (snd (custody_request_of demo_sha demo_request demo_pg_world))" by code_simp
    then have "is_ok (snd (custody_request_of demo_sha demo_request s'))"
      by (simp add: custody_request_of_def ret_def raise_exn_def split: sum.splits)
    with that show ?thesis by (auto simp: is_ok_iff)
  qed
  ultimately have "authority_register demo_sha (pg_ports demo_confirm) demo_request s' =
      (s', Inl (Raised (RegistrationConflict (rq_pointer demo_request))))"
    by (rule postgres_retry_conflicts)
  with run show ?thesis by (auto simp: demo_request_def)
qed

section \<open>Custody is asked at most once\<close>

lemma on_registry_confirmed: "aw_confirmed (fst (on_registry m s)) = aw_confirmed s"
  by (simp add: on_registry_def split: prod.split sum.split)

lemma register_new_confirmed: "aw_confirmed (fst (register_new ports r s)) = aw_confirmed s"
proof -
  obtain s1 out where first: "on_registry (ap_register ports r) s = (s1, out)" by fastforce
  have s1: "aw_confirmed s1 = aw_confirmed s" using on_registry_confirmed [of "ap_register ports r" s] first by simp
  show ?thesis
  proof (cases out)
    case (Inl e)
    then have "register_new ports r s \<in> {(s1, Inl e), on_registry (ap_register ports r) s1}"
      by (auto simp: register_new_def try_catch_def first raise_exn_def split: authority_exn.splits exn.splits)
    then show ?thesis using s1 on_registry_confirmed [of "ap_register ports r" s1] by auto
  qed (simp add: register_new_def try_catch_def first s1)
qed

lemma existing_record_cases:
  obtains (absent) p s1 where "existing_record ports q s = (s1, Inr None)" "aw_confirmed s1 = aw_confirmed s"
      "snd (ap_get ports q (aw_registry s)) = Inl (RecordNotFound p)"
  | (present) s1 r where "existing_record ports q s = (s1, Inr (Some r))" "aw_confirmed s1 = aw_confirmed s"
  | (raised) s1 e where "existing_record ports q s = (s1, Inl e)" "aw_confirmed s1 = aw_confirmed s"
proof -
  obtain g out where g: "ap_get ports q (aw_registry s) = (g, out)" by fastforce
  note run = existing_record_def try_catch_def sbind_def on_registry_def ret_def raise_exn_def g
  show thesis
  proof (cases out)
    case (Inr r)
    then show ?thesis using present by (simp add: run)
  next
    case (Inl e)
    then show ?thesis using absent raised by (cases e) (simp_all add: run)
  qed
qed

text \<open>C32: whatever the registry and the custody adapter do, also when it raises, a registration asks the
  custody adapter at most once, and only when the request is a valid custody request and the registry
  had answered that the pointer is not registered.\<close>

theorem custody_asked_at_most_once:
  "\<exists>cs. aw_confirmed (fst (authority_register sha ports q s)) = aw_confirmed s @ cs \<and> length cs \<le> 1 \<and>
    set cs \<subseteq> {c. mk_custody_request sha c = Inr c \<and> cq_operation c = rq_operation q \<and>
      (\<exists>p. snd (ap_get ports (rq_pointer q) (aw_registry s)) = Inl (RecordNotFound p))}"
  using custody_request_of_run [where 'g = 'a and 'c = 'b and sha = sha and q = q]
proof cases
  case invalid
  then show ?thesis by (simp add: authority_register_def sbind_def)
next
  case (valid c)
  note run = authority_register_def sbind_def valid(1)
  show ?thesis
  proof (cases rule: existing_record_cases [of ports "rq_pointer q" s])
    case (absent p s1)
    have "aw_confirmed (fst (authority_register sha ports q s)) = aw_confirmed s @ [c]"
      using absent by (simp add: run confirm_def register_new_confirmed split: prod.split sum.split)
    with valid(2,5) absent(3) show ?thesis by auto
  next
    case (present s1 r)
    then show ?thesis by (simp add: run ret_def raise_exn_def)
  next
    case (raised s1 e)
    then show ?thesis by (simp add: run)
  qed
qed

section \<open>What reconciliation reports\<close>

definition all_ready :: "instance_status \<Rightarrow> bool" where
  "all_ready st \<longleftrightarrow> rs_running (is_odoo st) \<and> rs_ready (is_odoo st) \<and> rs_running (is_postgres st) \<and> rs_ready (is_postgres st)"

text \<open>What is observed of one record, and of the records one after the other.\<close>

datatype observation = No_Handle | No_Answer | Observed instance_status

definition observe ::
    "(string \<Rightarrow> string) \<Rightarrow> (instance_ref \<Rightarrow> ('s, exn, instance_status) prog) \<Rightarrow> instance_record \<Rightarrow> 's \<Rightarrow> 's \<times> observation" where
  "observe sha status r s =
     (case instance_ref_of_record sha r of
        None \<Rightarrow> (s, No_Handle)
      | Some ref \<Rightarrow> (case status ref s of (s', Inl _) \<Rightarrow> (s', No_Answer) | (s', Inr live) \<Rightarrow> (s', Observed live)))"

fun observe_all ::
    "(string \<Rightarrow> string) \<Rightarrow> (instance_ref \<Rightarrow> ('s, exn, instance_status) prog) \<Rightarrow> instance_record list \<Rightarrow> 's \<Rightarrow> 's \<times> observation list" where
  "observe_all sha status [] s = (s, [])"
| "observe_all sha status (r # rs) s =
     (case observe sha status r s of (s', x) \<Rightarrow> (case observe_all sha status rs s' of (s'', xs) \<Rightarrow> (s'', x # xs)))"

fun seen :: "observation \<Rightarrow> instance_status option" where
  "seen (Observed live) = Some live"
| "seen _ = None"

definition verified :: "observation \<Rightarrow> bool" where
  "verified x \<longleftrightarrow> seen x \<noteq> None"

definition healthy :: "observation \<Rightarrow> bool" where
  "healthy x \<longleftrightarrow> pred_option all_ready (seen x) \<and> verified x"

text \<open>The row and the report that are due for what was observed.\<close>

definition row_for :: "bool \<Rightarrow> instance_record \<times> observation \<Rightarrow> reconciliation_row" where
  "row_for partial = (\<lambda>(r, x).
     \<lparr>rr_record = r, rr_live = seen x,
      rr_outcome = (if healthy x then FRESH else if verified x then DRIFTED else if partial then PARTIAL_FAILURE else STALE_UNVERIFIED),
      rr_detail = (case x of No_Handle \<Rightarrow> Some ''resource handle could not be verified''
                   | No_Answer \<Rightarrow> Some ''live status could not be verified'' | Observed _ \<Rightarrow> None)\<rparr>)"

definition report_for :: "(instance_record \<times> observation) list \<Rightarrow> reconciliation_result" where
  "report_for zs =
     (let xs = map snd zs; partial = (list_ex verified xs \<and> \<not> list_all verified xs) in
      \<lparr>rres_outcome = (if xs = [] then EMPTY else if \<not> list_ex verified xs then STALE_UNVERIFIED else if partial then PARTIAL_FAILURE
                       else if list_all healthy xs then FRESH else DRIFTED),
       rres_rows = map (row_for partial) zs, rres_detail = None\<rparr>)"

lemma status_outcome_iff: "status_outcome st = (if all_ready st then FRESH else DRIFTED)"
  by (auto simp: status_outcome_def all_ready_def)

lemma reconcile_row_run: "reconcile_row sha status r s = (case observe sha status r s of (s', x) \<Rightarrow> (s', Inr (row_for False (r, x))))"
  by (auto simp: reconcile_row_def observe_def row_for_def healthy_def verified_def status_outcome_iff try_catch_def sbind_def ret_def
      split: option.split prod.split sum.split)

lemma reconcile_rows_run:
  "smap (reconcile_row sha status) rs s = (case observe_all sha status rs s of (s', xs) \<Rightarrow> (s', Inr (map (row_for False) (zip rs xs))))"
  by (induction rs arbitrary: s) (auto simp: ret_def sbind_def reconcile_row_run split: prod.split)

lemma observe_all_length: "observe_all sha status rs s = (s', xs) \<Longrightarrow> length xs = length rs"
  by (induction rs arbitrary: s s' xs) (auto split: prod.splits)

lemma row_for_outcome:
  "rr_outcome (row_for False z) = STALE_UNVERIFIED \<longleftrightarrow> \<not> verified (snd z)"
  "rr_outcome (row_for False z) = DRIFTED \<longleftrightarrow> verified (snd z) \<and> \<not> healthy (snd z)"
  "(if rr_outcome (row_for False z) = STALE_UNVERIFIED then (row_for False z)\<lparr>rr_outcome := PARTIAL_FAILURE\<rparr> else row_for False z) = row_for True z"
  by (cases z; auto simp: row_for_def healthy_def)+

lemma row_for_verified: "verified (snd z) \<Longrightarrow> row_for True z = row_for False z"
  by (cases z) (auto simp: row_for_def)

lemma envelope_report:
  assumes "zs \<noteq> []"
  shows "reconcile_envelope (map (row_for False) zs) = report_for zs"
proof -
  let ?xs = "map snd zs" and ?rows = "map (row_for False) zs"
  have failures: "STALE_UNVERIFIED \<in> rr_outcome ` set ?rows \<longleftrightarrow> \<not> list_all verified ?xs"
    unfolding list_all_iff list.set_map Set.ball_simps row_for_outcome(1) [symmetric] by (auto simp: image_iff eq_commute)
  have usable: "filter (\<lambda>o'. o' \<noteq> STALE_UNVERIFIED) (map rr_outcome ?rows) \<noteq> [] \<longleftrightarrow> list_ex verified ?xs"
    by (auto simp: filter_empty_conv list_ex_iff row_for_outcome)
  have drifted: "DRIFTED \<in> rr_outcome ` set ?rows \<longleftrightarrow> (\<exists>z \<in> set zs. verified (snd z) \<and> \<not> healthy (snd z))"
    unfolding row_for_outcome(2) [symmetric] by (auto simp: image_iff eq_commute)
  have all_ex: "list_all verified ?xs \<Longrightarrow> list_ex verified ?xs" using assms by (cases zs) auto
  show ?thesis
  proof (cases "list_ex verified ?xs \<and> \<not> list_all verified ?xs")
    case True
    then show ?thesis using failures usable assms row_for_outcome(3)
      by (simp add: reconcile_envelope_def report_for_def Let_def comp_def image_image)
  next
    case False
    have "\<not> (list_all verified ?xs) \<Longrightarrow> DRIFTED \<notin> rr_outcome ` set ?rows"
      using False unfolding drifted by (auto simp: list_ex_iff)
    moreover have "list_all verified ?xs \<Longrightarrow> DRIFTED \<in> rr_outcome ` set ?rows \<longleftrightarrow> \<not> list_all healthy ?xs"
      unfolding drifted by (auto simp: list_all_iff)
    ultimately show ?thesis using False failures usable assms all_ex
      by (auto simp: reconcile_envelope_def report_for_def Let_def image_image)
  qed
qed

lemma reconcile_run:
  "reconcile sha status records s =
     (let rs = sort_key (\<lambda>r. ip_instance_id (ir_pointer r)) records in
      case observe_all sha status rs s of (s', xs) \<Rightarrow> (s', Inr (report_for (zip rs xs))))"
proof (cases "sort_key (\<lambda>r. ip_instance_id (ir_pointer r)) records")
  case Nil
  then show ?thesis by (simp add: reconcile_def ret_def report_for_def)
next
  case (Cons r rs)
  obtain s' xs where obs: "observe_all sha status (r # rs) s = (s', xs)" by fastforce
  then have "zip (r # rs) xs \<noteq> []" using observe_all_length [OF obs] by (cases xs) auto
  then show ?thesis unfolding reconcile_def Let_def Cons
    by (simp add: sbind_def reconcile_rows_run obs ret_def envelope_report del: smap.simps observe_all.simps)
qed

text \<open>C33: the reconciler never raises, and its report is exactly the one due for what was observed. An
  unreadable registry is reported as such. Otherwise the records are observed in the order of their instance
  ids, and there is one row for each, with the live status the status reader returned for it, fresh or
  drifted by that status; a record that could not be observed has a row that says why, stale when none could be observed
  and a partial failure otherwise. The overall outcome follows from the rows.\<close>

theorem reconciler_reports_exactly:
  "reconciler_list sha list_records status scope s =
     (case list_records scope s of
        (s1, Inl _) \<Rightarrow> (s1, Inr persistence_error)
      | (s1, Inr records) \<Rightarrow>
          (let rs = sort_key (\<lambda>r. ip_instance_id (ir_pointer r)) records in
           case observe_all sha status rs s1 of (s2, xs) \<Rightarrow> (s2, Inr (report_for (zip rs xs)))))"
  by (auto simp: reconciler_list_def sbind_def try_catch_def ret_def reconcile_run split: prod.split sum.split)

text \<open>A record that the authority may register is never one the reconciler can observe: custody accepts
  only the resource kind \<open>container\<close>, and the reconciler only \<open>instance\<close>, so that its row is always
  reported as unverified.\<close>

theorem registered_records_stay_unverified:
  assumes "snd (custody_request_of sha q s) = Inr c"
  shows "instance_ref_of_record sha \<lparr>ir_pointer = rq_pointer q, ir_resource = rq_resource q, ir_receipt = receipt\<rparr> = None"
proof -
  have "rf_resource_kind (rq_resource q) = ''container''"
    using custody_request_of_run [where 'g = 'a and 'c = 'b and sha = sha and q = q] assms by cases simp_all
  then show ?thesis by (simp add: instance_ref_of_record_def Let_def)
qed

theorem registered_records_stay_unverified_witness:
  "instance_ref_of_record demo_sha \<lparr>ir_pointer = rq_pointer demo_request, ir_resource = rq_resource demo_request, ir_receipt = None\<rparr> = None"
proof -
  have "is_ok (snd (custody_request_of demo_sha demo_request demo_pg_world))" by code_simp
  then obtain c where "snd (custody_request_of demo_sha demo_request demo_pg_world) = Inr c" by (auto simp: is_ok_iff)
  then show ?thesis by (rule registered_records_stay_unverified)
qed

end
