(* ===== verification/Ownership_Authority.thy ===== *)
theory Ownership_Authority
  imports Control_Plane
begin

text \<open>
  The local ownership authority and the custody adapter over it
  (\<open>odoo_forge_postgres_docker/authority.py\<close>): signed records in one state file below a private
  directory, changed under an exclusive lock by atomic replacement. Ed25519 and base64 are the parameters
  \<open>cr_sign\<close> (\<open>None\<close>: the key cannot be decoded) and \<open>cr_verify\<close>. The world is what the code sees of the file
  system: the directory, the lock and the state file with owner and mode, the outcomes of the coming
  writes, and the keys the random generator will deliver. An operation runs under the lock, so that it
  is one step of the world; a symbolic link carries whether its target exists.
\<close>

section \<open>The file system\<close>

datatype node_kind = Regular string | Directory | Link bool | OtherNode

record node =
  nd_kind :: node_kind
  nd_uid :: nat
  nd_mode :: nat

record authority_fs =
  fs_uid :: nat
  fs_parent_ok :: bool
  fs_root :: "node option"
  fs_lock :: "node option"
  fs_state :: "node option"
  fs_writes :: "bool list"
  fs_fresh :: "nat \<Rightarrow> string \<times> string"
  fs_drawn :: nat

datatype custody_exn = AuthorityCustody | AuthorityState | CustodyConflict | CustodyUnverifiable | BadKey

type_synonym 'a custody_prog = "(authority_fs, custody_exn, 'a) prog"

record crypto =
  cr_sign :: "string \<Rightarrow> string \<Rightarrow> string option"
  cr_verify :: "string \<Rightarrow> string \<Rightarrow> string \<Rightarrow> bool"

definition DIRECTORY_MODE :: nat where "DIRECTORY_MODE = 448"

definition FILE_MODE :: nat where "FILE_MODE = 384"

definition path_exists :: "node option \<Rightarrow> bool" where
  "path_exists n = (case n of None \<Rightarrow> False | Some x \<Rightarrow> (case nd_kind x of Link target \<Rightarrow> target | _ \<Rightarrow> True))"

definition is_regular :: "node_kind \<Rightarrow> bool" where
  "is_regular k = (case k of Regular _ \<Rightarrow> True | _ \<Rightarrow> False)"

definition validate_private_path :: "nat \<Rightarrow> node option \<Rightarrow> nat \<Rightarrow> bool \<Rightarrow> (custody_exn, unit) result" where
  "validate_private_path uid n mode directory =
     (case n of None \<Rightarrow> Inl AuthorityCustody
      | Some x \<Rightarrow> guard ((if directory then nd_kind x = Directory else is_regular (nd_kind x)) \<and> nd_uid x = uid \<and> nd_mode x = mode)
          AuthorityCustody)"

definition ensure_root :: "unit custody_prog" where
  "ensure_root =
     sthen (\<lambda>s. case fs_root s of
          Some _ \<Rightarrow> (s, Inr ())
        | None \<Rightarrow> if fs_parent_ok s
            then (s\<lparr>fs_root := Some \<lparr>nd_kind = Directory, nd_uid = fs_uid s, nd_mode = DIRECTORY_MODE\<rparr>\<rparr>, Inr ())
            else (s, Inl AuthorityCustody))
     (\<lambda>s. (s, validate_private_path (fs_uid s) (fs_root s) DIRECTORY_MODE True))"

definition open_lock :: "unit custody_prog" where
  "open_lock =
     sthen (modify (\<lambda>s. case fs_lock s of
          Some _ \<Rightarrow> s | None \<Rightarrow> s\<lparr>fs_lock := Some \<lparr>nd_kind = Regular [], nd_uid = fs_uid s, nd_mode = FILE_MODE\<rparr>\<rparr>))
     (\<lambda>s. (s, validate_private_path (fs_uid s) (fs_lock s) FILE_MODE False))"

definition open_state :: "string custody_prog" where
  "open_state = (\<lambda>s. (s, case fs_state s of
       None \<Rightarrow> Inl AuthorityState
     | Some x \<Rightarrow> rbind (validate_private_path (fs_uid s) (Some x) FILE_MODE False) (\<lambda>_.
         case nd_kind x of Regular text \<Rightarrow> Inr text | _ \<Rightarrow> Inl AuthorityCustody)))"

definition locked :: "'a custody_prog \<Rightarrow> 'a custody_prog" where
  "locked body = sthen ensure_root (sthen open_lock body)"

section \<open>Records and state\<close>

type_synonym dict = "(string \<times> json) list"

record authority_state =
  au_generation :: int
  au_records :: "dict list"
  au_keys :: "(string \<times> string) list"
  au_active_key :: string
  au_used_nonces :: "string list"

definition REQUIRED_RECORD_FIELDS :: "string list" where
  "REQUIRED_RECORD_FIELDS = [''operation'', ''kind'', ''name'', ''docker_id'', ''state'']"

definition STORED_RECORD_FIELDS :: "string list" where
  "STORED_RECORD_FIELDS = REQUIRED_RECORD_FIELDS @ [''generation'', ''key_id'', ''signature'']"

definition container_record :: "string \<Rightarrow> string \<Rightarrow> string \<Rightarrow> string \<Rightarrow> dict" where
  "container_record operation name docker_id state =
     [(''operation'', JStr operation), (''kind'', JStr ''container''), (''name'', JStr name),
      (''docker_id'', JStr docker_id), (''state'', JStr state)]"

definition field_is :: "string \<Rightarrow> string \<Rightarrow> dict \<Rightarrow> bool" where
  "field_is key value r \<longleftrightarrow> map_of r key = Some (JStr value)"

definition has_fields :: "string list \<Rightarrow> dict \<Rightarrow> bool" where
  "has_fields keys r \<longleftrightarrow> list_all (\<lambda>k. map_of r k \<noteq> None) keys"

definition is_str :: "json \<Rightarrow> bool" where
  "is_str v = (case v of JStr _ \<Rightarrow> True | _ \<Rightarrow> False)"

definition as_int :: "json \<Rightarrow> int option" where
  "as_int v = (case v of JInt i \<Rightarrow> Some i | JBool b \<Rightarrow> Some (if b then 1 else 0) | _ \<Rightarrow> None)"

definition validate_record :: "dict \<Rightarrow> (custody_exn, unit) result" where
  "validate_record r = guard (has_fields REQUIRED_RECORD_FIELDS r \<and> list_all (\<lambda>(_, v). is_str v) r \<and>
     list_all (\<lambda>k. \<not> field_is k [] r) [''operation'', ''kind'', ''name'', ''state''] \<and>
     list_ex (\<lambda>v. field_is ''state'' v r) [''reserved'', ''active'', ''retired''] \<and>
     (field_is ''state'' ''reserved'' r \<or> \<not> field_is ''docker_id'' [] r)) AuthorityState"

definition signing_payload :: "dict \<Rightarrow> string" where
  "signing_payload r = json_dumps False (JObj (filter (\<lambda>(k, _). k \<noteq> ''signature'') r))"

definition sign_values :: "crypto \<Rightarrow> string \<Rightarrow> dict \<Rightarrow> (custody_exn, string) result" where
  "sign_values c key values = of_option BadKey (cr_sign c key (signing_payload values))"

definition verify_values :: "crypto \<Rightarrow> string \<Rightarrow> dict \<Rightarrow> bool" where
  "verify_values c key values = (case map_of values ''signature'' of
     Some (JStr s) \<Rightarrow> cr_verify c key s (signing_payload values) | _ \<Rightarrow> False)"

definition project_fields :: "string list \<Rightarrow> dict \<Rightarrow> dict" where
  "project_fields keys r = map (\<lambda>k. (k, case map_of r k of Some v \<Rightarrow> v | None \<Rightarrow> JNull)) keys"

fun validate_records :: "crypto \<Rightarrow> (string \<times> string) list \<Rightarrow> int \<Rightarrow> json list \<Rightarrow> (custody_exn, dict list \<times> int) result" where
  "validate_records c keys highest [] = Inr ([], highest)"
| "validate_records c keys highest (v # vs) =
     (case v of
        JObj r \<Rightarrow>
          rbind (guard (has_fields STORED_RECORD_FIELDS r) AuthorityState) (\<lambda>_.
          rbind (case map_of r ''key_id'' of Some (JStr k) \<Rightarrow> of_option AuthorityState (map_of keys k) | _ \<Rightarrow> Inl AuthorityState) (\<lambda>key.
          rbind (validate_record (project_fields REQUIRED_RECORD_FIELDS r)) (\<lambda>_.
          rbind (of_option AuthorityState (Option.bind (map_of r ''generation'') as_int)) (\<lambda>generation.
          rbind (guard (highest < generation) AuthorityState) (\<lambda>_.
          rbind (guard (verify_values c key r) AuthorityState) (\<lambda>_.
          rbind (validate_records c keys generation vs) (\<lambda>(rs, top).
          Inr (r # rs, top))))))))
      | _ \<Rightarrow> Inl AuthorityState)"

fun str_values :: "dict \<Rightarrow> (string \<times> string) list option" where
  "str_values [] = Some []"
| "str_values ((k, v) # kvs) = (case v of JStr s \<Rightarrow> map_option (\<lambda>r. (k, s) # r) (str_values kvs) | _ \<Rightarrow> None)"

fun str_items_of :: "json list \<Rightarrow> string list option" where
  "str_items_of [] = Some []"
| "str_items_of (v # vs) = (case v of JStr s \<Rightarrow> map_option ((#) s) (str_items_of vs) | _ \<Rightarrow> None)"

definition validate_state :: "crypto \<Rightarrow> json \<Rightarrow> (custody_exn, authority_state) result" where
  "validate_state c payload =
     (case (Option.bind (jget ''generation'' payload) as_int, jget ''records'' payload, jget ''keys'' payload,
            jget ''used_nonces'' payload, jget ''active_key'' payload) of
        (Some generation, Some (JArr records), Some (JObj keys), Some (JArr nonces), Some (JStr active_key)) \<Rightarrow>
          (case (str_values keys, str_items_of nonces) of
             (Some keys, Some nonces) \<Rightarrow>
               rbind (guard (0 \<le> generation \<and> map_of keys active_key \<noteq> None) AuthorityState) (\<lambda>_.
               rbind (validate_records c keys 0 records) (\<lambda>(copied, highest).
               rbind (guard (highest = generation) AuthorityState) (\<lambda>_.
               Inr \<lparr>au_generation = generation, au_records = copied, au_keys = keys, au_active_key = active_key,
                    au_used_nonces = nonces\<rparr>)))
           | _ \<Rightarrow> Inl AuthorityState)
      | _ \<Rightarrow> Inl AuthorityState)"

definition state_json :: "authority_state \<Rightarrow> json" where
  "state_json st = JObj
     [(''generation'', JInt (au_generation st)), (''records'', JArr (map JObj (au_records st))),
      (''keys'', JObj (map (apsnd JStr) (au_keys st))), (''used_nonces'', JArr (map JStr (au_used_nonces st))),
      (''active_key'', JStr (au_active_key st))]"

section \<open>Reading and writing\<close>

definition read_state :: "crypto \<Rightarrow> authority_state custody_prog" where
  "read_state c =
     sthen ensure_root (sbind open_state (\<lambda>text.
     lift_result (case json_loads text of None \<Rightarrow> Inl AuthorityState | Some payload \<Rightarrow> validate_state c payload)))"

text \<open>
  The next element of \<open>fs_writes\<close> says whether the temporary file could be written and renamed; no element
  means that it could. After the rename nothing raises: the temporary name is gone, which \<open>unlink\<close> accepts,
  and a failing \<open>fsync\<close> of the directory is suppressed.
\<close>

definition write_atomic :: "authority_state \<Rightarrow> unit custody_prog" where
  "write_atomic st = (\<lambda>s.
     let s' = s\<lparr>fs_writes := tl (fs_writes s)\<rparr>;
         blocked = (case fs_state s of Some x \<Rightarrow> nd_kind x = Directory | None \<Rightarrow> False) in
     if blocked \<or> fs_writes s \<noteq> [] \<and> \<not> hd (fs_writes s) then (s', Inl AuthorityState)
     else (s'\<lparr>fs_state := Some \<lparr>nd_kind = Regular (json_dumps False (state_json st)), nd_uid = fs_uid s, nd_mode = FILE_MODE\<rparr>\<rparr>, Inr ()))"

definition add_key :: "authority_state \<Rightarrow> authority_state custody_prog" where
  "add_key st = (\<lambda>s. case fs_fresh s (fs_drawn s) of (key_id, key) \<Rightarrow>
     (s\<lparr>fs_drawn := Suc (fs_drawn s)\<rparr>, Inr (st\<lparr>au_keys := AList.update key_id key (au_keys st), au_active_key := key_id\<rparr>)))"

definition read_or_initial_state :: "crypto \<Rightarrow> bool \<Rightarrow> authority_state custody_prog" where
  "read_or_initial_state c initializing =
     sbind (gets (\<lambda>s. path_exists (fs_state s))) (\<lambda>present.
     if \<not> present then
       (if \<not> initializing then raise_exn AuthorityState
        else add_key \<lparr>au_generation = 0, au_records = [], au_keys = [], au_active_key = [], au_used_nonces = []\<rparr>)
     else read_state c)"

definition append_record :: "crypto \<Rightarrow> authority_state \<Rightarrow> dict \<Rightarrow> authority_state custody_prog" where
  "append_record c st r =
     sthen (lift_result (validate_record r))
     (let generation = au_generation st + 1;
          stored = AList.update ''key_id'' (JStr (au_active_key st)) (AList.update ''generation'' (JInt generation) r) in
      sbind (lift_result (of_option BadKey (map_of (au_keys st) (au_active_key st)))) (\<lambda>key.
      sbind (lift_result (sign_values c key stored)) (\<lambda>signature.
      let st' = st\<lparr>au_generation := generation, au_records := au_records st @ [AList.update ''signature'' (JStr signature) stored]\<rparr> in
      sthen (write_atomic st') (ret st'))))"

section \<open>Operations\<close>

definition latest :: "authority_state \<Rightarrow> string \<Rightarrow> string \<Rightarrow> dict option" where
  "latest st operation name = find (\<lambda>r. field_is ''operation'' operation r \<and> field_is ''name'' name r) (rev (au_records st))"

definition is_initializing :: "bool custody_prog" where
  "is_initializing = gets (\<lambda>s. \<not> path_exists (fs_lock s))"

definition auth_write :: "crypto \<Rightarrow> dict \<Rightarrow> unit custody_prog" where
  "auth_write c r =
     sthen (lift_result (validate_record r))
     (sbind is_initializing (\<lambda>initializing.
     locked (sbind (read_or_initial_state c initializing) (\<lambda>st. sthen (append_record c st r) (ret ())))))"

definition reserve :: "crypto \<Rightarrow> string \<Rightarrow> string \<Rightarrow> unit custody_prog" where
  "reserve c operation name =
     sbind is_initializing (\<lambda>initializing.
     locked (sbind (read_or_initial_state c initializing) (\<lambda>st.
       sthen (append_record c st (container_record operation name [] ''reserved'')) (ret ()))))"

definition auth_transition :: "crypto \<Rightarrow> string \<Rightarrow> string \<Rightarrow> string \<Rightarrow> string \<Rightarrow> string \<Rightarrow> unit custody_prog" where
  "auth_transition c operation name docker_id expected target =
     locked (sbind (read_or_initial_state c False) (\<lambda>st.
       case latest st operation name of
         None \<Rightarrow> raise_exn AuthorityState
       | Some r \<Rightarrow>
           if \<not> field_is ''state'' expected r \<or> \<not> (field_is ''docker_id'' [] r \<or> field_is ''docker_id'' docker_id r)
           then raise_exn AuthorityState
           else sthen (append_record c st (container_record operation name docker_id target)) (ret ())))"

definition bind_resource :: "crypto \<Rightarrow> string \<Rightarrow> string \<Rightarrow> string \<Rightarrow> unit custody_prog" where
  "bind_resource c operation name docker_id = auth_transition c operation name docker_id ''reserved'' ''reserved''"

definition activate :: "crypto \<Rightarrow> string \<Rightarrow> string \<Rightarrow> string \<Rightarrow> unit custody_prog" where
  "activate c operation name docker_id = auth_transition c operation name docker_id ''reserved'' ''active''"

definition retire :: "crypto \<Rightarrow> string \<Rightarrow> string \<Rightarrow> string \<Rightarrow> unit custody_prog" where
  "retire c operation name docker_id = auth_transition c operation name docker_id ''active'' ''retired''"

definition str_field :: "string \<Rightarrow> dict \<Rightarrow> string" where
  "str_field key r = (case map_of r key of Some (JStr s) \<Rightarrow> s | _ \<Rightarrow> [])"

definition retire_absent :: "crypto \<Rightarrow> string \<Rightarrow> string \<Rightarrow> string option \<Rightarrow> unit custody_prog" where
  "retire_absent c operation name docker_id =
     locked (sbind (read_or_initial_state c False) (\<lambda>st.
       case latest st operation name of
         None \<Rightarrow> raise_exn AuthorityState
       | Some r \<Rightarrow>
           if \<not> (field_is ''state'' ''active'' r \<or> field_is ''state'' ''retired'' r) \<or>
              (case docker_id of None \<Rightarrow> False | Some i \<Rightarrow> \<not> field_is ''docker_id'' i r)
           then raise_exn AuthorityState
           else if field_is ''state'' ''retired'' r then ret ()
           else sthen (append_record c st (container_record operation name (str_field ''docker_id'' r) ''retired'')) (ret ())))"

definition held_by_other_operation :: "authority_state \<Rightarrow> string \<Rightarrow> string \<Rightarrow> bool" where
  "held_by_other_operation st operation name =
     list_ex (\<lambda>(_, held). held \<noteq> Some (JStr ''retired''))
       (fold (\<lambda>r d. if field_is ''name'' name r \<and> \<not> field_is ''operation'' operation r
                    then AList.update (map_of r ''operation'') (map_of r ''state'') d else d) (au_records st) [])"

fun append_all :: "crypto \<Rightarrow> authority_state \<Rightarrow> dict list \<Rightarrow> unit custody_prog" where
  "append_all c st [] = ret ()"
| "append_all c st (r # rs) = sbind (append_record c st r) (\<lambda>st'. append_all c st' rs)"

definition converge :: "crypto \<Rightarrow> string \<Rightarrow> string \<Rightarrow> string \<Rightarrow> unit custody_prog" where
  "converge c operation name docker_id =
     sbind is_initializing (\<lambda>initializing.
     locked (sbind (read_or_initial_state c initializing) (\<lambda>st.
       let reserved = container_record operation name [] ''reserved'';
           bound = container_record operation name docker_id ''reserved'';
           active = container_record operation name docker_id ''active'' in
       if held_by_other_operation st operation name then raise_exn CustodyConflict
       else case latest st operation name of
         None \<Rightarrow> append_all c st [reserved, bound, active]
       | Some r \<Rightarrow>
           if field_is ''state'' ''reserved'' r \<and> field_is ''docker_id'' [] r then append_all c st [bound, active]
           else if field_is ''state'' ''reserved'' r \<and> field_is ''docker_id'' docker_id r then append_all c st [active]
           else if \<not> field_is ''kind'' ''container'' r \<or> \<not> field_is ''state'' ''active'' r \<or> \<not> field_is ''docker_id'' docker_id r
           then raise_exn CustodyConflict
           else ret ())))"

definition rotate_keys :: "crypto \<Rightarrow> unit custody_prog" where
  "rotate_keys c = locked (sbind (read_state c) (\<lambda>st. sbind (add_key st) write_atomic))"

definition auth_owns :: "crypto \<Rightarrow> string \<Rightarrow> string \<Rightarrow> string \<Rightarrow> bool custody_prog" where
  "auth_owns c operation name docker_id = sbind (read_state c) (\<lambda>st.
     ret (case latest st operation name of None \<Rightarrow> False | Some r \<Rightarrow> field_is ''docker_id'' docker_id r \<and> field_is ''state'' ''active'' r))"

definition has_record :: "crypto \<Rightarrow> string \<Rightarrow> string \<Rightarrow> bool custody_prog" where
  "has_record c operation name = sbind (read_state c) (\<lambda>st. ret (latest st operation name \<noteq> None))"

definition lifecycle_records :: "crypto \<Rightarrow> dict list custody_prog" where
  "lifecycle_records c = sbind (read_state c) (\<lambda>st.
     ret (map snd (dict_comp (\<lambda>r. (str_field ''operation'' r, str_field ''name'' r)) (\<lambda>r. r) (au_records st))))"

section \<open>Evidence\<close>

definition ever_active :: "authority_state \<Rightarrow> json \<Rightarrow> string \<Rightarrow> bool" where
  "ever_active st operation docker_id =
     list_ex (\<lambda>r. map_of r ''operation'' = Some operation \<and> field_is ''docker_id'' docker_id r \<and> field_is ''state'' ''active'' r) (au_records st)"

definition issue_evidence :: "crypto \<Rightarrow> string \<Rightarrow> string \<Rightarrow> string \<Rightarrow> int \<Rightarrow> int \<Rightarrow> dict custody_prog" where
  "issue_evidence c operation docker_id nonce observed_at expires_at =
     (if nonce = [] \<or> observed_at < 0 \<or> expires_at \<le> observed_at then raise_exn AuthorityState
      else locked (sbind (read_state c) (\<lambda>st.
        if \<not> ever_active st (JStr operation) docker_id then raise_exn AuthorityState
        else
          let evidence = [(''schema'', JInt 1), (''key_id'', JStr (au_active_key st)), (''operation'', JStr operation),
                (''docker_id'', JStr docker_id), (''nonce'', JStr nonce), (''observed_at'', JInt observed_at), (''expires_at'', JInt expires_at)] in
          sbind (lift_result (of_option BadKey (map_of (au_keys st) (au_active_key st)))) (\<lambda>key.
          sbind (lift_result (sign_values c key evidence)) (\<lambda>signature.
          ret (evidence @ [(''signature'', JStr signature)]))))))"

definition EVIDENCE_FIELDS :: "string list" where
  "EVIDENCE_FIELDS = [''schema'', ''key_id'', ''operation'', ''docker_id'', ''nonce'', ''observed_at'', ''expires_at'', ''signature'']"

text \<open>The checks before the lock is taken: exactly the fields, of the right types, and a current window.\<close>

definition evidence_form_ok :: "dict \<Rightarrow> string \<Rightarrow> int \<Rightarrow> bool" where
  "evidence_form_ok evidence docker_id now \<longleftrightarrow>
     set (map fst evidence) = set EVIDENCE_FIELDS \<and> field_is ''docker_id'' docker_id evidence \<and>
     list_all (\<lambda>k. str_field k evidence \<noteq> []) [''key_id'', ''operation'', ''docker_id'', ''nonce'', ''signature''] \<and>
     (case (Option.bind (map_of evidence ''schema'') as_int, Option.bind (map_of evidence ''observed_at'') as_int,
            Option.bind (map_of evidence ''expires_at'') as_int) of
        (Some schema, Some observed_at, Some expires_at) \<Rightarrow> schema = 1 \<and> observed_at \<le> now \<and> now < expires_at
      | _ \<Rightarrow> False)"

definition verify_evidence :: "crypto \<Rightarrow> dict \<Rightarrow> string \<Rightarrow> int \<Rightarrow> bool custody_prog" where
  "verify_evidence c evidence docker_id now =
     (if \<not> evidence_form_ok evidence docker_id now then ret False
      else try_catch
        (locked (sbind (read_state c) (\<lambda>st.
           case map_of (au_keys st) (str_field ''key_id'' evidence) of
             None \<Rightarrow> ret False
           | Some key \<Rightarrow>
               if List.member (au_used_nonces st) (str_field ''nonce'' evidence) then ret False
               else if \<not> verify_values c key evidence then ret False
               else if \<not> ever_active st (JStr (str_field ''operation'' evidence)) docker_id then ret False
               else sthen (write_atomic (st\<lparr>au_used_nonces := au_used_nonces st @ [str_field ''nonce'' evidence]\<rparr>)) (ret True))))
        (\<lambda>_. ret False))"

section \<open>Custody\<close>

definition PROVIDER :: string where "PROVIDER = ''postgres-docker''"

text \<open>\<open>container["Config"]["Labels"]\<close>; \<open>None\<close> covers the \<open>KeyError\<close> and the \<open>TypeError\<close>.\<close>

definition container_labels :: "json \<Rightarrow> json option" where
  "container_labels container = Option.bind (jget ''Config'' container) (jget ''Labels'')"

definition live_matches :: "custody_request \<Rightarrow> string \<Rightarrow> json \<Rightarrow> bool" where
  "live_matches q token container \<longleftrightarrow>
     jget ''Id'' container = Some (JStr (cq_resource_id q)) \<and>
     (case container_labels container of
        Some (JObj labels) \<Rightarrow> list_all (\<lambda>(_, v). is_str v) labels \<and>
          field_is ''io.odoo-forge.provider'' PROVIDER labels \<and>
          field_is ''io.odoo-forge.operation'' (operation_id (cq_operation q)) labels \<and>
          field_is ''io.odoo-forge.resource-kind'' ''container'' labels \<and>
          field_is ''io.odoo-forge.creator-token'' token labels
      | _ \<Rightarrow> False)"

definition verify_live :: "(string \<Rightarrow> string option) \<Rightarrow> custody_request \<Rightarrow> (custody_exn, unit) result" where
  "verify_live inspect q =
     (case custody_operation_parts (operation_id (cq_operation q)) of
        Inl _ \<Rightarrow> Inl CustodyUnverifiable
      | Inr (provider, token) \<Rightarrow>
          if provider \<noteq> PROVIDER then Inl CustodyUnverifiable
          else case inspect (cq_resource_name q) of
            None \<Rightarrow> Inl CustodyUnverifiable
          | Some stdout \<Rightarrow>
              (case json_loads stdout of
                 Some (JArr [JObj kvs]) \<Rightarrow> guard (live_matches q token (JObj kvs)) CustodyUnverifiable
               | _ \<Rightarrow> Inl CustodyUnverifiable))"

definition custody_confirm :: "crypto \<Rightarrow> (string \<Rightarrow> string option) \<Rightarrow> custody_request \<Rightarrow> ownership_receipt custody_prog" where
  "custody_confirm c inspect q =
     sthen (lift_result (verify_live inspect q))
     (sthen (try_catch (converge c (operation_id (cq_operation q)) (cq_resource_name q) (cq_resource_id q))
        (\<lambda>e. case e of CustodyConflict \<Rightarrow> raise_exn CustodyConflict | BadKey \<Rightarrow> raise_exn BadKey | _ \<Rightarrow> raise_exn CustodyUnverifiable))
     (ret \<lparr>or_operation = cq_operation q, or_owned_resource_ids = [cq_resource_id q], or_live_proof_expected = True\<rparr>))"

end
