(* ===== verification/Authority_History.thy ===== *)
theory Authority_History
  imports Ownership_Authority
begin

text \<open>
  The ownership authority keeps an append-only history. The state file, as long as only the authority
  writes it, reads back as it was written, up to the order of the keys of its dictionaries; the history
  is the list of its records without generation, key and signature, and every operation is specified by
  what it appends to it.
\<close>

section \<open>Reading back what was written\<close>

definition sound_crypto :: "crypto \<Rightarrow> bool" where
  "sound_crypto c \<longleftrightarrow> (\<forall>key text signature. cr_sign c key text = Some signature \<longrightarrow> cr_verify c key signature text)"

definition flat :: "dict \<Rightarrow> bool" where
  "flat r \<longleftrightarrow> distinct (map fst r) \<and> (\<forall>(k, v) \<in> set r. if k = ''generation'' then \<exists>i. v = JInt i else is_str v)"

definition generation_of :: "dict \<Rightarrow> int" where
  "generation_of r = (case map_of r ''generation'' of Some (JInt i) \<Rightarrow> i | _ \<Rightarrow> 0)"

definition stored_ok :: "crypto \<Rightarrow> (string \<times> string) list \<Rightarrow> dict \<Rightarrow> bool" where
  "stored_ok c keys r \<longleftrightarrow> flat r \<and> has_fields STORED_RECORD_FIELDS r \<and>
     validate_record (project_fields REQUIRED_RECORD_FIELDS r) = Inr () \<and>
     (\<exists>key. map_of keys (str_field ''key_id'' r) = Some key \<and> verify_values c key r)"

definition valid_state :: "crypto \<Rightarrow> authority_state \<Rightarrow> bool" where
  "valid_state c st \<longleftrightarrow> distinct (map fst (au_keys st)) \<and> map_of (au_keys st) (au_active_key st) \<noteq> None \<and>
     (\<forall>r \<in> set (au_records st). stored_ok c (au_keys st) r) \<and>
     au_generation st = int (length (au_records st)) \<and>
     map generation_of (au_records st) = map (\<lambda>i. int (Suc i)) [0..<length (au_records st)]"

definition normal :: "authority_state \<Rightarrow> authority_state" where
  "normal st = st\<lparr>au_records := map (sort_key fst) (au_records st), au_keys := sort_key fst (au_keys st)\<rparr>"

lemma atomic_sort: "is_str v \<Longrightarrow> sort_json v = v" "is_str v \<Longrightarrow> wf_json v"
  by (cases v; simp add: is_str_def)+

lemma flat_value: "flat r \<Longrightarrow> (k, v) \<in> set r \<Longrightarrow> sort_json v = v \<and> wf_json v"
  by (auto simp: flat_def atomic_sort split: if_splits)

lemma flat_members: "flat r \<Longrightarrow> sort_members r = r"
  unfolding sort_members_map using flat_value by (intro map_idI) auto

lemma flat_wf: "flat r \<Longrightarrow> wf_json (JObj r)"
  using flat_value by (auto simp: wf_members_iff) (simp add: flat_def)

lemma flat_sort: "flat r \<Longrightarrow> flat (sort_key fst r)"
  by (auto simp: flat_def distinct_map)

lemma flat_filter: "flat r \<Longrightarrow> flat (filter P r)"
  by (auto simp: flat_def distinct_map_filter)

lemma flat_sort_json: "flat r \<Longrightarrow> sort_json (JObj r) = JObj (sort_key fst r)"
  by (simp add: flat_members)

lemma sort_idem: "sort_key f (sort_key f xs) = sort_key f xs"
  by (simp add: sort_key_id_if_sorted)

lemma signing_payload_sort: "flat r \<Longrightarrow> signing_payload (sort_key fst r) = signing_payload r"
  unfolding signing_payload_def json_dumps_def
  by (simp add: flat_members flat_filter flat_sort filter_sort sort_idem)

lemma map_of_flat: "flat r \<Longrightarrow> map_of (sort_key fst r) k = map_of r k"
  by (simp add: map_of_sort_key flat_def)

lemma stored_ok_sort:
  assumes "stored_ok c keys r" "distinct (map fst keys)"
  shows "stored_ok c (sort_key fst keys) (sort_key fst r)"
proof -
  have r: "flat r" using assms(1) by (simp add: stored_ok_def)
  have "verify_values c key (sort_key fst r) = verify_values c key r" for key
    unfolding verify_values_def map_of_flat [OF r] signing_payload_sort [OF r] ..
  moreover have "project_fields ks (sort_key fst r) = project_fields ks r" "has_fields ks (sort_key fst r) = has_fields ks r"
      "str_field k (sort_key fst r) = str_field k r" for ks k
    using r by (simp_all add: project_fields_def has_fields_def str_field_def map_of_flat)
  ultimately show ?thesis using assms r
    by (simp add: stored_ok_def flat_sort map_of_sort_key del: map_of_eq_Some_iff)
qed

lemma generation_sort: "flat r \<Longrightarrow> generation_of (sort_key fst r) = generation_of r"
  by (simp add: generation_of_def map_of_flat)

lemma valid_normal:
  assumes "valid_state c st" shows "valid_state c (normal st)"
proof -
  have "map generation_of (map (sort_key fst) (au_records st)) = map generation_of (au_records st)"
    unfolding map_map comp_def
    by (rule map_cong) (use assms in \<open>simp_all add: valid_state_def stored_ok_def generation_sort del: map_of_eq_Some_iff\<close>)
  moreover have "\<forall>r \<in> set (map (sort_key fst) (au_records st)). stored_ok c (sort_key fst (au_keys st)) r"
    using assms stored_ok_sort [of c "au_keys st"] by (auto simp: valid_state_def)
  moreover have "distinct (map fst (sort_key fst (au_keys st)))" using assms by (simp add: valid_state_def distinct_map)
  ultimately show ?thesis
    using assms unfolding valid_state_def normal_def authority_state.simps length_map by (simp add: map_of_sort_key del: map_map map_of_eq_Some_iff)
qed

lemma str_values_map [simp]: "str_values (map (apsnd JStr) ks) = Some ks"
  by (induction ks) auto

lemma str_items_map [simp]: "str_items_of (map JStr ns) = Some ns"
  by (induction ns) auto

lemma validate_records_ok:
  assumes "\<forall>r \<in> set rs. stored_ok c keys r" "map generation_of rs = map (\<lambda>i. h + int (Suc i)) [0..<length rs]"
  shows "validate_records c keys h (map JObj rs) = Inr (rs, h + int (length rs))"
  using assms
proof (induction rs arbitrary: h)
  case (Cons r rs)
  from Cons.prems(1) have r: "stored_ok c keys r" by simp
  have gens: "map (\<lambda>i. h + int (Suc i)) [0..<length (r # rs)] = (h + 1) # map (\<lambda>i. (h + 1) + int (Suc i)) [0..<length rs]"
    by (simp add: upt_conv_Cons map_Suc_upt [symmetric] del: upt_Suc)
  with Cons.prems(2) have g: "generation_of r = h + 1"
    and rest: "map generation_of rs = map (\<lambda>i. (h + 1) + int (Suc i)) [0..<length rs]" by simp_all
  have flat: "flat r" using r by (simp add: stored_ok_def)
  from r obtain v where v: "map_of r ''generation'' = Some v"
    by (auto simp: stored_ok_def has_fields_def STORED_RECORD_FIELDS_def)
  with flat obtain i where "v = JInt i" by (fastforce simp: flat_def dest: map_of_SomeD)
  with v g have gen: "map_of r ''generation'' = Some (JInt (h + 1))" by (simp add: generation_of_def)
  from r obtain k where k: "map_of r ''key_id'' = Some k"
    by (auto simp: stored_ok_def has_fields_def STORED_RECORD_FIELDS_def)
  with flat obtain kid where kid: "map_of r ''key_id'' = Some (JStr kid)"
    by (fastforce simp: flat_def is_str_def dest: map_of_SomeD split: json.splits)
  with r obtain key where "map_of keys kid = Some key" "verify_values c key r" by (auto simp: stored_ok_def str_field_def)
  with kid gen r Cons.IH [OF _ rest] Cons.prems(1) show ?case
    by (simp add: stored_ok_def as_int_def)
qed simp


lemma state_json_wf:
  assumes "valid_state c st" shows "wf_json (state_json st)"
proof -
  have "\<forall>r \<in> set (au_records st). wf_json (JObj r)" using assms flat_wf by (auto simp: valid_state_def stored_ok_def)
  moreover have "distinct (map fst (au_keys st))" using assms by (simp add: valid_state_def)
  ultimately show ?thesis by (auto simp: state_json_def list_all_iff wf_members_iff comp_def)
qed

lemma sort_key_apsnd: "sort_key fst (map (apsnd g) xs) = map (apsnd g) (sort_key fst xs)"
proof -
  have ins: "insort_key fst (apsnd g x) (map (apsnd g) ys) = map (apsnd g) (insort_key fst x ys)" for x and ys :: "('a \<times> 'c) list"
    by (induction ys) auto
  show ?thesis by (induction xs) (simp_all add: ins [symmetric])
qed

text \<open>What the authority writes is what it reads back.\<close>

theorem read_back:
  assumes "valid_state c st"
  shows "json_loads (json_dumps False (state_json st)) = Some (sort_json (state_json st))"
    and "validate_state c (sort_json (state_json st)) = Inr (normal st)"
proof -
  note wf = state_json_wf [OF assms]
  show "json_loads (json_dumps False (state_json st)) = Some (sort_json (state_json st))"
    using loads_dumps [OF wf, of False] by (simp add: newline_def)
  have records: "map sort_json (map JObj (au_records st)) = map JObj (au_records (normal st))"
    using assms flat_sort_json by (auto simp: normal_def valid_state_def stored_ok_def)
  have keys: "sort_json (JObj (map (apsnd JStr) (au_keys st))) = JObj (map (apsnd JStr) (au_keys (normal st)))"
  proof -
    have "sort_members (map (apsnd JStr) ks) = map (apsnd JStr) ks" for ks by (induction ks) auto
    then show ?thesis by (simp add: normal_def sort_key_apsnd)
  qed
  have nonces: "map sort_json (map JStr (au_used_nonces st)) = map JStr (au_used_nonces st)" by simp
  have fields: "jget ''generation'' (state_json st) = Some (JInt (au_generation st))"
    "jget ''records'' (state_json st) = Some (JArr (map JObj (au_records st)))"
    "jget ''keys'' (state_json st) = Some (JObj (map (apsnd JStr) (au_keys st)))"
    "jget ''used_nonces'' (state_json st) = Some (JArr (map JStr (au_used_nonces st)))"
    "jget ''active_key'' (state_json st) = Some (JStr (au_active_key st))"
    by (simp_all add: jget_def state_json_def)
  note valid = valid_normal [OF assms]
  have "validate_records c (au_keys (normal st)) 0 (map JObj (au_records (normal st))) =
      Inr (au_records (normal st), 0 + int (length (au_records (normal st))))"
    by (rule validate_records_ok) (use valid in \<open>simp_all add: valid_state_def\<close>)
  then show "validate_state c (sort_json (state_json st)) = Inr (normal st)"
    using valid unfolding validate_state_def jget_sort [OF wf] fields option.map keys sort_json.simps(1) records nonces
    by (cases st) (simp add: as_int_def valid_state_def normal_def del: map_of_eq_Some_iff)
qed


section \<open>The world of the authority\<close>

definition private_dir :: "authority_fs \<Rightarrow> node" where
  "private_dir s = \<lparr>nd_kind = Directory, nd_uid = fs_uid s, nd_mode = DIRECTORY_MODE\<rparr>"

definition private_file :: "authority_fs \<Rightarrow> string \<Rightarrow> node" where
  "private_file s text = \<lparr>nd_kind = Regular text, nd_uid = fs_uid s, nd_mode = FILE_MODE\<rparr>"

text \<open>The file of a state whose keys were drawn from the random generator.\<close>

definition holds_state :: "crypto \<Rightarrow> authority_fs \<Rightarrow> authority_state \<Rightarrow> bool" where
  "holds_state c s st \<longleftrightarrow> valid_state c st \<and> set (au_keys st) \<subseteq> fs_fresh s ` {..<fs_drawn s} \<and>
     fs_root s = Some (private_dir s) \<and> fs_state s = Some (private_file s (json_dumps False (state_json st)))"

text \<open>The random generator delivers different key ids and keys that can sign.\<close>

definition fresh_keys :: "crypto \<Rightarrow> authority_fs \<Rightarrow> bool" where
  "fresh_keys c s \<longleftrightarrow> inj (\<lambda>n. fst (fs_fresh s n)) \<and> (\<forall>n text. cr_sign c (snd (fs_fresh s n)) text \<noteq> None)"

definition good_world :: "crypto \<Rightarrow> authority_fs \<Rightarrow> bool" where
  "good_world c s \<longleftrightarrow> sound_crypto c \<and> fs_parent_ok s \<and> fresh_keys c s \<and>
     fs_root s \<in> {None, Some (private_dir s)} \<and> fs_lock s \<in> {None, Some (private_file s [])} \<and>
     (fs_state s = None \<or> (\<exists>st. holds_state c s st))"

record entry =
  en_operation :: string
  en_kind :: string
  en_name :: string
  en_docker_id :: string
  en_state :: string

definition entry_of :: "dict \<Rightarrow> entry" where
  "entry_of r = \<lparr>en_operation = str_field ''operation'' r, en_kind = str_field ''kind'' r, en_name = str_field ''name'' r,
     en_docker_id = str_field ''docker_id'' r, en_state = str_field ''state'' r\<rparr>"

definition history :: "authority_state \<Rightarrow> entry list" where
  "history st = map entry_of (au_records st)"

definition file_state :: "crypto \<Rightarrow> authority_fs \<Rightarrow> authority_state option" where
  "file_state c s = (case snd (read_state c s) of Inl _ \<Rightarrow> None | Inr st \<Rightarrow> Some st)"

definition world_history :: "crypto \<Rightarrow> authority_fs \<Rightarrow> entry list" where
  "world_history c s = (case file_state c s of None \<Rightarrow> [] | Some st \<Rightarrow> history st)"

definition world_nonces :: "crypto \<Rightarrow> authority_fs \<Rightarrow> string list" where
  "world_nonces c s = (case file_state c s of None \<Rightarrow> [] | Some st \<Rightarrow> au_used_nonces st)"

definition prepared :: "authority_fs \<Rightarrow> authority_fs" where
  "prepared s = s\<lparr>fs_root := Some (private_dir s), fs_lock := Some (private_file s [])\<rparr>"

lemma prepared_simps [simp]:
  "fs_root (prepared s) = Some (private_dir s)" "fs_lock (prepared s) = Some (private_file s [])" "fs_state (prepared s) = fs_state s"
  "fs_uid (prepared s) = fs_uid s" "fs_fresh (prepared s) = fs_fresh s" "fs_drawn (prepared s) = fs_drawn s"
  "fs_writes (prepared s) = fs_writes s" "fs_parent_ok (prepared s) = fs_parent_ok s"
  "private_dir (prepared s) = private_dir s" "private_file (prepared s) = private_file s"
  by (auto simp: prepared_def private_dir_def private_file_def)

lemma ensure_root_run:
  assumes "good_world c s"
  shows "ensure_root s = (s\<lparr>fs_root := Some (private_dir s)\<rparr>, Inr ())"
  using assms by (auto simp: good_world_def ensure_root_def sthen_def sbind_def validate_private_path_def private_dir_def)

lemma open_lock_run:
  "fs_lock s \<in> {None, Some (private_file s [])} \<Longrightarrow> open_lock s = (s\<lparr>fs_lock := Some (private_file s [])\<rparr>, Inr ())"
  by (cases s) (auto simp: open_lock_def sthen_def sbind_def modify_def validate_private_path_def private_file_def is_regular_def)

lemma locked_run:
  assumes "good_world c s" shows "locked body s = body (prepared s)"
proof -
  have "fs_lock (s\<lparr>fs_root := Some (private_dir s)\<rparr>) \<in> {None, Some (private_file (s\<lparr>fs_root := Some (private_dir s)\<rparr>) [])}"
    using assms by (simp add: good_world_def private_file_def)
  from open_lock_run [OF this] ensure_root_run [OF assms] show ?thesis
    by (simp add: locked_def sthen_def sbind_def prepared_def private_file_def private_dir_def)
qed

lemma holds_prepared: "holds_state c (prepared s) st \<longleftrightarrow> holds_state c (s\<lparr>fs_root := Some (private_dir s)\<rparr>) st"
  by (simp add: holds_state_def private_dir_def private_file_def)

lemma good_prepared: "good_world c s \<Longrightarrow> good_world c (prepared s)"
  by (auto simp: good_world_def fresh_keys_def holds_state_def)

lemma read_state_run:
  assumes "good_world c s"
  shows "holds_state c s st \<Longrightarrow> read_state c s = (s, Inr (normal st))"
    and "fs_state s = None \<Longrightarrow> read_state c s = (s\<lparr>fs_root := Some (private_dir s)\<rparr>, Inl AuthorityState)"
proof -
  assume st: "holds_state c s st"
  then have "ensure_root s = (s, Inr ())" using ensure_root_run [OF assms] by (simp add: holds_state_def)
  with st show "read_state c s = (s, Inr (normal st))"
    using read_back [of c st]
    by (simp add: read_state_def sthen_def sbind_def open_state_def holds_state_def private_file_def validate_private_path_def
        is_regular_def lift_result_def)
qed (simp add: read_state_def ensure_root_run [OF assms] sthen_def sbind_def open_state_def)

lemma file_state_run:
  assumes "good_world c s"
  shows "holds_state c s st \<Longrightarrow> file_state c s = Some (normal st)" "fs_state s = None \<Longrightarrow> file_state c s = None"
  using read_state_run [OF assms] by (simp_all add: file_state_def)

lemma entry_sort: "flat r \<Longrightarrow> entry_of (sort_key fst r) = entry_of r"
  by (simp add: entry_of_def str_field_def map_of_flat)

lemma history_normal:
  assumes "valid_state c st" shows "history (normal st) = history st"
proof -
  have "\<forall>r \<in> set (au_records st). flat r" using assms by (simp add: valid_state_def stored_ok_def del: map_of_eq_Some_iff)
  then show ?thesis by (simp add: history_def normal_def entry_sort)
qed

lemma nonces_normal [simp]: "au_used_nonces (normal st) = au_used_nonces st"
  by (simp add: normal_def)

lemma holds_views:
  assumes "good_world c s" "holds_state c s st"
  shows "world_history c s = history st" "world_nonces c s = au_used_nonces st"
  using file_state_run(1) [OF assms] assms(2)
  by (auto simp: world_history_def world_nonces_def holds_state_def history_normal)

lemma absent_views:
  assumes "good_world c s" "fs_state s = None"
  shows "world_history c s = []" "world_nonces c s = []"
  using file_state_run(2) [OF assms] by (simp_all add: world_history_def world_nonces_def)

lemma good_cases:
  assumes "good_world c s"
  obtains (absent) "fs_state s = None" "world_history c s = []" "world_nonces c s = []"
  | (present) st where "holds_state c s st" "world_history c s = history st" "world_nonces c s = au_used_nonces st"
  using assms absent_views [OF assms] holds_views [OF assms] by (auto simp: good_world_def)

lemma prepared_views:
  assumes "good_world c s"
  shows "world_history c (prepared s) = world_history c s" "world_nonces c (prepared s) = world_nonces c s"
proof -
  have "world_history c (prepared s) = world_history c s \<and> world_nonces c (prepared s) = world_nonces c s"
    using assms
  proof (cases rule: good_cases)
    case absent
    with absent_views [OF good_prepared [OF assms]] show ?thesis by simp
  next
    case (present st)
    then have "holds_state c (prepared s) st" by (simp add: holds_state_def)
    with holds_views [OF good_prepared [OF assms]] present show ?thesis by simp
  qed
  then show "world_history c (prepared s) = world_history c s" "world_nonces c (prepared s) = world_nonces c s" by simp_all
qed


section \<open>Appending\<close>

definition same_views :: "crypto \<Rightarrow> authority_fs \<Rightarrow> authority_fs \<Rightarrow> bool" where
  "same_views c s s' \<longleftrightarrow> good_world c s' \<and> world_history c s' = world_history c s \<and> world_nonces c s' = world_nonces c s"

text \<open>No coming write fails.\<close>

definition steady :: "authority_fs \<Rightarrow> bool" where
  "steady s \<longleftrightarrow> list_all id (fs_writes s)"

text \<open>The state an operation has in memory, while it holds the lock, is the one on disk.\<close>

definition in_memory :: "crypto \<Rightarrow> authority_fs \<Rightarrow> authority_state \<Rightarrow> bool" where
  "in_memory c s st \<longleftrightarrow> good_world c s \<and> fs_root s = Some (private_dir s) \<and> fs_lock s = Some (private_file s []) \<and>
     valid_state c st \<and> set (au_keys st) \<subseteq> fs_fresh s ` {..<fs_drawn s} \<and>
     world_history c s = history st \<and> world_nonces c s = au_used_nonces st"

lemma same_views_writes:
  assumes "good_world c s" shows "same_views c s (s\<lparr>fs_writes := ws\<rparr>)"
proof -
  let ?s = "s\<lparr>fs_writes := ws\<rparr>"
  have good: "good_world c ?s"
    using assms by (auto simp: good_world_def fresh_keys_def holds_state_def private_dir_def private_file_def)
  from assms show ?thesis
  proof (cases rule: good_cases)
    case absent
    with absent_views [OF good] good show ?thesis by (simp add: same_views_def)
  next
    case (present st)
    then have "holds_state c ?s st" by (simp add: holds_state_def private_dir_def private_file_def)
    with holds_views [OF good] good present show ?thesis by (simp add: same_views_def)
  qed
qed

lemma wp_write:
  assumes "good_world c s" "fs_root s = Some (private_dir s)" "fs_lock s = Some (private_file s [])"
    and "valid_state c st" "set (au_keys st) \<subseteq> fs_fresh s ` {..<fs_drawn s}"
  shows "wp (write_atomic st) (\<lambda>_ s'. in_memory c s' st \<and> (steady s \<longrightarrow> steady s'))
    (\<lambda>e s'. e = AuthorityState \<and> same_views c s s' \<and> \<not> steady s) s"
proof -
  have not_dir: "\<not> (case fs_state s of Some x \<Rightarrow> nd_kind x = Directory | None \<Rightarrow> False)"
    using assms(1) by (auto simp: good_world_def holds_state_def private_file_def)
  show ?thesis
  proof (cases "fs_writes s \<noteq> [] \<and> \<not> hd (fs_writes s)")
    case True
    then have "\<not> steady s" by (cases "fs_writes s") (simp_all add: steady_def)
    with True same_views_writes [OF assms(1)] show ?thesis by (simp add: wp_def write_atomic_def Let_def)
  next
    case False
    define s' where "s' = s\<lparr>fs_writes := tl (fs_writes s), fs_state := Some (private_file s (json_dumps False (state_json st)))\<rparr>"
    have run: "write_atomic st s = (s', Inr ())" using False not_dir by (auto simp: write_atomic_def Let_def s'_def private_file_def)
    have holds: "holds_state c s' st" using assms by (simp add: holds_state_def s'_def private_dir_def private_file_def)
    moreover have "good_world c s'"
      using assms(1-3) holds by (auto simp: good_world_def fresh_keys_def s'_def private_dir_def private_file_def)
    ultimately have "in_memory c s' st"
      using assms holds_views by (simp add: in_memory_def s'_def private_dir_def private_file_def)
    moreover have "steady s \<longrightarrow> steady s'" by (cases "fs_writes s") (simp_all add: steady_def s'_def)
    ultimately show ?thesis by (simp add: wp_def run)
  qed
qed

lemma filter_update: "filter (\<lambda>(k, _). k \<noteq> x) (AList.update x v r) = filter (\<lambda>(k, _). k \<noteq> x) r"
  by (induction r) auto

lemma signing_payload_update: "signing_payload (AList.update ''signature'' v r) = signing_payload r"
  by (simp add: signing_payload_def filter_update)

lemma set_update: "distinct (map fst r) \<Longrightarrow> set (AList.update k v r) = insert (k, v) {(k', v') \<in> set r. k' \<noteq> k}"
  by (induction r) (auto simp: image_iff)

text \<open>A record that passes validation becomes a stored record of the same entry.\<close>

lemma stored_record_ok:
  assumes "validate_record r = Inr ()" "distinct (map fst r)" and "sound_crypto c"
    and "map_of keys active = Some key" "sign_values c key stored = Inr signature"
    and stored: "stored = AList.update ''key_id'' (JStr active) (AList.update ''generation'' (JInt g) r)"
  shows "stored_ok c keys (AList.update ''signature'' (JStr signature) stored)"
    "generation_of (AList.update ''signature'' (JStr signature) stored) = g"
    "entry_of (AList.update ''signature'' (JStr signature) stored) = entry_of r"
proof -
  let ?r = "AList.update ''signature'' (JStr signature) stored"
  have lookup: "map_of ?r k = (if k = ''signature'' then Some (JStr signature) else if k = ''key_id'' then Some (JStr active)
      else if k = ''generation'' then Some (JInt g) else map_of r k)" for k
    by (simp add: stored dict_simps)
  have str: "is_str v" if "(k, v) \<in> set r" for k v
    using assms(1) that by (auto simp: validate_record_def result_iff list_all_iff)
  have "distinct (map fst ?r)" using assms(2) by (simp add: stored distinct_update)
  moreover have "set ?r \<subseteq> {(''signature'', JStr signature), (''key_id'', JStr active), (''generation'', JInt g)} \<union> {(k, v) \<in> set r. k \<noteq> ''generation''}"
    using assms(2) by (auto simp: stored set_update distinct_update)
  ultimately have flat: "flat ?r" using str by (fastforce simp: flat_def is_str_def)
  have req: "map_of ?r k = map_of r k" if "k \<in> set REQUIRED_RECORD_FIELDS" for k
    using that by (auto simp: lookup REQUIRED_RECORD_FIELDS_def)
  have have_r: "has_fields REQUIRED_RECORD_FIELDS r" using assms(1) by (simp add: validate_record_def result_iff)
  have has: "has_fields STORED_RECORD_FIELDS ?r"
    unfolding STORED_RECORD_FIELDS_def has_fields_def list_all_append
  proof
    show "list_all (\<lambda>k. map_of ?r k \<noteq> None) REQUIRED_RECORD_FIELDS"
      using have_r req unfolding has_fields_def list_all_iff by metis
  qed (simp add: lookup)
  have proj: "map_of (project_fields REQUIRED_RECORD_FIELDS ?r) k = map_of r k" if "k \<in> set REQUIRED_RECORD_FIELDS" for k
  proof -
    from that have_r obtain w where "map_of r k = Some w" unfolding has_fields_def list_all_iff by blast
    with that req [OF that] show ?thesis by (simp add: project_fields_def map_of_map_restrict del: map_of_eq_Some_iff)
  qed
  have "validate_record (project_fields REQUIRED_RECORD_FIELDS ?r) = Inr ()"
  proof -
    have "is_str v" if "(k, v) \<in> set (project_fields REQUIRED_RECORD_FIELDS ?r)" for k v
    proof -
      from that have k: "k \<in> set REQUIRED_RECORD_FIELDS" and v: "v = (case map_of ?r k of Some v \<Rightarrow> v | None \<Rightarrow> JNull)"
        by (auto simp: project_fields_def)
      from k have_r obtain w where "map_of r k = Some w" by (auto simp: has_fields_def list_all_iff)
      with v req [OF k] str [OF map_of_SomeD] show ?thesis by simp
    qed
    moreover have "has_fields REQUIRED_RECORD_FIELDS (project_fields REQUIRED_RECORD_FIELDS ?r)"
      using have_r proj unfolding has_fields_def list_all_iff by metis
    moreover have "field_is k v (project_fields REQUIRED_RECORD_FIELDS ?r) = field_is k v r" if "k \<in> set REQUIRED_RECORD_FIELDS" for k v
      using proj [OF that] by (simp add: field_is_def)
    ultimately show ?thesis using assms(1) by (auto simp: validate_record_def result_iff list_all_iff REQUIRED_RECORD_FIELDS_def)
  qed
  moreover have "str_field ''key_id'' ?r = active" by (simp add: str_field_def lookup)
  moreover have "verify_values c key ?r"
    using assms(3,5) by (auto simp: verify_values_def lookup signing_payload_update sound_crypto_def sign_values_def result_iff)
  ultimately show "stored_ok c keys ?r" using flat has assms(4) by (auto simp: stored_ok_def)
  show "generation_of ?r = g" by (simp add: generation_of_def lookup)
  show "entry_of ?r = entry_of r" by (simp add: entry_of_def str_field_def lookup)
qed


lemma active_key_signs:
  assumes "in_memory c s st"
  obtains key where "map_of (au_keys st) (au_active_key st) = Some key" "\<And>r. \<exists>signature. sign_values c key r = Inr signature"
proof -
  from assms obtain key where key: "map_of (au_keys st) (au_active_key st) = Some key"
    by (auto simp: in_memory_def valid_state_def simp del: map_of_eq_Some_iff)
  then have "(au_active_key st, key) \<in> fs_fresh s ` {..<fs_drawn s}"
    using assms map_of_SomeD by (fastforce simp: in_memory_def)
  then obtain n where "key = snd (fs_fresh s n)" by (metis imageE snd_conv)
  then have "cr_sign c key w \<noteq> None" for w using assms by (simp add: in_memory_def good_world_def fresh_keys_def)
  then have "\<exists>signature. sign_values c key r = Inr signature" for r by (simp add: sign_values_def result_iff)
  with key that show ?thesis by blast
qed

lemma wp_append_valid:
  assumes mem: "in_memory c s st" and r: "validate_record r = Inr ()" "distinct (map fst r)"
  shows "wp (append_record c st r)
    (\<lambda>st' s'. in_memory c s' st' \<and> world_history c s' = world_history c s @ [entry_of r] \<and> world_nonces c s' = world_nonces c s \<and>
       (steady s \<longrightarrow> steady s'))
    (\<lambda>e s'. e = AuthorityState \<and> same_views c s s' \<and> \<not> steady s) s"
proof -
  from active_key_signs [OF mem] obtain key where key: "map_of (au_keys st) (au_active_key st) = Some key"
    and sign: "\<And>r. \<exists>signature. sign_values c key r = Inr signature" by blast
  define stored where "stored = AList.update ''key_id'' (JStr (au_active_key st)) (AList.update ''generation'' (JInt (au_generation st + 1)) r)"
  from sign obtain signature where signature: "sign_values c key stored = Inr signature" by blast
  define r' where "r' = AList.update ''signature'' (JStr signature) stored"
  define st' where "st' = st\<lparr>au_generation := au_generation st + 1, au_records := au_records st @ [r']\<rparr>"
  have sound: "sound_crypto c" using mem by (simp add: in_memory_def good_world_def)
  note r' = stored_record_ok [OF r sound key signature stored_def, folded r'_def]
  have "map generation_of (au_records st @ [r']) = map (\<lambda>i. int (Suc i)) [0..<Suc (length (au_records st))]"
    using mem r'(2) by (simp add: in_memory_def valid_state_def)
  then have valid: "valid_state c st'"
    using mem r'(1) by (auto simp: in_memory_def valid_state_def st'_def simp del: map_of_eq_Some_iff)
  have run: "append_record c st r = sthen (write_atomic st') (ret st')"
  proof
    fix s show "append_record c st r s = sthen (write_atomic st') (ret st') s"
      by (simp add: append_record_def r(1) key Let_def stored_def [symmetric] signature r'_def st'_def sthen_def sbind_def lift_result_def)
  qed
  have "wp (write_atomic st') (\<lambda>_ s'. in_memory c s' st' \<and> (steady s \<longrightarrow> steady s'))
      (\<lambda>e s'. e = AuthorityState \<and> same_views c s s' \<and> \<not> steady s) s"
    by (rule wp_write) (use mem valid in \<open>simp_all add: in_memory_def st'_def\<close>)
  then show ?thesis unfolding run wp_then
  proof (rule wp_mono)
    fix u s' assume s': "in_memory c s' st' \<and> (steady s \<longrightarrow> steady s')"
    then have "world_history c s' = history st'" "world_nonces c s' = au_used_nonces st'" by (simp_all add: in_memory_def)
    moreover have "history st' = history st @ [entry_of r]" "au_used_nonces st' = au_used_nonces st"
      by (simp_all add: history_def st'_def r'(3))
    ultimately show "wp (ret st') (\<lambda>st' s'. in_memory c s' st' \<and> world_history c s' = world_history c s @ [entry_of r] \<and>
        world_nonces c s' = world_nonces c s \<and> (steady s \<longrightarrow> steady s')) (\<lambda>e s'. e = AuthorityState \<and> same_views c s s' \<and> \<not> steady s) s'"
      using s' mem by (simp add: wp_ret in_memory_def)
  qed
qed

lemma validate_record_cases: "validate_record r = Inr () \<or> validate_record r = Inl AuthorityState"
  by (simp add: validate_record_def guard_def)

definition refusable :: "authority_fs \<Rightarrow> dict list \<Rightarrow> bool" where
  "refusable s rs \<longleftrightarrow> \<not> steady s \<or> (\<exists>r \<in> set rs. validate_record r \<noteq> Inr ())"

lemma wp_append:
  assumes mem: "in_memory c s st" and r: "distinct (map fst r)"
  shows "wp (append_record c st r)
    (\<lambda>st' s'. in_memory c s' st' \<and> world_history c s' = world_history c s @ [entry_of r] \<and> world_nonces c s' = world_nonces c s \<and>
       validate_record r = Inr () \<and> (steady s \<longrightarrow> steady s'))
    (\<lambda>e s'. e = AuthorityState \<and> same_views c s s' \<and> refusable s [r]) s"
proof (cases "validate_record r = Inr ()")
  case True
  then show ?thesis by (intro wp_mono [OF wp_append_valid [OF mem True r]]) (simp_all add: refusable_def)
next
  case False
  then have "validate_record r = Inl AuthorityState" using validate_record_cases by blast
  then show ?thesis using mem by (simp add: append_record_def wp_rules in_memory_def same_views_def refusable_def)
qed

lemma in_memory_same: "in_memory c s st \<Longrightarrow> same_views c s s"
  by (simp add: in_memory_def same_views_def)

lemma holds_in_memory:
  assumes "good_world c s" "fs_root s = Some (private_dir s)" "fs_lock s = Some (private_file s [])" "holds_state c s st"
  shows "in_memory c s (normal st)"
  using assms holds_views [OF assms(1,4)] valid_normal [of c st] history_normal [of c st]
  by (auto simp: in_memory_def holds_state_def) (simp add: normal_def subset_iff)

lemma wp_read_state:
  assumes "good_world c s"
  shows "wp (read_state c) (\<lambda>st s'. s' = prepared s \<and> in_memory c s' st) (\<lambda>e s'. e = AuthorityState \<and> s' = prepared s \<and> fs_state s = None) (prepared s)"
  using good_prepared [OF assms]
proof (cases rule: good_cases)
  case absent
  then show ?thesis using read_state_run(2) [OF good_prepared [OF assms]] by (simp add: wp_def prepared_def private_dir_def)
next
  case (present st)
  then show ?thesis using read_state_run(1) [OF good_prepared [OF assms]] holds_in_memory [OF good_prepared [OF assms]]
    by (simp add: wp_def)
qed

lemma wp_read_or_initial:
  assumes "good_world c s"
  shows "wp (read_or_initial_state c initializing) (\<lambda>st s'. in_memory c s' st \<and> same_views c s s' \<and> (steady s \<longrightarrow> steady s'))
    (\<lambda>e s'. e = AuthorityState \<and> same_views c s s' \<and> fs_state s = None \<and> \<not> initializing) (prepared s)"
proof -
  have same: "same_views c s (prepared s)" using assms by (simp add: same_views_def good_prepared prepared_views)
  have steady: "steady (prepared s) = steady s" by (simp add: steady_def)
  show ?thesis
  proof (cases "fs_state s")
    case None
    define s' where "s' = (prepared s)\<lparr>fs_drawn := Suc (fs_drawn s)\<rparr>"
    obtain kid key where fresh: "fs_fresh s (fs_drawn s) = (kid, key)" by fastforce
    let ?st = "\<lparr>au_generation = 0, au_records = [], au_keys = [(kid, key)], au_active_key = kid, au_used_nonces = []\<rparr>"
    have good: "good_world c s'" using assms None
      by (auto simp: good_world_def s'_def fresh_keys_def private_dir_def private_file_def)
    have views: "world_history c s' = []" "world_nonces c s' = []"
      using absent_views [OF good] None by (simp_all add: s'_def)
    have "valid_state c ?st" by (simp add: valid_state_def)
    moreover have "(kid, key) \<in> fs_fresh s' ` {..<fs_drawn s'}" using fresh by (force simp: s'_def)
    ultimately have "in_memory c s' ?st"
      using good views by (simp add: in_memory_def history_def) (simp add: s'_def private_dir_def private_file_def)
    moreover have "same_views c s s'" using good views absent_views [OF assms None] by (simp add: same_views_def)
    moreover have "steady s' = steady s" by (simp add: steady_def s'_def)
    ultimately show ?thesis using None same
      by (simp add: read_or_initial_state_def wp_rules path_exists_def) (simp add: wp_def add_key_def fresh s'_def)
  next
    case (Some x)
    then have exists: "path_exists (fs_state s)" using assms
      by (auto simp: good_world_def holds_state_def private_file_def path_exists_def)
    show ?thesis unfolding read_or_initial_state_def wp_bind wp_gets prepared_simps
      using wp_read_state [OF assms] exists Some by (auto elim!: wp_mono simp: same steady)
  qed
qed

lemma wp_append_all:
  assumes "in_memory c s st" "\<forall>r \<in> set rs. distinct (map fst r)"
  shows "wp (append_all c st rs)
    (\<lambda>_ s'. good_world c s' \<and> world_history c s' = world_history c s @ map entry_of rs \<and> world_nonces c s' = world_nonces c s \<and>
       list_all (\<lambda>r. validate_record r = Inr ()) rs)
    (\<lambda>e s'. e = AuthorityState \<and> good_world c s' \<and> refusable s rs \<and> world_nonces c s' = world_nonces c s \<and>
       (\<exists>n < length rs. world_history c s' = world_history c s @ take n (map entry_of rs))) s"
  using assms
proof (induction rs arbitrary: st s)
  case Nil
  then show ?case by (simp add: wp_ret in_memory_def)
next
  case (Cons r rs)
  then have "in_memory c s st" "distinct (map fst r)" by simp_all
  from wp_append [OF this] show ?case unfolding append_all.simps wp_bind
  proof (rule wp_mono, goal_cases)
    case (1 st' s')
    then have "in_memory c s' st'" "\<forall>r \<in> set rs. distinct (map fst r)" using Cons.prems by simp_all
    from Cons.IH [OF this] show ?case
    proof (rule wp_mono, goal_cases)
      case (2 e s'')
      then obtain n where "n < length rs" "world_history c s'' = world_history c s @ take (Suc n) (map entry_of (r # rs))"
        using 1 by auto
      with 1 2 show ?case by (auto simp: refusable_def)
    qed (use 1 in simp)
  next
    case (2 e s')
    then show ?case by (auto simp: same_views_def refusable_def intro!: exI [of _ 0])
  qed
qed


section \<open>The history decides\<close>

definition latest_entry :: "entry list \<Rightarrow> string \<Rightarrow> string \<Rightarrow> entry option" where
  "latest_entry h operation name = find (\<lambda>e. en_operation e = operation \<and> en_name e = name) (rev h)"

definition held_by_other :: "entry list \<Rightarrow> string \<Rightarrow> string \<Rightarrow> bool" where
  "held_by_other h operation name \<longleftrightarrow>
     (\<exists>other e. other \<noteq> operation \<and> latest_entry h other name = Some e \<and> en_state e \<noteq> ''retired'')"

lemma latest_entry_simps [simp]:
  "latest_entry [] operation name = None"
  "latest_entry (h @ [e]) operation name = (if en_operation e = operation \<and> en_name e = name then Some e else latest_entry h operation name)"
  by (simp_all add: latest_entry_def)

lemma required_field:
  assumes "stored_ok c keys r" "k \<in> set REQUIRED_RECORD_FIELDS"
  shows "map_of r k = Some (JStr (str_field k r))" "field_is k v r \<longleftrightarrow> str_field k r = v"
proof -
  from assms obtain w where w: "map_of r k = Some w"
    by (auto simp: stored_ok_def has_fields_def STORED_RECORD_FIELDS_def list_all_iff simp del: map_of_eq_Some_iff)
  moreover have "k \<noteq> ''generation''" using assms(2) by (auto simp: REQUIRED_RECORD_FIELDS_def)
  ultimately have "is_str w" using assms(1) map_of_SomeD [OF w] by (fastforce simp: stored_ok_def flat_def)
  then obtain x where "w = JStr x" by (auto simp: is_str_def split: json.splits)
  with w show "map_of r k = Some (JStr (str_field k r))" "field_is k v r \<longleftrightarrow> str_field k r = v"
    by (auto simp: str_field_def field_is_def)
qed

lemma required_fields [simp]:
  "''operation'' \<in> set REQUIRED_RECORD_FIELDS" "''kind'' \<in> set REQUIRED_RECORD_FIELDS" "''name'' \<in> set REQUIRED_RECORD_FIELDS"
  "''docker_id'' \<in> set REQUIRED_RECORD_FIELDS" "''state'' \<in> set REQUIRED_RECORD_FIELDS"
  by (simp_all add: REQUIRED_RECORD_FIELDS_def)

lemma find_map_cong:
  "(\<And>x. x \<in> set xs \<Longrightarrow> P x \<longleftrightarrow> Q (f x)) \<Longrightarrow> map_option f (find P xs) = find Q (map f xs)"
  by (induction xs) auto

lemma latest_history:
  assumes "valid_state c st"
  shows "map_option entry_of (latest st operation name) = latest_entry (history st) operation name"
  unfolding latest_def latest_entry_def history_def rev_map
proof (rule find_map_cong)
  fix r assume "r \<in> set (rev (au_records st))"
  with assms have "stored_ok c (au_keys st) r" by (simp add: valid_state_def)
  note required_field(2) [OF this]
  then show "field_is ''operation'' operation r \<and> field_is ''name'' name r \<longleftrightarrow>
      en_operation (entry_of r) = operation \<and> en_name (entry_of r) = name" by (simp add: entry_of_def)
qed

lemma latest_stored:
  assumes "valid_state c st" "latest st operation name = Some r" shows "stored_ok c (au_keys st) r"
proof -
  from assms(2) have "r \<in> set (au_records st)" unfolding latest_def find_Some_iff by (metis length_rev nth_mem set_rev)
  with assms(1) show ?thesis by (simp add: valid_state_def)
qed

text \<open>The dictionary of the latest state of each other operation.\<close>

definition others :: "string \<Rightarrow> string \<Rightarrow> dict list \<Rightarrow> (json option \<times> json option) list" where
  "others operation name rs = fold (\<lambda>r d. if field_is ''name'' name r \<and> \<not> field_is ''operation'' operation r
     then AList.update (map_of r ''operation'') (map_of r ''state'') d else d) rs []"

lemma others_snoc [simp]:
  "others operation name [] = []"
  "others operation name (rs @ [r]) = (if field_is ''name'' name r \<and> \<not> field_is ''operation'' operation r
     then AList.update (map_of r ''operation'') (map_of r ''state'') (others operation name rs) else others operation name rs)"
  by (simp_all add: others_def)

lemma others_lookup:
  assumes "\<forall>r \<in> set rs. stored_ok c keys r"
  shows "distinct (map fst (others operation name rs)) \<and>
    (\<forall>k v. map_of (others operation name rs) k = Some v \<longleftrightarrow>
      (\<exists>other e. k = Some (JStr other) \<and> other \<noteq> operation \<and> latest_entry (map entry_of rs) other name = Some e \<and> v = Some (JStr (en_state e))))"
  using assms
proof (induction rs rule: rev_induct)
  case (snoc r rs)
  note f = required_field [of c keys r]
  have r: "stored_ok c keys r" using snoc.prems by simp
  have op: "map_of r ''operation'' = Some (JStr (en_operation (entry_of r)))" "map_of r ''state'' = Some (JStr (en_state (entry_of r)))"
    "field_is ''name'' name r \<longleftrightarrow> en_name (entry_of r) = name" "field_is ''operation'' operation r \<longleftrightarrow> en_operation (entry_of r) = operation"
    using f(1) [OF r] f(2) [OF r] by (simp_all add: entry_of_def)
  from snoc show ?case
    by (auto simp: op distinct_update dict_simps simp del: map_of_eq_Some_iff)
qed simp

lemma list_ex_dict: "distinct (map fst d) \<Longrightarrow> list_ex (\<lambda>(_, v). P v) d \<longleftrightarrow> (\<exists>k v. map_of d k = Some v \<and> P v)"
  by (auto simp: list_ex_iff)

lemma held_history:
  assumes "valid_state c st"
  shows "held_by_other_operation st operation name \<longleftrightarrow> held_by_other (history st) operation name"
proof -
  have "\<forall>r \<in> set (au_records st). stored_ok c (au_keys st) r" using assms by (simp add: valid_state_def)
  note o = others_lookup [OF this, of operation name]
  have "held_by_other_operation st operation name \<longleftrightarrow>
      (\<exists>k v. map_of (others operation name (au_records st)) k = Some v \<and> v \<noteq> Some (JStr ''retired''))"
    unfolding held_by_other_operation_def others_def [symmetric] using o by (intro list_ex_dict) blast
  also have "\<dots> \<longleftrightarrow> held_by_other (history st) operation name"
    unfolding held_by_other_def history_def conjunct2 [OF o, rule_format] by auto
  finally show ?thesis .
qed

section \<open>Under the lock\<close>

lemma wp_locked_init:
  assumes "good_world c s"
    and "\<And>st s'. in_memory c s' st \<Longrightarrow> same_views c s s' \<Longrightarrow> steady s \<longrightarrow> steady s' \<Longrightarrow> wp (body st) Q R s'"
    and "\<And>s'. same_views c s s' \<Longrightarrow> fs_state s = None \<Longrightarrow> \<not> initializing \<Longrightarrow> R AuthorityState s'"
  shows "wp (locked (sbind (read_or_initial_state c initializing) body)) Q R s"
proof -
  have "wp (sbind (read_or_initial_state c initializing) body) Q R (prepared s)"
    unfolding wp_bind by (rule wp_mono [OF wp_read_or_initial [OF assms(1)]]) (use assms(2,3) in simp_all)
  then show ?thesis by (simp add: wp_def locked_run [OF assms(1)])
qed

lemma wp_locked_read:
  assumes "good_world c s"
    and "\<And>st s'. in_memory c s' st \<Longrightarrow> same_views c s s' \<Longrightarrow> steady s \<longrightarrow> steady s' \<Longrightarrow> wp (body st) Q R s'"
    and "\<And>s'. same_views c s s' \<Longrightarrow> fs_state s = None \<Longrightarrow> R AuthorityState s'"
  shows "wp (locked (sbind (read_state c) body)) Q R s"
proof -
  have same: "same_views c s (prepared s)" using assms(1) by (simp add: same_views_def good_prepared prepared_views)
  moreover have "steady (prepared s) = steady s" by (simp add: steady_def)
  ultimately have "wp (sbind (read_state c) body) Q R (prepared s)"
    unfolding wp_bind by (intro wp_mono [OF wp_read_state [OF assms(1)]]) (use assms(2,3) in simp_all)
  then show ?thesis by (simp add: wp_def locked_run [OF assms(1)])
qed

lemma container_record_simps [simp]:
  "distinct (map fst (container_record operation name docker_id state))"
  "entry_of (container_record operation name docker_id state) =
     \<lparr>en_operation = operation, en_kind = ''container'', en_name = name, en_docker_id = docker_id, en_state = state\<rparr>"
  by (simp_all add: container_record_def entry_of_def str_field_def)

lemma latest_entry_of:
  assumes "in_memory c s st"
  shows "latest st operation name = None \<Longrightarrow> latest_entry (world_history c s) operation name = None"
    and "latest st operation name = Some r \<Longrightarrow> latest_entry (world_history c s) operation name = Some (entry_of r) \<and>
      (\<forall>v. (field_is ''state'' v r \<longleftrightarrow> en_state (entry_of r) = v) \<and> (field_is ''docker_id'' v r \<longleftrightarrow> en_docker_id (entry_of r) = v) \<and>
        (field_is ''kind'' v r \<longleftrightarrow> en_kind (entry_of r) = v)) \<and> str_field ''docker_id'' r = en_docker_id (entry_of r)"
proof -
  have valid: "valid_state c st" and h: "world_history c s = history st" using assms by (simp_all add: in_memory_def)
  note l = latest_history [OF valid, of operation name]
  show "latest st operation name = None \<Longrightarrow> latest_entry (world_history c s) operation name = None" using l h by simp
  show "latest st operation name = Some r \<Longrightarrow> latest_entry (world_history c s) operation name = Some (entry_of r) \<and>
      (\<forall>v. (field_is ''state'' v r \<longleftrightarrow> en_state (entry_of r) = v) \<and> (field_is ''docker_id'' v r \<longleftrightarrow> en_docker_id (entry_of r) = v) \<and>
        (field_is ''kind'' v r \<longleftrightarrow> en_kind (entry_of r) = v)) \<and> str_field ''docker_id'' r = en_docker_id (entry_of r)"
    using l h required_field(2) [OF latest_stored [OF valid]] by (simp add: entry_of_def)
qed

section \<open>What each operation adds to the history\<close>

datatype auth_op =
    OpWrite dict
  | OpReserve string string
  | OpBind string string string
  | OpActivate string string string
  | OpRetire string string string
  | OpRetireAbsent string string "string option"
  | OpConverge string string string
  | OpRotate
  | OpIssue string string string int int
  | OpVerify dict string int
  | OpOwns string string string

fun perform :: "crypto \<Rightarrow> auth_op \<Rightarrow> unit custody_prog" where
  "perform c (OpWrite r) = auth_write c r"
| "perform c (OpReserve operation name) = reserve c operation name"
| "perform c (OpBind operation name docker_id) = bind_resource c operation name docker_id"
| "perform c (OpActivate operation name docker_id) = activate c operation name docker_id"
| "perform c (OpRetire operation name docker_id) = retire c operation name docker_id"
| "perform c (OpRetireAbsent operation name docker_id) = retire_absent c operation name docker_id"
| "perform c (OpConverge operation name docker_id) = converge c operation name docker_id"
| "perform c OpRotate = rotate_keys c"
| "perform c (OpIssue operation docker_id nonce observed_at expires_at) =
     sthen (issue_evidence c operation docker_id nonce observed_at expires_at) (ret ())"
| "perform c (OpVerify evidence docker_id now) = sthen (verify_evidence c evidence docker_id now) (ret ())"
| "perform c (OpOwns operation name docker_id) = sthen (auth_owns c operation name docker_id) (ret ())"

definition container_entry :: "string \<Rightarrow> string \<Rightarrow> string \<Rightarrow> string \<Rightarrow> entry" where
  "container_entry operation name docker_id state =
     \<lparr>en_operation = operation, en_kind = ''container'', en_name = name, en_docker_id = docker_id, en_state = state\<rparr>"

definition planned_transition :: "entry list \<Rightarrow> string \<Rightarrow> string \<Rightarrow> string \<Rightarrow> string \<Rightarrow> string \<Rightarrow> (custody_exn, entry list) result" where
  "planned_transition h operation name docker_id expected target =
     (case latest_entry h operation name of
        None \<Rightarrow> Inl AuthorityState
      | Some e \<Rightarrow> if en_state e = expected \<and> en_docker_id e \<in> {[], docker_id}
          then Inr [container_entry operation name docker_id target] else Inl AuthorityState)"

definition planned_converge :: "entry list \<Rightarrow> string \<Rightarrow> string \<Rightarrow> string \<Rightarrow> (custody_exn, entry list) result" where
  "planned_converge h operation name docker_id =
     (let reserved = container_entry operation name [] ''reserved'';
          bound = container_entry operation name docker_id ''reserved'';
          active = container_entry operation name docker_id ''active'' in
      if held_by_other h operation name then Inl CustodyConflict
      else case latest_entry h operation name of
        None \<Rightarrow> Inr [reserved, bound, active]
      | Some e \<Rightarrow>
          if en_state e = ''reserved'' \<and> en_docker_id e = [] then Inr [bound, active]
          else if en_state e = ''reserved'' \<and> en_docker_id e = docker_id then Inr [active]
          else if en_state e = ''active'' \<and> en_docker_id e = docker_id \<and> en_kind e = ''container'' then Inr []
          else Inl CustodyConflict)"

fun planned :: "entry list \<Rightarrow> auth_op \<Rightarrow> (custody_exn, entry list) result" where
  "planned h (OpWrite r) = Inr [entry_of r]"
| "planned h (OpReserve operation name) = Inr [container_entry operation name [] ''reserved'']"
| "planned h (OpBind operation name docker_id) = planned_transition h operation name docker_id ''reserved'' ''reserved''"
| "planned h (OpActivate operation name docker_id) = planned_transition h operation name docker_id ''reserved'' ''active''"
| "planned h (OpRetire operation name docker_id) = planned_transition h operation name docker_id ''active'' ''retired''"
| "planned h (OpRetireAbsent operation name docker_id) =
     (case latest_entry h operation name of
        None \<Rightarrow> Inl AuthorityState
      | Some e \<Rightarrow> if en_state e \<notin> {''active'', ''retired''} \<or> docker_id \<notin> {None, Some (en_docker_id e)} then Inl AuthorityState
          else if en_state e = ''retired'' then Inr []
          else Inr [container_entry operation name (en_docker_id e) ''retired''])"
| "planned h (OpConverge operation name docker_id) = planned_converge h operation name docker_id"
| "planned h _ = Inr []"

text \<open>
  Why an operation of which the history approves may still raise: a write fails, the state file is missing
  though this is not the first operation, or a record is not well formed.
\<close>

definition entry_ok :: "entry \<Rightarrow> bool" where
  "entry_ok e \<longleftrightarrow> en_operation e \<noteq> [] \<and> en_kind e \<noteq> [] \<and> en_name e \<noteq> [] \<and> en_state e \<in> {''reserved'', ''active'', ''retired''} \<and>
     (en_state e = ''reserved'' \<or> en_docker_id e \<noteq> [])"

definition acceptable :: "auth_op \<Rightarrow> entry list \<Rightarrow> bool" where
  "acceptable op es = (case op of OpWrite r \<Rightarrow> validate_record r = Inr () | OpIssue _ _ _ _ _ \<Rightarrow> False | _ \<Rightarrow> list_all entry_ok es)"

definition starts :: "auth_op \<Rightarrow> bool" where
  "starts op = (case op of OpWrite _ \<Rightarrow> True | OpReserve _ _ \<Rightarrow> True | OpConverge _ _ _ \<Rightarrow> True | _ \<Rightarrow> False)"

definition hindered :: "authority_fs \<Rightarrow> auth_op \<Rightarrow> entry list \<Rightarrow> bool" where
  "hindered s op es \<longleftrightarrow> \<not> steady s \<or> fs_state s = None \<and> \<not> (starts op \<and> fs_lock s = None) \<or> \<not> acceptable op es"

definition well_formed_op :: "auth_op \<Rightarrow> bool" where
  "well_formed_op op = (case op of OpWrite r \<Rightarrow> distinct (map fst r) | _ \<Rightarrow> True)"

definition records_nonce :: "auth_op \<Rightarrow> bool" where
  "records_nonce op = (case op of OpVerify _ _ _ \<Rightarrow> True | _ \<Rightarrow> False)"

text \<open>Success extends the history as planned; an exception leaves a proper initial part of the plan.\<close>

definition conforms :: "crypto \<Rightarrow> authority_fs \<Rightarrow> auth_op \<Rightarrow> 'a custody_prog \<Rightarrow> authority_fs \<Rightarrow> bool" where
  "conforms c s op m = wp m
     (\<lambda>_ s'. good_world c s' \<and>
        (if records_nonce op then prefix (world_nonces c s) (world_nonces c s') else world_nonces c s' = world_nonces c s) \<and>
        (\<exists>es. planned (world_history c s) op = Inr es \<and> world_history c s' = world_history c s @ es))
     (\<lambda>e s'. good_world c s' \<and> world_nonces c s' = world_nonces c s \<and>
        (case planned (world_history c s) op of
           Inl e' \<Rightarrow> e = e' \<and> world_history c s' = world_history c s
         | Inr es \<Rightarrow> e = AuthorityState \<and> hindered s op es \<and>
             (\<exists>n. (n < length es \<or> es = []) \<and> world_history c s' = world_history c s @ take n es)))"

lemma validate_container:
  "validate_record (container_record operation name docker_id state) = Inr () \<longleftrightarrow> entry_ok (container_entry operation name docker_id state)"
  by (auto simp: validate_record_def result_iff container_record_def has_fields_def REQUIRED_RECORD_FIELDS_def field_is_def is_str_def
      entry_ok_def container_entry_def)

lemma append_one: "sthen (append_record c st r) (ret ()) = append_all c st [r]"
  by (simp add: sthen_def)

declare append_all.simps [simp del]

definition is_container :: "dict \<Rightarrow> bool" where
  "is_container r \<longleftrightarrow> (\<exists>operation name docker_id state. r = container_record operation name docker_id state)"

lemma is_container_record [simp]: "is_container (container_record operation name docker_id state)"
  by (auto simp: is_container_def)

lemma conforms_append:
  assumes mem: "in_memory c s' st" and same: "same_views c s s'" and steady: "steady s \<longrightarrow> steady s'"
    and rs: "\<forall>r \<in> set rs. distinct (map fst r)" "planned (world_history c s) op = Inr (map entry_of rs)"
      "acceptable op (map entry_of rs) \<Longrightarrow> list_all (\<lambda>r. validate_record r = Inr ()) rs"
  shows "conforms c s op (append_all c st rs) s'"
  unfolding conforms_def rs(2) sum.case
proof (rule wp_mono [OF wp_append_all [OF mem rs(1)]], goal_cases)
  case (2 e s'')
  then have "hindered s op (map entry_of rs)" using steady rs(3) by (auto simp: hindered_def refusable_def list_all_iff)
  with 2 same show ?case by (auto simp: same_views_def)
qed (use same in \<open>simp add: same_views_def\<close>)

lemma conforms_containers:
  assumes "in_memory c s' st" "same_views c s s'" "steady s \<longrightarrow> steady s'"
    and "planned (world_history c s) op = Inr (map entry_of rs)" "\<forall>r \<in> set rs. is_container r"
    and "\<And>r. op \<noteq> OpWrite r"
  shows "conforms c s op (append_all c st rs) s'"
proof (rule conforms_append [OF assms(1-3)])
  have each: "distinct (map fst r) \<and> (entry_ok (entry_of r) \<longrightarrow> validate_record r = Inr ())" if "r \<in> set rs" for r
    using assms(5) that validate_container by (fastforce simp: is_container_def container_entry_def)
  then show "\<forall>r \<in> set rs. distinct (map fst r)" by blast
  show "acceptable op (map entry_of rs) \<Longrightarrow> list_all (\<lambda>r. validate_record r = Inr ()) rs"
    using assms(6) each by (auto simp: acceptable_def list_all_iff split: auth_op.splits)
qed (fact assms(4))

lemma conforms_refused:
  "same_views c s s' \<Longrightarrow> planned (world_history c s) op = Inl e \<Longrightarrow> conforms c s op (raise_exn e) s'"
  by (simp add: conforms_def wp_rules same_views_def)

lemma conforms_done:
  "same_views c s s' \<Longrightarrow> planned (world_history c s) op = Inr [] \<Longrightarrow> conforms c s op (ret x) s'"
  by (simp add: conforms_def wp_rules same_views_def)

definition missing :: "authority_fs \<Rightarrow> auth_op \<Rightarrow> bool" where
  "missing s op \<longleftrightarrow> fs_state s = None \<and> \<not> (starts op \<and> fs_lock s = None)"

lemma conforms_missing:
  assumes "good_world c s" "same_views c s s'" "missing s op"
  shows "conforms c s op (raise_exn AuthorityState) s'"
proof -
  have "hindered s op es" for es using assms(3) by (auto simp: hindered_def missing_def)
  moreover have h: "world_history c s = []" using absent_views [OF assms(1)] assms(3) by (simp add: missing_def)
  moreover have "planned [] op = Inl AuthorityState \<or> (\<exists>es. planned [] op = Inr es)"
    by (cases op) (simp_all add: planned_transition_def planned_converge_def held_by_other_def)
  ultimately show ?thesis using assms(2) by (fastforce simp: conforms_def wp_rules same_views_def intro: exI [of _ 0])
qed

lemma conforms_locked:
  assumes "good_world c s"
    and "\<And>st s'. in_memory c s' st \<Longrightarrow> same_views c s s' \<Longrightarrow> steady s \<longrightarrow> steady s' \<Longrightarrow> conforms c s op (body st) s'"
    and "fs_state s = None \<Longrightarrow> \<not> initializing \<Longrightarrow> missing s op"
  shows "conforms c s op (locked (sbind (read_or_initial_state c initializing) body)) s"
  using assms(2) conforms_missing [OF assms(1)] assms(3) unfolding conforms_def wp_raise
  by (intro wp_locked_init [OF assms(1)]) blast+

lemma conforms_initializing:
  assumes "good_world c s" "starts op"
    and "\<And>st s'. in_memory c s' st \<Longrightarrow> same_views c s s' \<Longrightarrow> steady s \<longrightarrow> steady s' \<Longrightarrow> conforms c s op (body st) s'"
  shows "conforms c s op (sbind is_initializing (\<lambda>initializing. locked (sbind (read_or_initial_state c initializing) body))) s"
proof -
  have "path_exists (fs_lock s) \<longleftrightarrow> fs_lock s \<noteq> None"
    using assms(1) by (auto simp: good_world_def path_exists_def private_file_def)
  then have "conforms c s op (locked (sbind (read_or_initial_state c (\<not> path_exists (fs_lock s))) body)) s"
    by (intro conforms_locked [OF assms(1) assms(3)]) (simp_all add: missing_def)
  then show ?thesis by (simp add: conforms_def wp_rules is_initializing_def)
qed

lemma conforms_write:
  assumes "good_world c s" "distinct (map fst r)" shows "conforms c s (OpWrite r) (auth_write c r) s"
proof (cases "validate_record r = Inr ()")
  case True
  have "conforms c s (OpWrite r) (append_all c st [r]) s'"
    if "in_memory c s' st" "same_views c s s'" "steady s \<longrightarrow> steady s'" for st s'
    by (rule conforms_append [OF that]) (use assms True in simp_all)
  then have "conforms c s (OpWrite r) (sbind is_initializing (\<lambda>initializing.
      locked (sbind (read_or_initial_state c initializing) (\<lambda>st. append_all c st [r])))) s"
    by (intro conforms_initializing [OF assms(1)]) (simp_all add: starts_def)
  then show ?thesis unfolding auth_write_def append_one by (simp add: conforms_def wp_then wp_lift True)
next
  case False
  then have "validate_record r = Inl AuthorityState" using validate_record_cases by blast
  then show ?thesis using assms(1)
    by (auto simp: conforms_def auth_write_def wp_then wp_lift hindered_def acceptable_def intro: exI [of _ 0])
qed

lemma conforms_reserve:
  assumes "good_world c s" shows "conforms c s (OpReserve operation name) (reserve c operation name) s"
  unfolding reserve_def append_one
  by (rule conforms_initializing [OF assms]) (simp_all add: starts_def conforms_containers container_entry_def)

lemma conforms_transition:
  assumes "good_world c s" and op: "\<And>h. planned h op = planned_transition h operation name docker_id expected target"
    and "\<not> starts op"
  shows "conforms c s op (auth_transition c operation name docker_id expected target) s"
  unfolding auth_transition_def append_one
proof (rule conforms_locked [OF assms(1)])
  fix st s' assume mem: "in_memory c s' st" and same: "same_views c s s'" and steady: "steady s \<longrightarrow> steady s'"
  have h: "world_history c s' = world_history c s" using same by (simp add: same_views_def)
  have ops: "op \<noteq> OpWrite r" for r using assms(3) by (auto simp: starts_def)
  note latest = latest_entry_of [OF mem, unfolded h, of operation name]
  note plan = op [of "world_history c s"]
  show "conforms c s op (case latest st operation name of None \<Rightarrow> raise_exn AuthorityState
      | Some r \<Rightarrow> if \<not> field_is ''state'' expected r \<or> \<not> (field_is ''docker_id'' [] r \<or> field_is ''docker_id'' docker_id r)
          then raise_exn AuthorityState else append_all c st [container_record operation name docker_id target]) s'"
  proof (cases "latest st operation name")
    case None
    with latest(1) show ?thesis by (simp add: conforms_refused [OF same] plan planned_transition_def)
  next
    case (Some r)
    show ?thesis unfolding Some option.case using latest(2) [OF Some]
      by (cases "en_state (entry_of r) = expected"; cases "en_docker_id (entry_of r) = []"; cases "en_docker_id (entry_of r) = docker_id")
        (simp_all add: ops plan planned_transition_def container_entry_def conforms_refused [OF same] conforms_containers [OF mem same steady])
  qed
qed (use assms(3) in \<open>simp add: missing_def\<close>)

lemma conforms_retire_absent:
  assumes "good_world c s" shows "conforms c s (OpRetireAbsent operation name docker_id) (retire_absent c operation name docker_id) s"
  unfolding retire_absent_def append_one
proof (rule conforms_locked [OF assms])
  fix st s' assume mem: "in_memory c s' st" and same: "same_views c s s'" and steady: "steady s \<longrightarrow> steady s'"
  have h: "world_history c s' = world_history c s" using same by (simp add: same_views_def)
  note latest = latest_entry_of [OF mem, unfolded h, of operation name]
  show "conforms c s (OpRetireAbsent operation name docker_id) (case latest st operation name of None \<Rightarrow> raise_exn AuthorityState
      | Some r \<Rightarrow> if \<not> (field_is ''state'' ''active'' r \<or> field_is ''state'' ''retired'' r) \<or>
              (case docker_id of None \<Rightarrow> False | Some i \<Rightarrow> \<not> field_is ''docker_id'' i r)
           then raise_exn AuthorityState
           else if field_is ''state'' ''retired'' r then ret ()
           else append_all c st [container_record operation name (str_field ''docker_id'' r) ''retired'']) s'"
  proof (cases "latest st operation name")
    case None
    with latest(1) show ?thesis by (simp add: conforms_refused [OF same])
  next
    case (Some r)
    show ?thesis unfolding Some option.case using latest(2) [OF Some]
      by (cases "en_state (entry_of r) = ''active''"; cases "en_state (entry_of r) = ''retired''"; cases "docker_id \<in> {None, Some (en_docker_id (entry_of r))}")
        (auto simp: container_entry_def conforms_refused [OF same] conforms_done [OF same] conforms_containers [OF mem same steady] split: option.splits)
  qed
qed (simp add: missing_def starts_def)

lemma conforms_converge:
  assumes "good_world c s" shows "conforms c s (OpConverge operation name docker_id) (converge c operation name docker_id) s"
  unfolding converge_def Let_def
proof (rule conforms_initializing [OF assms], goal_cases)
  case (2 st s')
  note mem = 2(1) and same = 2(2) and steady = 2(3)
  have h: "world_history c s' = world_history c s" using same by (simp add: same_views_def)
  have held: "held_by_other_operation st operation name \<longleftrightarrow> held_by_other (world_history c s) operation name"
    using held_history [of c st] mem h by (simp add: in_memory_def)
  note latest = latest_entry_of [OF mem, unfolded h, of operation name]
  show ?case
  proof (cases "latest st operation name")
    case None
    with latest(1) held show ?thesis
      by (auto intro!: conforms_refused [OF same] conforms_containers [OF mem same steady] simp: planned_converge_def container_entry_def)
  next
    case (Some r)
    note l = latest(2) [OF Some]
    show ?thesis unfolding Some option.case held
    proof (split if_split, intro conjI impI, goal_cases)
      case 1
      then show ?case by (intro conforms_refused [OF same]) (simp add: planned_converge_def)
    next
      case 2
      with l show ?case
        by (cases "en_state (entry_of r) = ''reserved''"; cases "en_docker_id (entry_of r) = []"; cases "en_docker_id (entry_of r) = docker_id";
            cases "en_state (entry_of r) = ''active''"; cases "en_kind (entry_of r) = ''container''")
          (simp_all add: planned_converge_def container_entry_def conforms_refused [OF same] conforms_done [OF same] conforms_containers [OF mem same steady])
    qed
  qed
qed (simp add: starts_def)

lemma same_views_drawn:
  assumes "good_world c s" shows "same_views c s (s\<lparr>fs_drawn := Suc (fs_drawn s)\<rparr>)"
proof -
  let ?s = "s\<lparr>fs_drawn := Suc (fs_drawn s)\<rparr>"
  have holds: "holds_state c ?s st" if "holds_state c s st" for st
    using that by (auto simp: holds_state_def private_dir_def private_file_def lessThan_Suc)
  have good: "good_world c ?s"
    using assms holds by (auto simp: good_world_def fresh_keys_def private_dir_def private_file_def)
  from assms show ?thesis
  proof (cases rule: good_cases)
    case absent
    with absent_views [OF good] good show ?thesis by (simp add: same_views_def)
  next
    case (present st)
    with holds_views [OF good holds] good show ?thesis by (simp add: same_views_def)
  qed
qed

lemma stored_ok_more_keys:
  "stored_ok c keys r \<Longrightarrow> kid \<notin> fst ` set keys \<Longrightarrow> stored_ok c (AList.update kid key keys) r"
  by (auto simp: stored_ok_def update_conv' map_of_eq_None_iff [symmetric] simp del: map_of_eq_Some_iff)

lemma wp_add_key:
  assumes mem: "in_memory c s st"
  shows "wp (add_key st) (\<lambda>st' s'. in_memory c s' st' \<and> same_views c s s' \<and> fs_writes s' = fs_writes s) (\<lambda>_ _. False) s"
proof -
  obtain kid key where fresh: "fs_fresh s (fs_drawn s) = (kid, key)" by fastforce
  let ?s = "s\<lparr>fs_drawn := Suc (fs_drawn s)\<rparr>" and ?st = "st\<lparr>au_keys := AList.update kid key (au_keys st), au_active_key := kid\<rparr>"
  have good: "good_world c s" using mem by (simp add: in_memory_def)
  have "inj (\<lambda>n. fst (fs_fresh s n))" using good by (simp add: good_world_def fresh_keys_def)
  then have "fst (fs_fresh s n) \<noteq> kid" if "n < fs_drawn s" for n
    using that fresh injD [of "\<lambda>n. fst (fs_fresh s n)" n "fs_drawn s"] by auto
  moreover have keys: "set (au_keys st) \<subseteq> fs_fresh s ` {..<fs_drawn s}" using mem by (simp add: in_memory_def)
  ultimately have new: "kid \<notin> fst ` set (au_keys st)" by fastforce
  then have "valid_state c ?st"
    using mem by (auto simp: in_memory_def valid_state_def distinct_update update_conv' stored_ok_more_keys simp del: map_of_eq_Some_iff)
  moreover have "set (au_keys ?st) \<subseteq> fs_fresh ?s ` {..<fs_drawn ?s}"
  proof -
    have "set (AList.update kid key (au_keys st)) = insert (kid, key) {(k', v') \<in> set (au_keys st). k' \<noteq> kid}"
      using mem by (intro set_update) (simp add: in_memory_def valid_state_def)
    then show ?thesis using keys fresh by (auto simp: lessThan_Suc) 
  qed
  ultimately have "in_memory c ?s ?st"
    using mem same_views_drawn [OF good] by (simp add: in_memory_def same_views_def history_def) (simp add: private_dir_def private_file_def)
  with same_views_drawn [OF good] show ?thesis by (simp add: wp_def add_key_def fresh)
qed

lemma same_views_trans: "same_views c s s' \<Longrightarrow> same_views c s' s'' \<Longrightarrow> same_views c s s''"
  by (simp add: same_views_def)

lemma conforms_same:
  assumes "wp m (\<lambda>_ s'. same_views c s s') (\<lambda>e s'. e = AuthorityState \<and> same_views c s s' \<and> hindered s op []) s'"
    "planned (world_history c s) op = Inr []"
  shows "conforms c s op m s'"
  unfolding conforms_def assms(2) by (rule wp_mono [OF assms(1)]) (simp_all add: same_views_def)

lemma conforms_rotate:
  assumes "good_world c s" shows "conforms c s OpRotate (rotate_keys c) s"
proof (rule conforms_same)
  show "wp (rotate_keys c) (\<lambda>_ s'. same_views c s s') (\<lambda>e s'. e = AuthorityState \<and> same_views c s s' \<and> hindered s OpRotate []) s"
    unfolding rotate_keys_def
  proof (rule wp_locked_read [OF assms], goal_cases)
    case (1 st s')
    show ?case unfolding wp_bind
    proof (rule wp_mono [OF wp_add_key [OF 1(1)]], goal_cases)
      case (1 st' s'')
      then have same: "same_views c s s''" using \<open>same_views c s s'\<close> by (blast intro: same_views_trans)
      have steady: "steady s \<longrightarrow> steady s''" using 1 \<open>steady s \<longrightarrow> steady s'\<close> by (simp add: steady_def)
      have "wp (write_atomic st') (\<lambda>_ z. in_memory c z st' \<and> (steady s'' \<longrightarrow> steady z))
          (\<lambda>e z. e = AuthorityState \<and> same_views c s'' z \<and> \<not> steady s'') s''"
        by (rule wp_write) (use 1 in \<open>simp_all add: in_memory_def\<close>)
      then show ?case
        by (rule wp_mono) (use 1 same steady in \<open>auto simp: in_memory_def same_views_def hindered_def\<close>)
    qed simp
  qed (auto simp: hindered_def starts_def)
qed simp

text \<open>The state after a nonce is recorded.\<close>

definition with_nonce :: "string \<Rightarrow> authority_state \<Rightarrow> authority_state" where
  "with_nonce nonce st = st\<lparr>au_used_nonces := au_used_nonces st @ [nonce]\<rparr>"

lemma wp_record_nonce:
  assumes "in_memory c s st"
  shows "wp (write_atomic (with_nonce nonce st))
    (\<lambda>_ s'. good_world c s' \<and> world_history c s' = world_history c s \<and> world_nonces c s' = world_nonces c s @ [nonce])
    (\<lambda>e s'. same_views c s s' \<and> \<not> steady s) s"
proof -
  have "wp (write_atomic (with_nonce nonce st)) (\<lambda>_ s'. in_memory c s' (with_nonce nonce st) \<and> (steady s \<longrightarrow> steady s'))
      (\<lambda>e s'. e = AuthorityState \<and> same_views c s s' \<and> \<not> steady s) s"
    by (rule wp_write) (use assms in \<open>simp_all add: in_memory_def with_nonce_def valid_state_def del: map_of_eq_Some_iff\<close>)
  then show ?thesis by (rule wp_mono) (use assms in \<open>simp_all add: in_memory_def with_nonce_def history_def\<close>)
qed

text \<open>Whether the history ever had an active record of the operation and the container.\<close>

definition was_active :: "entry list \<Rightarrow> string \<Rightarrow> string \<Rightarrow> bool" where
  "was_active h operation docker_id \<longleftrightarrow> (\<exists>e \<in> set h. en_operation e = operation \<and> en_docker_id e = docker_id \<and> en_state e = ''active'')"

lemma ever_active_history:
  assumes "in_memory c s st" shows "ever_active st (JStr operation) docker_id \<longleftrightarrow> was_active (world_history c s) operation docker_id"
proof -
  have "map_of r ''operation'' = Some (JStr operation) \<and> field_is ''docker_id'' docker_id r \<and> field_is ''state'' ''active'' r \<longleftrightarrow>
      en_operation (entry_of r) = operation \<and> en_docker_id (entry_of r) = docker_id \<and> en_state (entry_of r) = ''active''"
    if "r \<in> set (au_records st)" for r
  proof -
    have "stored_ok c (au_keys st) r" using assms that by (simp add: in_memory_def valid_state_def)
    note required_field [OF this]
    then show ?thesis by (simp add: entry_of_def)
  qed
  then have "ever_active st (JStr operation) docker_id \<longleftrightarrow> was_active (history st) operation docker_id"
    by (simp add: ever_active_def was_active_def history_def list_ex_iff)
  then show ?thesis using assms by (simp add: in_memory_def)
qed

lemma was_active_more: "was_active h operation docker_id \<Longrightarrow> prefix h h' \<Longrightarrow> was_active h' operation docker_id"
  by (auto simp: was_active_def prefix_def)

lemma wp_locked: "good_world c s \<Longrightarrow> wp (locked m) Q R s = wp m Q R (prepared s)"
  by (simp add: wp_def locked_run)

text \<open>The verdict on evidence and what it leaves behind.\<close>

definition convincing :: "crypto \<Rightarrow> authority_fs \<Rightarrow> dict \<Rightarrow> string \<Rightarrow> int \<Rightarrow> bool" where
  "convincing c s evidence docker_id now \<longleftrightarrow>
     evidence_form_ok evidence docker_id now \<and> str_field ''nonce'' evidence \<notin> set (world_nonces c s) \<and>
     was_active (world_history c s) (str_field ''operation'' evidence) docker_id \<and>
     (\<exists>st key. file_state c (prepared s) = Some st \<and> map_of (au_keys st) (str_field ''key_id'' evidence) = Some key \<and>
        verify_values c key evidence)"

lemma wp_verify:
  assumes "good_world c s"
  shows "wp (verify_evidence c evidence docker_id now)
    (\<lambda>ok s'. if ok then good_world c s' \<and> world_history c s' = world_history c s \<and>
          world_nonces c s' = world_nonces c s @ [str_field ''nonce'' evidence] \<and> convincing c s evidence docker_id now
        else same_views c s s' \<and> (steady s \<longrightarrow> \<not> convincing c s evidence docker_id now))
    (\<lambda>_ _. False) s"
proof (cases "evidence_form_ok evidence docker_id now")
  case True
  have on_disk: "file_state c (prepared s) = Some st" if "read_state c (prepared s) = (s', Inr st)" for st s'
    using that by (simp add: file_state_def)
  have absent: "file_state c (prepared s) = None" if "fs_state s = None"
    using file_state_run(2) [OF good_prepared [OF assms]] that by simp
  have same: "same_views c s (prepared s)" using assms by (simp add: same_views_def good_prepared prepared_views)
  have steady: "steady (prepared s) = steady s" by (simp add: steady_def)
  have read: "wp (read_state c) (\<lambda>st s'. in_memory c s' st \<and> same_views c s s' \<and> file_state c (prepared s) = Some st \<and> steady s' = steady s)
      (\<lambda>e s'. same_views c s s' \<and> file_state c (prepared s) = None) (prepared s)"
    using wp_read_state [OF assms] same on_disk absent steady by (auto simp: wp_def split: sum.splits prod.splits)
  have form: "(\<not> evidence_form_ok evidence docker_id now) = False" using True by simp
  show ?thesis unfolding verify_evidence_def form if_False with_nonce_def [symmetric] wp_try wp_locked [OF assms] wp_bind
  proof (rule wp_mono [OF read], goal_cases)
    case (1 st s')
    then have mem: "in_memory c s' st" and same: "same_views c s s'" and on_disk: "file_state c (prepared s) = Some st"
      and steady: "steady s' = steady s" by simp_all
    have views: "world_history c s' = world_history c s" "au_used_nonces st = world_nonces c s" "world_nonces c s' = world_nonces c s"
      using mem same by (simp_all add: in_memory_def same_views_def)
    show ?case
    proof (cases "map_of (au_keys st) (str_field ''key_id'' evidence)")
      case None
      then show ?thesis using same on_disk by (simp add: wp_ret convincing_def)
    next
      case (Some key)
      show ?thesis unfolding Some option.case wp_if wp_then wp_ret
        using same on_disk Some True views ever_active_history [OF mem] steady
        by (auto simp: same_views_def convincing_def intro!: wp_mono [OF wp_record_nonce [OF mem]] simp del: map_of_eq_Some_iff)
    qed
  qed (simp add: wp_ret convincing_def)
qed (use assms in \<open>simp add: verify_evidence_def wp_ret same_views_def convincing_def\<close>)

text \<open>Evidence is signed for a record that was active at some time, and nothing changes.\<close>

definition evidence_values :: "string \<Rightarrow> string \<Rightarrow> string \<Rightarrow> string \<Rightarrow> int \<Rightarrow> int \<Rightarrow> dict" where
  "evidence_values kid operation docker_id nonce observed_at expires_at =
     [(''schema'', JInt 1), (''key_id'', JStr kid), (''operation'', JStr operation), (''docker_id'', JStr docker_id),
      (''nonce'', JStr nonce), (''observed_at'', JInt observed_at), (''expires_at'', JInt expires_at)]"

definition issued :: "crypto \<Rightarrow> authority_state \<Rightarrow> dict \<Rightarrow> string \<Rightarrow> string \<Rightarrow> string \<Rightarrow> int \<Rightarrow> int \<Rightarrow> bool" where
  "issued c st evidence operation docker_id nonce observed_at expires_at \<longleftrightarrow>
     (\<exists>kid key signature. map_of (au_keys st) kid = Some key \<and>
        sign_values c key (evidence_values kid operation docker_id nonce observed_at expires_at) = Inr signature \<and>
        evidence = evidence_values kid operation docker_id nonce observed_at expires_at @ [(''signature'', JStr signature)])"

lemma wp_issue:
  assumes "good_world c s"
  shows "wp (issue_evidence c operation docker_id nonce observed_at expires_at)
    (\<lambda>evidence s'. s' = prepared s \<and> was_active (world_history c s) operation docker_id \<and> nonce \<noteq> [] \<and> 0 \<le> observed_at \<and>
       observed_at < expires_at \<and> (\<exists>st. file_state c s' = Some st \<and> issued c st evidence operation docker_id nonce observed_at expires_at))
    (\<lambda>e s'. e = AuthorityState \<and> same_views c s s' \<and>
       (nonce = [] \<or> observed_at < 0 \<or> expires_at \<le> observed_at \<or> \<not> was_active (world_history c s) operation docker_id)) s"
proof (cases "nonce = [] \<or> observed_at < 0 \<or> expires_at \<le> observed_at")
  case True
  then show ?thesis using assms by (auto simp: issue_evidence_def wp_rules same_views_def)
next
  case False
  have same: "same_views c s (prepared s)" using assms by (simp add: same_views_def good_prepared prepared_views)
  have absent: "\<not> was_active (world_history c s) operation docker_id" if "fs_state s = None"
    using absent_views [OF assms that] by (simp add: was_active_def)
  have "wp (read_state c) (\<lambda>st s'. s' = prepared s \<and> in_memory c s' st \<and> file_state c s' = Some st)
      (\<lambda>e s'. e = AuthorityState \<and> s' = prepared s \<and> fs_state s = None) (prepared s)"
    using wp_read_state [OF assms] by (auto simp: wp_def file_state_def split: sum.splits prod.splits)
  then show ?thesis
    unfolding issue_evidence_def if_not_P [OF False] evidence_values_def [symmetric] wp_locked [OF assms] wp_bind
  proof (rule wp_mono, goal_cases)
    case (1 st s')
    then have mem: "in_memory c s' st" by blast
    have active: "ever_active st (JStr operation) docker_id \<longleftrightarrow> was_active (world_history c s) operation docker_id"
      using ever_active_history [OF mem] 1 prepared_views [OF assms] by simp
    from active_key_signs [OF mem] obtain key where key: "map_of (au_keys st) (au_active_key st) = Some key"
      and sign: "\<And>r. \<exists>signature. sign_values c key r = Inr signature" by blast
    from sign obtain signature where signature:
      "sign_values c key (evidence_values (au_active_key st) operation docker_id nonce observed_at expires_at) = Inr signature" by blast
    show ?case using 1 False same active key signature
      by (auto simp: wp_rules Let_def issued_def simp del: map_of_eq_Some_iff)
  qed (use absent same in simp)
qed

lemma conforms_issue:
  assumes "good_world c s"
  shows "conforms c s (OpIssue operation docker_id nonce observed_at expires_at)
    (perform c (OpIssue operation docker_id nonce observed_at expires_at)) s"
proof (rule conforms_same)
  have "same_views c s (prepared s)" using assms by (simp add: same_views_def good_prepared prepared_views)
  then show "wp (perform c (OpIssue operation docker_id nonce observed_at expires_at)) (\<lambda>_ s'. same_views c s s')
      (\<lambda>e s'. e = AuthorityState \<and> same_views c s s' \<and> hindered s (OpIssue operation docker_id nonce observed_at expires_at) []) s"
    unfolding perform.simps wp_then by (intro wp_mono [OF wp_issue [OF assms]]) (simp_all add: wp_ret hindered_def acceptable_def)
qed simp

lemma conforms_verify:
  assumes "good_world c s" shows "conforms c s (OpVerify evidence docker_id now) (perform c (OpVerify evidence docker_id now)) s"
  unfolding conforms_def perform.simps wp_then
  by (rule wp_mono [OF wp_verify [OF assms]]) (simp_all add: wp_ret same_views_def records_nonce_def split: if_splits)

lemma same_views_root:
  assumes "good_world c s" "fs_state s = None" shows "same_views c s (s\<lparr>fs_root := Some (private_dir s)\<rparr>)"
proof -
  have "good_world c (s\<lparr>fs_root := Some (private_dir s)\<rparr>)"
    using assms by (auto simp: good_world_def fresh_keys_def private_dir_def private_file_def)
  with absent_views [OF this] absent_views [OF assms] assms(2) show ?thesis by (simp add: same_views_def)
qed

definition owned :: "entry list \<Rightarrow> string \<Rightarrow> string \<Rightarrow> string \<Rightarrow> bool" where
  "owned h operation name docker_id \<longleftrightarrow>
     (case latest_entry h operation name of None \<Rightarrow> False | Some e \<Rightarrow> en_docker_id e = docker_id \<and> en_state e = ''active'')"

lemma latest_normal:
  assumes "valid_state c st"
  shows "(case latest (normal st) operation name of None \<Rightarrow> False | Some r \<Rightarrow> field_is ''docker_id'' docker_id r \<and> field_is ''state'' ''active'' r)
    \<longleftrightarrow> owned (history st) operation name docker_id"
proof (cases "latest (normal st) operation name")
  case None
  with latest_history [OF valid_normal [OF assms], of operation name] history_normal [OF assms] show ?thesis
    by (simp add: owned_def)
next
  case (Some r)
  have "latest_entry (history st) operation name = Some (entry_of r)"
    using latest_history [OF valid_normal [OF assms], of operation name] Some history_normal [OF assms] by simp
  moreover note required_field(2) [OF latest_stored [OF valid_normal [OF assms] Some]]
  ultimately show ?thesis by (simp add: Some owned_def entry_of_def)
qed

lemma wp_owns:
  assumes "good_world c s"
  shows "wp (auth_owns c operation name docker_id)
    (\<lambda>b s'. s' = s \<and> b = owned (world_history c s) operation name docker_id)
    (\<lambda>e s'. e = AuthorityState \<and> same_views c s s' \<and> fs_state s = None) s"
  using assms
proof (cases rule: good_cases)
  case absent
  then show ?thesis using read_state_run(2) [OF assms] same_views_root [OF assms]
    by (simp add: auth_owns_def wp_def sbind_def)
next
  case (present st)
  have "valid_state c st" using present by (simp add: holds_state_def)
  from latest_normal [OF this] show ?thesis using read_state_run(1) [OF assms present(1)] present(2)
    by (simp add: auth_owns_def wp_def sbind_def ret_def)
qed

lemma conforms_owns:
  assumes "good_world c s"
  shows "conforms c s (OpOwns operation name docker_id) (perform c (OpOwns operation name docker_id)) s"
proof (rule conforms_same)
  show "wp (perform c (OpOwns operation name docker_id)) (\<lambda>_ s'. same_views c s s')
      (\<lambda>e s'. e = AuthorityState \<and> same_views c s s' \<and> hindered s (OpOwns operation name docker_id) []) s"
    unfolding perform.simps wp_then
    by (rule wp_mono [OF wp_owns [OF assms]]) (use assms in \<open>simp_all add: wp_ret same_views_def hindered_def starts_def\<close>)
qed simp

lemma conforms_perform:
  assumes "good_world c s" "well_formed_op op" shows "conforms c s op (perform c op) s"
  using assms conforms_issue [OF assms(1)] conforms_verify [OF assms(1)] conforms_owns [OF assms(1)]
  by (cases op) (simp_all add: conforms_write conforms_reserve conforms_transition conforms_retire_absent conforms_converge conforms_rotate
      bind_resource_def activate_def retire_def starts_def well_formed_op_def del: perform.simps(9-11))

end
