(* ===== verification/Authority_Safety.thy ===== *)
theory Authority_Safety
  imports Authority_History
begin

text \<open>
  What the ownership authority guarantees over any sequence of its operations: the history only grows, every
  operation adds what the history permits, one operation at a time owns a container name, and evidence is
  accepted once.
\<close>

section \<open>A first use of the authority\<close>

definition demo_crypto :: crypto where
  "demo_crypto = \<lparr>cr_sign = (\<lambda>key payload. Some (key @ (if even (length payload) then ''0'' else ''1''))),
     cr_verify = (\<lambda>key signature payload. signature = key @ (if even (length payload) then ''0'' else ''1''))\<rparr>"

definition demo_fs :: authority_fs where
  "demo_fs = \<lparr>fs_uid = 1000, fs_parent_ok = True, fs_root = None, fs_lock = None, fs_state = None, fs_writes = [],
     fs_fresh = (\<lambda>n. (replicate (Suc n) CHR ''k'', replicate (Suc n) CHR ''s'')), fs_drawn = 0\<rparr>"

lemma demo_good: "good_world demo_crypto demo_fs"
proof -
  have "inj (\<lambda>n. replicate (Suc n) CHR ''k'')" by (rule injI) (metis Suc_inject length_replicate)
  then show ?thesis by (simp add: good_world_def demo_fs_def demo_crypto_def sound_crypto_def fresh_keys_def)
qed

text \<open>The same world with one container in custody.\<close>

definition demo_record :: dict where
  "demo_record =
     [(''operation'', JStr ''op''), (''kind'', JStr ''container''), (''name'', JStr ''db''), (''docker_id'', JStr ''id''), (''state'', JStr ''active''),
      (''generation'', JInt 1), (''key_id'', JStr ''k''), (''signature'', JStr ''s1'')]"

definition demo_state :: authority_state where
  "demo_state = \<lparr>au_generation = 1, au_records = [demo_record], au_keys = [(''k'', ''s'')], au_active_key = ''k'', au_used_nonces = []\<rparr>"

definition demo_custody :: authority_fs where
  "demo_custody = (prepared demo_fs)\<lparr>fs_state := Some (private_file demo_fs (json_dumps False (state_json demo_state))), fs_drawn := 1\<rparr>"

lemma demo_state_valid: "valid_state demo_crypto demo_state"
proof -
  have "verify_values demo_crypto ''s'' demo_record" by code_simp
  moreover have "validate_record (project_fields REQUIRED_RECORD_FIELDS demo_record) = Inr ()" by code_simp
  moreover have "has_fields STORED_RECORD_FIELDS demo_record" by code_simp
  moreover have "flat demo_record" by (simp add: flat_def demo_record_def is_str_def)
  moreover have "str_field ''key_id'' demo_record = ''k''" "generation_of demo_record = 1"
    by (simp_all add: str_field_def generation_of_def demo_record_def)
  ultimately show ?thesis by (simp add: valid_state_def demo_state_def stored_ok_def)
qed

lemma demo_custody_views:
  "good_world demo_crypto demo_custody" "world_history demo_crypto demo_custody = [container_entry ''op'' ''db'' ''id'' ''active'']"
  "world_nonces demo_crypto demo_custody = []" "steady demo_custody" "fs_state demo_custody \<noteq> None"
proof -
  have holds: "holds_state demo_crypto demo_custody demo_state"
    using demo_state_valid by (simp add: holds_state_def demo_custody_def private_dir_def private_file_def)
      (simp add: demo_state_def demo_fs_def)
  then show good: "good_world demo_crypto demo_custody"
    using demo_good by (auto simp: good_world_def demo_custody_def fresh_keys_def private_dir_def private_file_def)
  note views = holds_views [OF good holds]
  show "world_history demo_crypto demo_custody = [container_entry ''op'' ''db'' ''id'' ''active'']"
    by (simp add: views history_def demo_state_def demo_record_def entry_of_def str_field_def container_entry_def)
  show "world_nonces demo_crypto demo_custody = []" by (simp add: views demo_state_def)
  show "steady demo_custody" "fs_state demo_custody \<noteq> None" by (simp_all add: steady_def demo_custody_def demo_fs_def)
qed

section \<open>Sequences of operations\<close>

fun run_ops :: "crypto \<Rightarrow> auth_op list \<Rightarrow> authority_fs \<Rightarrow> authority_fs" where
  "run_ops c [] s = s"
| "run_ops c (op # ops) s = run_ops c ops (fst (perform c op s))"

lemma perform_extends:
  assumes "good_world c s" "well_formed_op op"
  shows "good_world c (fst (perform c op s))" "prefix (world_history c s) (world_history c (fst (perform c op s)))"
    "prefix (world_nonces c s) (world_nonces c (fst (perform c op s)))"
proof -
  obtain s' r where run: "perform c op s = (s', r)" by fastforce
  have "good_world c s' \<and> prefix (world_history c s) (world_history c s') \<and> prefix (world_nonces c s) (world_nonces c s')"
    using conforms_perform [OF assms] unfolding conforms_def wp_def run
    by (cases r; cases "planned (world_history c s) op") (auto split: if_splits)
  then show "good_world c (fst (perform c op s))" "prefix (world_history c s) (world_history c (fst (perform c op s)))"
    "prefix (world_nonces c s) (world_nonces c (fst (perform c op s)))" by (simp_all add: run)
qed

text \<open>A view of the world that no operation shortens.\<close>

locale growing =
  fixes step :: "'o \<Rightarrow> 's \<Rightarrow> 's" and inv :: "'s \<Rightarrow> bool" and ok :: "'o \<Rightarrow> bool" and view :: "'s \<Rightarrow> 'a list"
  assumes step_inv: "inv s \<Longrightarrow> ok op \<Longrightarrow> inv (step op s)"
    and step_grows: "inv s \<Longrightarrow> ok op \<Longrightarrow> prefix (view s) (view (step op s))"
begin

lemma fold_inv: "inv s \<Longrightarrow> list_all ok ops \<Longrightarrow> inv (fold step ops s)"
  by (induction ops arbitrary: s) (simp_all add: step_inv)

lemma fold_grows: "inv s \<Longrightarrow> list_all ok ops \<Longrightarrow> prefix (view s) (view (fold step ops s))"
proof (induction ops arbitrary: s)
  case (Cons op ops)
  then have "prefix (view (step op s)) (view (fold step ops (step op s)))" by (intro Cons.IH) (simp_all add: step_inv)
  moreover have "prefix (view s) (view (step op s))" using Cons.prems by (simp add: step_grows)
  ultimately show ?case by (simp add: prefix_order.trans [OF _ \<open>prefix (view (step op s)) _\<close>])
qed simp

end

interpretation entries: growing "\<lambda>op s. fst (perform c op s)" "good_world c" well_formed_op "world_history c" for c
  by unfold_locales (simp_all add: perform_extends)

interpretation nonces: growing "\<lambda>op s. fst (perform c op s)" "good_world c" well_formed_op "world_nonces c" for c
  by unfold_locales (simp_all add: perform_extends)

lemma run_ops_fold: "run_ops c ops s = fold (\<lambda>op s. fst (perform c op s)) ops s"
  by (induction ops arbitrary: s) simp_all

lemma run_ops_extends:
  assumes "good_world c s" "list_all well_formed_op ops"
  shows "good_world c (run_ops c ops s) \<and> prefix (world_history c s) (world_history c (run_ops c ops s)) \<and>
    prefix (world_nonces c s) (world_nonces c (run_ops c ops s))"
  unfolding run_ops_fold by (intro conjI entries.fold_inv entries.fold_grows nonces.fold_grows assms)

lemma good_world_readable:
  assumes "good_world c s" shows "fs_state s = None \<or> (\<exists>st. snd (read_state c s) = Inr st)"
  using assms read_state_run(1) [OF assms] by (auto simp: good_world_def)

text \<open>
  C35. The authority is append-only and never corrupts its state file: after any sequence of operations,
  whatever writes fail on the way and whatever evidence is presented, the history and the used nonces extend
  what they were before, and the state file, once there, still passes validation with all its signatures.
\<close>

theorem authority_append_only:
  assumes "good_world c s" "list_all well_formed_op ops" and "s' = run_ops c ops s"
  shows "prefix (world_history c s) (world_history c s') \<and> prefix (world_nonces c s) (world_nonces c s') \<and>
    (fs_state s' = None \<or> (\<exists>st. snd (read_state c s') = Inr st))"
  using run_ops_extends [OF assms(1,2)] good_world_readable assms(3) by simp

section \<open>What an operation adds\<close>

text \<open>
  C36. Every operation refines its plan over the abstract history, a plain list of entries: when it returns,
  the history is extended by exactly the planned entries; when the plan refuses, it raises the planned
  exception and the history is unchanged; when it raises although the plan allows it, an initial part
  of the planned entries is there, and a write failed, the state file was missing, or a record was malformed.
\<close>

theorem authority_refines_history:
  assumes "good_world c s" "well_formed_op op"
  shows "case perform c op s of
     (s', Inr _) \<Rightarrow> \<exists>es. planned (world_history c s) op = Inr es \<and> world_history c s' = world_history c s @ es
   | (s', Inl e) \<Rightarrow> (case planned (world_history c s) op of
        Inl e' \<Rightarrow> e = e' \<and> world_history c s' = world_history c s
      | Inr es \<Rightarrow> e = AuthorityState \<and> hindered s op es \<and>
          (\<exists>n. (n < length es \<or> es = []) \<and> world_history c s' = world_history c s @ take n es))"
  using conforms_perform [OF assms] unfolding conforms_def wp_def
  by (auto split: prod.splits sum.splits)

theorem authority_append_only_witness:
  "prefix (world_history demo_crypto demo_custody) (world_history demo_crypto (run_ops demo_crypto
     [OpConverge ''op2'' ''db2'' ''id2'', OpRotate, OpRetire ''op'' ''db'' ''id''] demo_custody))"
  using authority_append_only [OF demo_custody_views(1), of "[OpConverge ''op2'' ''db2'' ''id2'', OpRotate, OpRetire ''op'' ''db'' ''id'']", OF _ refl]
  by (simp add: well_formed_op_def)

lemma demo_retire_plan:
  "planned (world_history demo_crypto demo_custody) (OpRetire ''op'' ''db'' ''id'') = Inr [container_entry ''op'' ''db'' ''id'' ''retired'']"
  "\<not> hindered demo_custody (OpRetire ''op'' ''db'' ''id'') [container_entry ''op'' ''db'' ''id'' ''retired'']"
proof -
  show "planned (world_history demo_crypto demo_custody) (OpRetire ''op'' ''db'' ''id'') = Inr [container_entry ''op'' ''db'' ''id'' ''retired'']"
    unfolding demo_custody_views(2) by (simp add: planned_transition_def latest_entry_def container_entry_def)
  show "\<not> hindered demo_custody (OpRetire ''op'' ''db'' ''id'') [container_entry ''op'' ''db'' ''id'' ''retired'']"
    using demo_custody_views(4,5) by (simp add: hindered_def acceptable_def entry_ok_def container_entry_def)
qed

theorem authority_refines_history_witness:
  "case perform demo_crypto (OpRetire ''op'' ''db'' ''id'') demo_custody of
     (s', Inr _) \<Rightarrow> world_history demo_crypto s' =
        [container_entry ''op'' ''db'' ''id'' ''active'', container_entry ''op'' ''db'' ''id'' ''retired'']
   | (s', Inl e) \<Rightarrow> False"
  using authority_refines_history [OF demo_custody_views(1), of "OpRetire ''op'' ''db'' ''id''"] demo_retire_plan
  by (simp add: well_formed_op_def demo_custody_views(2) del: planned.simps perform.simps split: prod.splits sum.splits)

lemma perform_planned:
  assumes "good_world c s" "well_formed_op op" "planned (world_history c s) op = Inr es" "\<not> hindered s op es"
  obtains s' where "perform c op s = (s', Inr ())" "good_world c s'" "world_history c s' = world_history c s @ es"
    "records_nonce op \<or> world_nonces c s' = world_nonces c s"
  using conforms_perform [OF assms(1,2)] assms(3,4) unfolding conforms_def wp_def by (auto split: prod.splits sum.splits if_splits)

section \<open>One owner per name\<close>

definition in_custody :: "entry list \<Rightarrow> string \<Rightarrow> string \<Rightarrow> bool" where
  "in_custody h operation name \<longleftrightarrow> (\<exists>e. latest_entry h operation name = Some e \<and> en_state e \<noteq> ''retired'')"

definition exclusive :: "entry list \<Rightarrow> bool" where
  "exclusive h \<longleftrightarrow> (\<forall>name a b. in_custody h a name \<and> in_custody h b name \<longrightarrow> a = b)"

lemma held_custody: "held_by_other h operation name \<longleftrightarrow> (\<exists>other. other \<noteq> operation \<and> in_custody h other name)"
  by (auto simp: held_by_other_def in_custody_def)

lemma latest_entry_other:
  "\<forall>e \<in> set es. en_operation e = operation \<and> en_name e = name \<Longrightarrow> (operation', name') \<noteq> (operation, name) \<Longrightarrow>
    latest_entry (h @ es) operation' name' = latest_entry h operation' name'"
proof (induction es rule: rev_induct)
  case (snoc e es)
  then show ?case unfolding append.assoc [symmetric] latest_entry_simps by auto
qed simp

lemma latest_entry_in:
  assumes "latest_entry h operation name = Some e" shows "e \<in> set h" "en_operation e = operation" "en_name e = name"
  using assms unfolding latest_entry_def find_Some_iff by (auto, metis length_rev nth_mem set_rev)

lemma exclusive_append:
  assumes "exclusive h" "\<not> held_by_other h operation name" "\<forall>e \<in> set es. en_operation e = operation \<and> en_name e = name"
  shows "exclusive (h @ es)"
  unfolding exclusive_def
proof (intro allI impI)
  fix name' a b assume ab: "in_custody (h @ es) a name' \<and> in_custody (h @ es) b name'"
  have same: "in_custody (h @ es) x name' = in_custody h x name'" if "(x, name') \<noteq> (operation, name)" for x
    using latest_entry_other [OF assms(3) that] by (simp add: in_custody_def)
  show "a = b"
  proof (cases "name' = name \<and> (a = operation \<or> b = operation)")
    case True
    moreover have "x = operation" if "in_custody (h @ es) x name" for x
      using that same assms(2) True by (cases "x = operation") (auto simp: held_custody)
    ultimately show ?thesis using ab by auto
  next
    case False
    then have "in_custody h a name'" "in_custody h b name'" using ab same by auto
    then show ?thesis using assms(1) by (auto simp: exclusive_def)
  qed
qed

lemma exclusive_single: "exclusive [e]"
proof -
  have "a = en_operation e" if "in_custody [e] a name" for a name
    using that by (simp add: in_custody_def latest_entry_def split: if_splits)
  then show ?thesis unfolding exclusive_def by blast
qed

text \<open>The operations that look at the custody of the name before they write.\<close>

definition guarded :: "auth_op \<Rightarrow> bool" where
  "guarded op = (case op of OpWrite _ \<Rightarrow> False | OpReserve _ _ \<Rightarrow> False | _ \<Rightarrow> True)"

lemma exclusive_held: "exclusive h \<Longrightarrow> in_custody h operation name \<Longrightarrow> \<not> held_by_other h operation name"
  by (auto simp: exclusive_def held_custody)

lemma exclusive_transition:
  assumes "exclusive h" "planned_transition h operation name docker_id expected target = Inr es" "expected \<noteq> ''retired''"
  shows "exclusive (h @ take n es)"
proof -
  from assms have "in_custody h operation name" "es = [container_entry operation name docker_id target]"
    by (auto simp: planned_transition_def in_custody_def split: option.splits if_splits)
  with exclusive_held [OF assms(1)] show ?thesis
    by (intro exclusive_append [OF assms(1)]) (auto simp: container_entry_def dest: in_set_takeD)
qed

lemma exclusive_planned:
  assumes "exclusive h" "guarded op" "planned h op = Inr es" shows "exclusive (h @ take n es)"
proof (cases op)
  case (OpRetireAbsent operation name docker_id)
  then consider "es = []" | e where "latest_entry h operation name = Some e" "en_state e = ''active''"
      "es = [container_entry operation name (en_docker_id e) ''retired'']"
    using assms(3) by (auto split: option.splits if_splits)
  then show ?thesis
  proof cases
    case 2
    then have "in_custody h operation name" by (simp add: in_custody_def)
    with exclusive_held [OF assms(1)] 2 show ?thesis
      by (intro exclusive_append [OF assms(1)]) (auto simp: container_entry_def dest: in_set_takeD)
  qed (use assms(1) in simp)
next
  case (OpConverge operation name docker_id)
  then have "\<not> held_by_other h operation name" "\<forall>e \<in> set es. en_operation e = operation \<and> en_name e = name"
    using assms(3) by (auto simp: planned_converge_def Let_def container_entry_def split: option.splits if_splits)
  then show ?thesis by (intro exclusive_append [OF assms(1)]) (auto dest: in_set_takeD)
qed (use assms exclusive_transition [OF assms(1)] in \<open>auto simp: guarded_def\<close>)

lemma exclusive_run:
  assumes "good_world c s" "list_all guarded ops" "exclusive (world_history c s)"
  shows "exclusive (world_history c (run_ops c ops s))"
  using assms
proof (induction ops arbitrary: s)
  case (Cons op ops)
  from Cons.prems have op: "guarded op" "well_formed_op op" by (auto simp: guarded_def well_formed_op_def split: auth_op.splits)
  obtain s' r where run: "perform c op s = (s', r)" by fastforce
  have "good_world c s' \<and> exclusive (world_history c s')"
  proof (cases "planned (world_history c s) op")
    case (Inr es)
    note part = exclusive_planned [OF Cons.prems(3) op(1) Inr]
    then have "exclusive (world_history c s @ es)" by (metis order_refl take_all)
    then show ?thesis using conforms_perform [OF Cons.prems(1) op(2)] part unfolding conforms_def wp_def run Inr
      by (cases r) auto
  qed (use conforms_perform [OF Cons.prems(1) op(2)] Cons.prems(3) in \<open>simp add: conforms_def wp_def run split: sum.splits\<close>)
  then have "good_world c s'" "exclusive (world_history c s')" by simp_all
  from Cons.IH [OF this(1) _ this(2)] Cons.prems(2) run show ?case by simp
qed simp

lemma owns_true:
  assumes "good_world c s" "snd (auth_owns c operation name docker_id s) = Inr True"
  shows "owned (world_history c s) operation name docker_id"
  using wp_owns [OF assms(1), of operation name docker_id] assms(2) by (auto simp: wp_def split: prod.splits)

lemma owns_run:
  assumes "good_world c s" "fs_state s \<noteq> None"
  shows "snd (auth_owns c operation name docker_id s) = Inr (owned (world_history c s) operation name docker_id)"
  using wp_owns [OF assms(1), of operation name docker_id] assms(2) by (auto simp: wp_def split: prod.splits sum.splits)

lemma owned_custody: "owned h operation name docker_id \<Longrightarrow> in_custody h operation name"
  by (auto simp: owned_def in_custody_def split: option.splits)

text \<open>
  C37. One operation at a time owns a container name: starting from a history in which no name is in the custody of two
  operations, after any sequence of converging, binding, activating, retiring, rotating keys and handling
  evidence, with whatever writes failing in between, two operations that are both told that they own a container
  of the same name are the same operation, and the container is the same.
\<close>

theorem one_owner_per_name:
  assumes "good_world c s" "exclusive (world_history c s)" "list_all guarded ops" "s' = run_ops c ops s"
    and "snd (auth_owns c a name i s') = Inr True" "snd (auth_owns c b name j s') = Inr True"
  shows "a = b \<and> i = j"
proof -
  have "list_all well_formed_op ops"
    using assms(3) by (auto simp: list_all_iff guarded_def well_formed_op_def split: auth_op.splits)
  then have good: "good_world c s'" using run_ops_extends [OF assms(1)] assms(4) by simp
  note owns = owns_true [OF good assms(5)] owns_true [OF good assms(6)]
  moreover have "exclusive (world_history c s')" using exclusive_run [OF assms(1,3,2)] assms(4) by simp
  ultimately have "a = b" using owned_custody unfolding exclusive_def by blast
  with owns show ?thesis by (auto simp: owned_def split: option.splits)
qed

theorem one_owner_per_name_witness:
  "''op'' = ''op'' \<and> ''id'' = ''id'' \<and> snd (auth_owns demo_crypto ''op'' ''db'' ''id'' demo_custody) = Inr True"
proof -
  have owns: "snd (auth_owns demo_crypto ''op'' ''db'' ''id'' demo_custody) = Inr True"
    unfolding owns_run [OF demo_custody_views(1,5)] demo_custody_views(2)
    by (simp add: owned_def latest_entry_def container_entry_def)
  have "exclusive (world_history demo_crypto demo_custody)"
    unfolding demo_custody_views(2) by (rule exclusive_single)
  from one_owner_per_name [OF demo_custody_views(1) this, of "[]", OF _ _ owns owns] owns show ?thesis by simp
qed

section \<open>Evidence\<close>

lemma verify_run:
  assumes "good_world c s" "verify_evidence c evidence docker_id now s = (s', r)"
  shows "r = Inr True \<and> good_world c s' \<and> world_nonces c s' = world_nonces c s @ [str_field ''nonce'' evidence] \<and> convincing c s evidence docker_id now \<or>
    r = Inr False \<and> same_views c s s' \<and> (steady s \<longrightarrow> \<not> convincing c s evidence docker_id now)"
  using wp_verify [OF assms(1), of evidence docker_id now] assms(2) by (auto simp: wp_def split: sum.splits if_splits)

lemma evidence_window:
  "evidence_form_ok evidence docker_id now \<Longrightarrow>
     \<exists>observed_at expires_at. Option.bind (map_of evidence ''observed_at'') as_int = Some observed_at \<and>
       Option.bind (map_of evidence ''expires_at'') as_int = Some expires_at \<and> observed_at \<le> now \<and> now < expires_at"
  by (auto simp: evidence_form_ok_def split: option.splits)

text \<open>
  C38. Evidence counts at most once: if evidence is accepted, it was signed by a key of the authority, was not observed after the time of the check and had not expired by then,
  and concerns a container that the named operation had active; and whatever the authority does afterwards,
  no evidence with the same nonce is accepted again, for any container and at any time.
\<close>

theorem evidence_single_use:
  assumes "good_world c s" "verify_evidence c evidence docker_id now s = (s1, Inr True)"
    and "list_all well_formed_op ops" "s2 = run_ops c ops s1" "str_field ''nonce'' again = str_field ''nonce'' evidence"
  shows "convincing c s evidence docker_id now \<and>
    (\<exists>observed_at expires_at. Option.bind (map_of evidence ''observed_at'') as_int = Some observed_at \<and>
       Option.bind (map_of evidence ''expires_at'') as_int = Some expires_at \<and> observed_at \<le> now \<and> now < expires_at) \<and>
    snd (verify_evidence c again docker_id' now' s2) = Inr False"
proof -
  from verify_run [OF assms(1,2)] have s1: "good_world c s1" "str_field ''nonce'' evidence \<in> set (world_nonces c s1)"
    and evidence: "convincing c s evidence docker_id now" by simp_all
  from run_ops_extends [OF s1(1) assms(3)] s1(2) assms(4,5) have s2: "good_world c s2" "str_field ''nonce'' again \<in> set (world_nonces c s2)"
    by (auto dest: set_mono_prefix)
  obtain s3 r where run: "verify_evidence c again docker_id' now' s2 = (s3, r)" by fastforce
  have "\<not> convincing c s2 again docker_id' now'" using s2(2) by (simp add: convincing_def)
  with verify_run [OF s2(1) run] run have "snd (verify_evidence c again docker_id' now' s2) = Inr False" by auto
  with evidence evidence_window [of evidence docker_id now] show ?thesis unfolding convincing_def by blast
qed

lemma history_entries_ok:
  assumes "good_world c s" "e \<in> set (world_history c s)" shows "entry_ok e"
  using assms(1)
proof (cases rule: good_cases)
  case (present st)
  with assms(2) obtain r where r: "r \<in> set (au_records st)" "e = entry_of r" by (auto simp: history_def)
  with present(1) have stored: "stored_ok c (au_keys st) r" by (simp add: holds_state_def valid_state_def)
  have field: "field_is k v (project_fields REQUIRED_RECORD_FIELDS r) \<longleftrightarrow> str_field k r = v" if "k \<in> set REQUIRED_RECORD_FIELDS" for k v
    using required_field(1) [OF stored that] that by (simp add: field_is_def project_fields_def map_of_map_restrict)
  from stored have "validate_record (project_fields REQUIRED_RECORD_FIELDS r) = Inr ()" by (simp add: stored_ok_def)
  then show ?thesis unfolding validate_record_def by (simp add: result_iff field r(2) entry_ok_def entry_of_def)
qed (use assms(2) in simp)

definition printable_crypto :: "crypto \<Rightarrow> authority_fs \<Rightarrow> bool" where
  "printable_crypto c s \<longleftrightarrow> (\<forall>n. fst (fs_fresh s n) \<noteq> []) \<and> (\<forall>key payload. cr_sign c key payload \<noteq> Some [])"

lemma key_ids_nonempty:
  assumes "in_memory c s st" "printable_crypto c s" "map_of (au_keys st) kid = Some key" shows "kid \<noteq> []"
proof -
  have "(kid, key) \<in> fs_fresh s ` {..<fs_drawn s}" using assms(1) map_of_SomeD [OF assms(3)] by (auto simp: in_memory_def)
  then obtain n where "kid = fst (fs_fresh s n)" by (metis fst_conv imageE)
  then show ?thesis using assms(2) by (simp add: printable_crypto_def)
qed

lemma issued_form:
  assumes "kid \<noteq> []" "operation \<noteq> []" "docker_id \<noteq> []" "nonce \<noteq> []" "signature \<noteq> []" "observed_at \<le> now" "now < expires_at"
  shows "evidence_form_ok (evidence_values kid operation docker_id nonce observed_at expires_at @ [(''signature'', JStr signature)]) docker_id now"
  using assms by (auto simp: evidence_form_ok_def evidence_values_def EVIDENCE_FIELDS_def field_is_def str_field_def as_int_def)

lemma issued_verifies:
  assumes "sound_crypto c" "sign_values c key (evidence_values kid operation docker_id nonce observed_at expires_at) = Inr signature"
  shows "verify_values c key (evidence_values kid operation docker_id nonce observed_at expires_at @ [(''signature'', JStr signature)])"
proof -
  have "signing_payload (evidence_values kid operation docker_id nonce observed_at expires_at @ [(''signature'', JStr signature)]) =
      signing_payload (evidence_values kid operation docker_id nonce observed_at expires_at)"
    by (simp add: signing_payload_def evidence_values_def)
  moreover have "map_of (evidence_values kid operation docker_id nonce observed_at expires_at @ [(''signature'', JStr signature)]) ''signature'' =
      Some (JStr signature)" by (simp add: evidence_values_def)
  ultimately show ?thesis using assms by (simp add: verify_values_def sign_values_def result_iff sound_crypto_def)
qed

lemma prepared_idem: "prepared (prepared s) = prepared s"
  by (simp add: prepared_def private_dir_def private_file_def)

lemma file_in_memory:
  assumes "good_world c s" "file_state c (prepared s) = Some st" shows "in_memory c (prepared s) st"
  using wp_read_state [OF assms(1)] assms(2) by (auto simp: wp_def file_state_def split: sum.splits prod.splits)

lemma issued_convincing:
  assumes good: "good_world c s" and "printable_crypto c s"
    and active: "was_active (world_history c s) operation docker_id" and "nonce \<notin> set (world_nonces c s)"
    and "nonce \<noteq> []" "observed_at \<le> now" "now < expires_at"
    and st: "file_state c (prepared s) = Some st" "issued c st evidence operation docker_id nonce observed_at expires_at"
  shows "convincing c (prepared s) evidence docker_id now \<and> str_field ''nonce'' evidence = nonce"
proof -
  from st(2) obtain kid key signature where key: "map_of (au_keys st) kid = Some key"
    and sign: "sign_values c key (evidence_values kid operation docker_id nonce observed_at expires_at) = Inr signature"
    and evidence: "evidence = evidence_values kid operation docker_id nonce observed_at expires_at @ [(''signature'', JStr signature)]"
    by (auto simp: issued_def)
  have fields: "str_field ''nonce'' evidence = nonce" "str_field ''operation'' evidence = operation" "str_field ''key_id'' evidence = kid"
    by (simp_all add: evidence evidence_values_def str_field_def)
  have "kid \<noteq> []" using key_ids_nonempty [OF file_in_memory [OF good st(1)] _ key] assms(2) by (simp add: printable_crypto_def)
  moreover from active obtain e where "e \<in> set (world_history c s)" "en_operation e = operation" "en_docker_id e = docker_id" "en_state e = ''active''"
    by (auto simp: was_active_def)
  then have "operation \<noteq> []" "docker_id \<noteq> []" using history_entries_ok [OF good, of e] by (auto simp: entry_ok_def)
  moreover have "signature \<noteq> []" using sign assms(2) by (auto simp: sign_values_def result_iff printable_crypto_def)
  ultimately have "evidence_form_ok evidence docker_id now" unfolding evidence using assms by (intro issued_form)
  moreover have "verify_values c key evidence"
    unfolding evidence using good sign by (intro issued_verifies) (simp_all add: good_world_def)
  ultimately show ?thesis
    using st(1) key active assms(4) by (simp add: convincing_def fields prepared_views [OF good] prepared_idem del: map_of_eq_Some_iff)
qed

lemma issue_then_verify:
  assumes "good_world c s" "printable_crypto c s" "steady s"
    and "was_active (world_history c s) operation docker_id" "nonce \<notin> set (world_nonces c s)"
    and "nonce \<noteq> []" "0 \<le> observed_at" "observed_at \<le> now" "now < expires_at"
  shows "\<exists>evidence s'. issue_evidence c operation docker_id nonce observed_at expires_at s = (s', Inr evidence) \<and>
    snd (verify_evidence c evidence docker_id now s') = Inr True"
proof -
  obtain s' r where run: "issue_evidence c operation docker_id nonce observed_at expires_at s = (s', r)" by fastforce
  with wp_issue [OF assms(1), of operation docker_id nonce observed_at expires_at] assms(4-9)
  obtain evidence st where r: "r = Inr evidence" "s' = prepared s" "file_state c (prepared s) = Some st"
    "issued c st evidence operation docker_id nonce observed_at expires_at" by (auto simp: wp_def split: sum.splits)
  have "convincing c s' evidence docker_id now"
    unfolding r(2) using issued_convincing [OF assms(1,2,4-6,8,9) r(3,4)] by simp
  moreover have "steady s'" using assms(3) r(2) by (simp add: steady_def)
  moreover obtain s'' r' where run': "verify_evidence c evidence docker_id now s' = (s'', r')" by fastforce
  ultimately have "r' = Inr True" using verify_run [OF _ run'] good_prepared [OF assms(1)] r(2) by auto
  with run' have "snd (verify_evidence c evidence docker_id now s') = Inr True" by simp
  with run r(1) show ?thesis by blast
qed

text \<open>
  C39. Issued evidence is accepted: for a container the operation had active, with a nonce not used before and a proper
  window, evidence is issued, and at any time inside the window, as long as the record of the nonce can be
  written, the authority accepts it.
\<close>

theorem evidence_roundtrip:
  assumes "good_world c s" "printable_crypto c s" "steady s"
    and "was_active (world_history c s) operation docker_id" "nonce \<notin> set (world_nonces c s)"
    and "nonce \<noteq> []" "0 \<le> observed_at" "observed_at \<le> now" "now < expires_at"
  shows "\<exists>evidence s'. issue_evidence c operation docker_id nonce observed_at expires_at s = (s', Inr evidence) \<and>
    snd (verify_evidence c evidence docker_id now s') = Inr True"
  using assms by (rule issue_then_verify)

lemma demo_evidence:
  "printable_crypto demo_crypto demo_custody" "was_active (world_history demo_crypto demo_custody) ''op'' ''id''"
proof -
  show "printable_crypto demo_crypto demo_custody" by (simp add: printable_crypto_def demo_crypto_def demo_custody_def demo_fs_def)
  show "was_active (world_history demo_crypto demo_custody) ''op'' ''id''"
    unfolding demo_custody_views(2) by (simp add: was_active_def container_entry_def)
qed

theorem evidence_roundtrip_witness:
  "\<exists>evidence s'. issue_evidence demo_crypto ''op'' ''id'' ''n1'' 10 20 demo_custody = (s', Inr evidence) \<and>
     snd (verify_evidence demo_crypto evidence ''id'' 15 s') = Inr True"
  using evidence_roundtrip [OF demo_custody_views(1) demo_evidence(1) demo_custody_views(4) demo_evidence(2), of "''n1''" 10 15 20]
  by (simp add: demo_custody_views(3))

text \<open>What an operation leaves alone: the random generator, and no write outcome is invented.\<close>

definition framed :: "authority_fs \<Rightarrow> authority_fs \<Rightarrow> bool" where
  "framed s s' \<longleftrightarrow> fs_fresh s' = fs_fresh s \<and> suffix (fs_writes s') (fs_writes s)"

definition frames :: "'a custody_prog \<Rightarrow> bool" where
  "frames m \<longleftrightarrow> (\<forall>s0 s. framed s0 s \<longrightarrow> wp m (\<lambda>_. framed s0) (\<lambda>_. framed s0) s)"

lemma frames_bind: "frames m \<Longrightarrow> (\<And>x. frames (f x)) \<Longrightarrow> frames (sbind m f)"
  unfolding frames_def wp_bind by (blast intro: wp_mono)

lemma frames_then: "frames m \<Longrightarrow> frames k \<Longrightarrow> frames (sthen m k)"
  unfolding sthen_def by (rule frames_bind)

lemma frames_basic: "frames (ret x)" "frames (raise_exn e)" "frames (lift_result r)" "frames (gets g)"
  by (simp_all add: frames_def wp_rules split: sum.splits)

lemma frames_step:
  assumes "\<And>s. framed s (fst (m s))" shows "frames m"
proof -
  have "framed s0 (fst (m s))" if "framed s0 s" for s0 s
    using assms [of s] that by (auto simp: framed_def intro: suffix_order.trans)
  then show ?thesis by (auto simp: frames_def wp_def split: prod.splits sum.splits) (metis fst_conv)+
qed

lemma frames_ensure_root: "frames ensure_root"
  by (rule frames_step) (auto simp: ensure_root_def sthen_def sbind_def framed_def split: option.splits)

lemma frames_open: "frames open_lock" "frames open_state"
  by (rule frames_step, auto simp: open_lock_def open_state_def sthen_def sbind_def modify_def framed_def split: option.splits)+

lemma frames_add_key: "frames (add_key st)"
  by (rule frames_step) (auto simp: add_key_def framed_def split: prod.splits)

lemma frames_write: "frames (write_atomic st)"
  by (rule frames_step) (auto simp: write_atomic_def Let_def framed_def suffix_tl)

lemma frames_read: "frames (read_state c)" "frames (read_or_initial_state c initializing)"
proof -
  show read: "frames (read_state c)"
    unfolding read_state_def by (intro frames_then frames_bind frames_ensure_root frames_open frames_basic)
  show "frames (read_or_initial_state c initializing)"
    unfolding read_or_initial_state_def using read frames_add_key by (intro frames_bind) (simp_all add: frames_basic)
qed

lemma frames_append: "frames (append_record c st r)"
  unfolding append_record_def Let_def by (intro frames_then frames_bind frames_write frames_basic)

lemma frames_transition: "frames (auth_transition c operation name docker_id expected target)"
  unfolding auth_transition_def locked_def
  by (intro frames_then frames_bind frames_ensure_root frames_open frames_read)
    (auto intro!: frames_then frames_append frames_basic split: option.splits)

text \<open>
  C40. Retiring a container does not end its evidence, although its documentation says that the historical active
  record cannot be reused: after a successful retirement the operation no longer owns the container, but
  evidence for it is still issued, and a verifier that asks the authority still accepts it.
\<close>

theorem retired_container_still_attested:
  assumes "good_world c s" "printable_crypto c s" "steady s" "retire c operation name docker_id s = (s', Inr ())"
    and "nonce \<notin> set (world_nonces c s)" "nonce \<noteq> []" "0 \<le> observed_at" "observed_at \<le> now" "now < expires_at"
  shows "snd (auth_owns c operation name docker_id s') = Inr False \<and>
    (\<exists>evidence s''. issue_evidence c operation docker_id nonce observed_at expires_at s' = (s'', Inr evidence) \<and>
       snd (verify_evidence c evidence docker_id now s'') = Inr True)"
proof -
  note conf = conforms_perform [OF assms(1), of "OpRetire operation name docker_id"]
  then obtain es where s': "good_world c s'" "world_nonces c s' = world_nonces c s" "world_history c s' = world_history c s @ es"
    and plan: "planned_transition (world_history c s) operation name docker_id ''active'' ''retired'' = Inr es"
    using assms(4) by (auto simp: well_formed_op_def conforms_def wp_def records_nonce_def)
  from plan obtain e where latest: "latest_entry (world_history c s) operation name = Some e" and e: "en_state e = ''active''"
      "en_docker_id e \<in> {[], docker_id}" and es: "es = [container_entry operation name docker_id ''retired'']"
    by (auto simp: planned_transition_def split: option.splits if_splits)
  note e_in = latest_entry_in [OF latest]
  have "en_docker_id e = docker_id" using history_entries_ok [OF assms(1) e_in(1)] e by (auto simp: entry_ok_def)
  then have active: "was_active (world_history c s') operation docker_id" using e_in e(1) s'(3) by (auto simp: was_active_def)
  have "fs_state s' \<noteq> None" using absent_views(1) [OF s'(1)] s'(3) es by auto
  then have "snd (auth_owns c operation name docker_id s') = Inr False"
    using owns_run [OF s'(1)] by (simp add: s'(3) es owned_def container_entry_def)
  moreover have "framed s s'"
    using frames_transition [of c operation name docker_id "''active''" "''retired''"] assms(4)
    by (auto simp: frames_def wp_def retire_def framed_def split: prod.splits sum.splits)
  then have "printable_crypto c s'" "steady s'"
    using assms(2,3) by (auto simp: framed_def printable_crypto_def steady_def suffix_def)
  note issue_then_verify [OF s'(1) this active _ assms(6-9)]
  ultimately show ?thesis using s'(2) assms(5) by simp
qed

theorem retired_container_still_attested_witness:
  "\<exists>s'. retire demo_crypto ''op'' ''db'' ''id'' demo_custody = (s', Inr ()) \<and>
     snd (auth_owns demo_crypto ''op'' ''db'' ''id'' s') = Inr False \<and>
     (\<exists>evidence s''. issue_evidence demo_crypto ''op'' ''id'' ''n1'' 10 20 s' = (s'', Inr evidence) \<and>
        snd (verify_evidence demo_crypto evidence ''id'' 15 s'') = Inr True)"
proof -
  obtain s' where retired: "retire demo_crypto ''op'' ''db'' ''id'' demo_custody = (s', Inr ())"
    using perform_planned [OF demo_custody_views(1) _ demo_retire_plan] by (auto simp: well_formed_op_def)
  from retired_container_still_attested [OF demo_custody_views(1) demo_evidence(1) demo_custody_views(4) this, of "''n1''" 10 15 20] this
  show ?thesis by (auto simp: demo_custody_views(3))
qed

theorem evidence_single_use_witness:
  "\<exists>evidence s1. convincing demo_crypto (prepared demo_custody) evidence ''id'' 15 \<and>
     verify_evidence demo_crypto evidence ''id'' 15 (prepared demo_custody) = (s1, Inr True) \<and>
     snd (verify_evidence demo_crypto evidence ''id'' 16 (run_ops demo_crypto [OpRotate] s1)) = Inr False"
proof -
  from issue_then_verify [OF demo_custody_views(1) demo_evidence(1) demo_custody_views(4) demo_evidence(2), of "''n1''" 10 15 20]
  obtain evidence s' s1 where issued: "issue_evidence demo_crypto ''op'' ''id'' ''n1'' 10 20 demo_custody = (s', Inr evidence)"
    and verified: "verify_evidence demo_crypto evidence ''id'' 15 s' = (s1, Inr True)"
    by (auto simp: demo_custody_views(3)) (metis prod.collapse)
  have "s' = prepared demo_custody" using wp_issue [OF demo_custody_views(1), of "''op''" "''id''" "''n1''" 10 20] issued by (simp add: wp_def)
  with verified evidence_single_use [OF good_prepared [OF demo_custody_views(1)], of evidence "''id''" 15 s1 "[OpRotate]" _ evidence "''id''" 16]
  show ?thesis by (auto simp: well_formed_op_def)
qed

end
