(* ===== verification/Staged_Store.thy ===== *)
theory Staged_Store
  imports Copy_Coordinator Ownership_Authority
begin

text \<open>
  The content-addressed staging store and the capability over it
  (\<open>odoo_forge_postgres_docker/staged_store.py\<close>, \<open>staged_capability.py\<close>, port \<open>data_artifacts/staging.py\<close>). The
  world is the two directories of the store with their files, the files outside it, the outcomes of the
  coming changes of the file system (\<open>st_io\<close>) and of the coming reads (\<open>st_reads\<close>); when a list is used up,
  everything succeeds. The hash functions of
  \<open>hashlib\<close> and pydantic's \<open>model_dump_json\<close> are the parameters \<open>hash\<close> and \<open>dump\<close>. A file name stands for its
  path below its directory.
\<close>

section \<open>World\<close>

datatype store_exn = StagedCustody | StagedUnavailable | StagedIntegrity | StagedState | StagedValueError | StagedOSError

text \<open>A read works, or the file cannot be opened, or reading it fails.\<close>

datatype read_outcome = ReadOk | OpenFails | ReadFails

type_synonym files = "(string \<times> node) list"

record store_fs =
  st_uid :: nat
  st_parent_ok :: bool
  st_same_device :: bool
  st_root :: "node option"
  st_blobs_dir :: "node option"
  st_manifests_dir :: "node option"
  st_blobs :: files
  st_manifests :: files
  st_outside :: files
  st_io :: "bool list"
  st_reads :: "read_outcome list"

type_synonym 'a store_prog = "(store_fs, store_exn, 'a) prog"

definition store_private :: "node option \<Rightarrow> nat \<Rightarrow> bool \<Rightarrow> unit store_prog" where
  "store_private n mode directory = (\<lambda>s. (s, case validate_private_path (st_uid s) n mode directory of
     Inl _ \<Rightarrow> Inl StagedCustody | Inr u \<Rightarrow> Inr u))"

text \<open>Whether the next file operation succeeds.\<close>

definition io_succeeds :: "bool store_prog" where
  "io_succeeds = (\<lambda>s. (s\<lparr>st_io := tl (st_io s)\<rparr>, Inr (st_io s = [] \<or> hd (st_io s))))"

definition next_read :: "read_outcome store_prog" where
  "next_read = (\<lambda>s. (s\<lparr>st_reads := tl (st_reads s)\<rparr>, Inr (case st_reads s of [] \<Rightarrow> ReadOk | r # _ \<Rightarrow> r)))"

definition own_directory :: "store_fs \<Rightarrow> node" where
  "own_directory s = \<lparr>nd_kind = Directory, nd_uid = st_uid s, nd_mode = DIRECTORY_MODE\<rparr>"

definition store_ensure_root :: "unit store_prog" where
  "store_ensure_root =
     sthen (\<lambda>s. case st_root s of
          Some _ \<Rightarrow> (s, Inr ())
        | None \<Rightarrow> if st_parent_ok s then (s\<lparr>st_root := Some (own_directory s)\<rparr>, Inr ()) else (s, Inl StagedCustody))
     (sbind (gets st_root) (\<lambda>n. store_private n DIRECTORY_MODE True))"

definition make_directory :: "(store_fs \<Rightarrow> node option) \<Rightarrow> (node \<Rightarrow> store_fs \<Rightarrow> store_fs) \<Rightarrow> unit store_prog" where
  "make_directory get put =
     sbind (gets get) (\<lambda>n. case n of
       Some _ \<Rightarrow> ret ()
     | None \<Rightarrow> sbind io_succeeds (\<lambda>ok. if ok then modify (\<lambda>s. put (own_directory s) s) else raise_exn StagedCustody))"

definition ensure_blobs_dir :: "unit store_prog" where
  "ensure_blobs_dir =
     sthen store_ensure_root (sthen (make_directory st_blobs_dir (\<lambda>n s. s\<lparr>st_blobs_dir := Some n\<rparr>))
       (sbind (gets st_blobs_dir) (\<lambda>n. store_private n DIRECTORY_MODE True)))"

definition ensure_manifests_dir :: "unit store_prog" where
  "ensure_manifests_dir =
     sthen store_ensure_root (sthen (make_directory st_manifests_dir (\<lambda>n s. s\<lparr>st_manifests_dir := Some n\<rparr>))
       (sbind (gets st_manifests_dir) (\<lambda>n. store_private n DIRECTORY_MODE True)))"

section \<open>Names\<close>

definition HEX_TEXT :: rx where
  "HEX_TEXT = rseq [RCaret, rplus (RCls hex_char), RDollar]"

definition digest_key :: "artifact_digest \<Rightarrow> string \<times> string" where
  "digest_key d = (dg_algorithm d, py_lower (dg_value d))"

definition blob_name :: "artifact_digest \<Rightarrow> (store_exn, string) result" where
  "blob_name d =
     (if digest_length (dg_algorithm d) = None \<or> Some (length (dg_value d)) \<noteq> digest_length (dg_algorithm d)
         \<or> \<not> re_fullmatch HEX_TEXT (dg_value d)
      then Inl StagedCustody
      else Inr (dg_algorithm d @ ''-'' @ py_lower (dg_value d) @ ''.bin''))"

definition manifest_name :: "string \<Rightarrow> (store_exn, string) result" where
  "manifest_name ref =
     (case require_safe_opaque_identifier ref ''staged artifact reference'' of
        Inl _ \<Rightarrow> Inl StagedCustody
      | Inr safe_ref \<Rightarrow> Inr (safe_ref @ ''.json''))"

text \<open>\<open>Path.stem\<close> of a name that ends in \<open>.json\<close>.\<close>

definition json_stem :: "string \<Rightarrow> string" where
  "json_stem name = (if name = ''.json'' then name else removesuffix name ''.json'')"

section \<open>Manifests as JSON\<close>

definition digest_json :: "artifact_digest \<Rightarrow> json" where
  "digest_json d = JObj [(''algorithm'', JStr (dg_algorithm d)), (''value'', JStr (dg_value d))]"

definition kind_text :: "component_kind \<Rightarrow> string" where
  "kind_text k = (case k of DATABASE \<Rightarrow> ''database'' | FILESTORE \<Rightarrow> ''filestore'')"

definition component_json :: "restore_component \<Rightarrow> json" where
  "component_json c = JObj [(''kind'', JStr (kind_text (rc_kind c))), (''opaque_component_ref'', JStr (rc_ref c)),
     (''format_version'', JStr (rc_format_version c)), (''digest'', digest_json (rc_digest c))]"

definition restore_set_json :: "restore_manifest \<Rightarrow> json" where
  "restore_set_json m = JObj [(''restore_set_id'', JStr (rm_restore_set_id m)), (''lineage_id'', JStr (rm_lineage_id m)),
     (''components'', JArr (map component_json (rm_components m)))]"

text \<open>\<open>model_validate\<close>: exactly the fields of the model, of the right types, and the validators.\<close>

definition exact_fields :: "string list \<Rightarrow> dict \<Rightarrow> bool" where
  "exact_fields names kvs \<longleftrightarrow> set (map fst kvs) = set names"

definition digest_of_json :: "json \<Rightarrow> artifact_digest option" where
  "digest_of_json v = (case v of
     JObj kvs \<Rightarrow>
       (case (map_of kvs ''algorithm'', map_of kvs ''value'') of
          (Some (JStr a), Some (JStr x)) \<Rightarrow>
            if exact_fields [''algorithm'', ''value''] kvs
            then (case mk_digest a x of Inl _ \<Rightarrow> None | Inr d \<Rightarrow> Some d) else None
        | _ \<Rightarrow> None)
   | _ \<Rightarrow> None)"

definition kind_of_text :: "string \<Rightarrow> component_kind option" where
  "kind_of_text t = (if t = ''database'' then Some DATABASE else if t = ''filestore'' then Some FILESTORE else None)"

definition component_of_json :: "json \<Rightarrow> restore_component option" where
  "component_of_json v = (case v of
     JObj kvs \<Rightarrow>
       (case (map_of kvs ''kind'', map_of kvs ''opaque_component_ref'', map_of kvs ''format_version'', map_of kvs ''digest'') of
          (Some (JStr k), Some (JStr r), Some (JStr f), Some d) \<Rightarrow>
            if exact_fields [''kind'', ''opaque_component_ref'', ''format_version'', ''digest''] kvs
            then (case (kind_of_text k, digest_of_json d) of
               (Some kind, Some digest) \<Rightarrow> (case mk_component kind r f digest of Inl _ \<Rightarrow> None | Inr c \<Rightarrow> Some c)
             | _ \<Rightarrow> None) else None
        | _ \<Rightarrow> None)
   | _ \<Rightarrow> None)"

fun components_of_json :: "json list \<Rightarrow> restore_component list option" where
  "components_of_json [] = Some []"
| "components_of_json (v # vs) = (case (component_of_json v, components_of_json vs) of
     (Some c, Some cs) \<Rightarrow> Some (c # cs) | _ \<Rightarrow> None)"

definition manifest_of_json :: "json \<Rightarrow> restore_manifest option" where
  "manifest_of_json v = (case v of
     JObj kvs \<Rightarrow>
       (case (map_of kvs ''restore_set_id'', map_of kvs ''lineage_id'', map_of kvs ''components'') of
          (Some (JStr i), Some (JStr l), Some (JArr cs)) \<Rightarrow>
            if exact_fields [''restore_set_id'', ''lineage_id'', ''components''] kvs
            then (case components_of_json cs of
               None \<Rightarrow> None
             | Some components \<Rightarrow> (case mk_manifest i l components of Inl _ \<Rightarrow> None | Inr m \<Rightarrow> Some m)) else None
        | _ \<Rightarrow> None)
   | _ \<Rightarrow> None)"

section \<open>The store\<close>

definition private_regular :: "store_fs \<Rightarrow> string \<Rightarrow> node" where
  "private_regular s text = \<lparr>nd_kind = Regular text, nd_uid = st_uid s, nd_mode = FILE_MODE\<rparr>"

text \<open>The file name is taken by \<open>os.replace\<close>, which fails on a directory.\<close>

definition store_write_atomic :: "string \<Rightarrow> string \<Rightarrow> unit store_prog" where
  "store_write_atomic name payload =
     sbind io_succeeds (\<lambda>ok.
     sbind (gets (\<lambda>s. case map_of (st_manifests s) name of Some x \<Rightarrow> nd_kind x = Directory | None \<Rightarrow> False)) (\<lambda>blocked.
     if \<not> ok \<or> blocked then raise_exn StagedState
     else modify (\<lambda>s. s\<lparr>st_manifests := AList.update name (private_regular s payload) (st_manifests s)\<rparr>)))"

definition store_put :: "(restore_manifest \<Rightarrow> string) \<Rightarrow> string \<Rightarrow> restore_manifest \<Rightarrow> unit store_prog" where
  "store_put dump ref m =
     sthen ensure_manifests_dir
     (sbind (lift_result (manifest_name ref)) (\<lambda>name.
     store_write_atomic name (dump m)))"

definition open_private_file :: "node option \<Rightarrow> string store_prog" where
  "open_private_file n = (case n of
     None \<Rightarrow> raise_exn StagedUnavailable
   | Some x \<Rightarrow> sbind next_read (\<lambda>r.
       if r = OpenFails then raise_exn StagedCustody
       else sthen (store_private n FILE_MODE False)
         (case nd_kind x of
            Regular text \<Rightarrow> if r = ReadFails then raise_exn StagedState else ret text
          | _ \<Rightarrow> raise_exn StagedCustody)))"

definition store_resolve :: "string \<Rightarrow> restore_manifest store_prog" where
  "store_resolve ref =
     sbind (lift_result (manifest_name ref)) (\<lambda>name.
     sbind (gets (\<lambda>s. map_of (st_manifests s) name)) (\<lambda>n.
     sbind (open_private_file n) (\<lambda>text.
     case json_loads text of
       None \<Rightarrow> raise_exn StagedState
     | Some payload \<Rightarrow> lift_result (of_option StagedState (manifest_of_json payload)))))"

text \<open>Only its owner and root may change the mode of a file.\<close>

definition may_chmod :: "nat \<Rightarrow> store_fs \<Rightarrow> bool" where
  "may_chmod owner s \<longleftrightarrow> owner = st_uid s \<or> st_uid s = 0"

definition move_into_custody :: "string \<Rightarrow> string \<Rightarrow> unit store_prog" where
  "move_into_custody source name =
     sbind (gets (\<lambda>s. map_of (st_outside s) source)) (\<lambda>n. case n of
       None \<Rightarrow> raise_exn StagedCustody
     | Some x \<Rightarrow>
         if (case nd_kind x of Link _ \<Rightarrow> True | _ \<Rightarrow> False) then raise_exn StagedCustody
         else sbind io_succeeds (\<lambda>moved.
           if \<not> moved then raise_exn StagedCustody
           else sthen (modify (\<lambda>s. s\<lparr>st_outside := AList.delete source (st_outside s)\<rparr>))
             (sbind io_succeeds (\<lambda>placed.
             sbind (gets (\<lambda>s. may_chmod (if st_same_device s then nd_uid x else st_uid s) s)) (\<lambda>allowed.
             if \<not> placed \<or> \<not> allowed then raise_exn StagedCustody
             else sthen (modify (\<lambda>s. s\<lparr>st_blobs := AList.update name
                    \<lparr>nd_kind = nd_kind x, nd_uid = (if st_same_device s then nd_uid x else st_uid s), nd_mode = FILE_MODE\<rparr> (st_blobs s)\<rparr>))
               (sbind (gets (\<lambda>s. map_of (st_blobs s) name)) (\<lambda>b. store_private b FILE_MODE False)))))))"

definition stage :: "artifact_digest \<Rightarrow> string \<Rightarrow> unit store_prog" where
  "stage digest source =
     sbind (lift_result (blob_name digest)) (\<lambda>name.
     sthen ensure_blobs_dir
     (sbind (gets (\<lambda>s. map_of (st_blobs s) name)) (\<lambda>b.
     if path_exists b then
       sthen (store_private b FILE_MODE False)
       (sbind io_succeeds (\<lambda>ok. do_when ok (modify (\<lambda>s. s\<lparr>st_outside := AList.delete source (st_outside s)\<rparr>))))
     else move_into_custody source name)))"

definition hash_file :: "node option \<Rightarrow> string store_prog" where
  "hash_file b = (case b of
     None \<Rightarrow> raise_exn StagedUnavailable
   | Some x \<Rightarrow> sbind next_read (\<lambda>r.
       if r = OpenFails then raise_exn StagedCustody
       else sthen (store_private b FILE_MODE False)
         (case nd_kind x of
            Regular bytes \<Rightarrow> if r = ReadFails then raise_exn StagedUnavailable else ret bytes
          | _ \<Rightarrow> raise_exn StagedCustody)))"

text \<open>Opening a component gives the name of its blob; the bytes were hashed at that moment.\<close>

definition open_component :: "(string \<Rightarrow> string \<Rightarrow> string) \<Rightarrow> restore_component \<Rightarrow> string store_prog" where
  "open_component hash c =
     sbind (lift_result (blob_name (rc_digest c))) (\<lambda>name.
     sbind (gets (\<lambda>s. map_of (st_blobs s) name)) (\<lambda>b.
     if \<not> path_exists b then raise_exn StagedUnavailable
     else sthen (store_private b FILE_MODE False)
       (sbind (hash_file b) (\<lambda>bytes.
       if hash (dg_algorithm (rc_digest c)) bytes \<noteq> py_lower (dg_value (rc_digest c)) then raise_exn StagedIntegrity
       else ret name))))"

text \<open>The digests that the other manifests reference; a reference that is no artifact reference raises.\<close>

fun referenced_by :: "string \<Rightarrow> string list \<Rightarrow> (string \<times> string) list store_prog" where
  "referenced_by excluded [] = ret []"
| "referenced_by excluded (name # names) =
     (if json_stem name = excluded then referenced_by excluded names
      else case mk_ref (json_stem name) of
        Inl _ \<Rightarrow> raise_exn StagedValueError
      | Inr ref \<Rightarrow>
          sbind (try_catch (sbind (store_resolve ref) (\<lambda>m. ret (map (digest_key \<circ> rc_digest) (rm_components m)))) (\<lambda>_. ret []))
          (\<lambda>keys. sbind (referenced_by excluded names) (\<lambda>rest. ret (keys @ rest))))"

text \<open>\<open>glob\<close> passes over a directory it may not open; before Python 3.13 another error is raised.\<close>

definition referenced_digests_excluding :: "string \<Rightarrow> (string \<times> string) list store_prog" where
  "referenced_digests_excluding ref =
     sbind (gets (\<lambda>s. path_exists (st_manifests_dir s))) (\<lambda>present.
     if \<not> present then ret []
     else sbind next_read (\<lambda>r.
       if r = ReadFails then raise_exn StagedOSError
       else sbind (gets (\<lambda>s. if r = OpenFails then [] else filter (suffix ''.json'') (map fst (st_manifests s)))) (referenced_by ref)))"

definition is_dir :: "node option \<Rightarrow> bool" where
  "is_dir n = (case n of Some x \<Rightarrow> nd_kind x = Directory | None \<Rightarrow> False)"

text \<open>\<open>unlink(missing_ok=True)\<close>; the value says whether it succeeded.\<close>

definition unlink_blob :: "string \<Rightarrow> bool store_prog" where
  "unlink_blob name =
     sbind io_succeeds (\<lambda>ok.
     sbind (gets (\<lambda>s. is_dir (map_of (st_blobs s) name))) (\<lambda>dir.
     if ok \<and> \<not> dir then sthen (modify (\<lambda>s. s\<lparr>st_blobs := AList.delete name (st_blobs s)\<rparr>)) (ret True) else ret False))"

definition discard_outcome_of :: "string list \<Rightarrow> discard_outcome store_prog" where
  "discard_outcome_of residual =
     lift_result (case mk_discard (if residual = [] then COMPLETED else RESIDUAL_FAILURE) residual None of
       Inl _ \<Rightarrow> Inl StagedValueError | Inr d \<Rightarrow> Inr d)"

definition discard_manifest_file :: "string \<Rightarrow> string list \<Rightarrow> discard_outcome store_prog" where
  "discard_manifest_file ref residual =
     sbind (lift_result (manifest_name ref)) (\<lambda>name.
     sbind io_succeeds (\<lambda>ok.
     sbind (gets (\<lambda>s. is_dir (map_of (st_manifests s) name))) (\<lambda>dir.
     if ok \<and> \<not> dir
     then sthen (modify (\<lambda>s. s\<lparr>st_manifests := AList.delete name (st_manifests s)\<rparr>)) (discard_outcome_of residual)
     else discard_outcome_of (residual @ [ref]))))"

fun discard_blobs :: "(string \<times> string) list \<Rightarrow> restore_component list \<Rightarrow> string list store_prog" where
  "discard_blobs referenced [] = ret []"
| "discard_blobs referenced (c # cs) =
     (if digest_key (rc_digest c) \<in> set referenced then discard_blobs referenced cs
      else sbind (lift_result (blob_name (rc_digest c))) (\<lambda>name.
        sbind (unlink_blob name) (\<lambda>ok.
        sbind (discard_blobs referenced cs) (\<lambda>rest.
        ret (if ok then rest else rc_ref c # rest)))))"

definition store_discard :: "string \<Rightarrow> discard_outcome store_prog" where
  "store_discard ref =
     sbind (try_catch (sbind (store_resolve ref) (\<lambda>m. ret (Inr m)))
       (\<lambda>e. if e \<in> {StagedUnavailable, StagedState} then ret (Inl e) else raise_exn e)) (\<lambda>r.
     case r of
       Inl e \<Rightarrow> if e = StagedUnavailable then discard_outcome_of [] else discard_manifest_file ref []
     | Inr m \<Rightarrow>
         sbind (referenced_digests_excluding ref) (\<lambda>referenced.
         sbind (discard_blobs referenced (rm_components m)) (\<lambda>residual.
         discard_manifest_file ref residual)))"

section \<open>The capability\<close>

definition unready :: "failure_code \<Rightarrow> restore_readiness" where
  "unready code = \<lparr>rd_ready = False, rd_manifest = None, rd_failure_code = Some code, rd_redacted_detail = None\<rparr>"

definition ready_for :: "restore_manifest \<Rightarrow> restore_readiness" where
  "ready_for m = \<lparr>rd_ready = True, rd_manifest = Some m, rd_failure_code = None, rd_redacted_detail = None\<rparr>"

fun verify_components :: "(string \<Rightarrow> string \<Rightarrow> string) \<Rightarrow> restore_component list \<Rightarrow> failure_code option store_prog" where
  "verify_components hash [] = ret None"
| "verify_components hash (c # cs) =
     sbind (try_catch (sthen (open_component hash c) (ret None))
       (\<lambda>e. if e = StagedIntegrity then ret (Some INTEGRITY_FAILED)
            else if e \<in> {StagedUnavailable, StagedCustody} then ret (Some UNAVAILABLE) else raise_exn e)) (\<lambda>failure.
     case failure of Some code \<Rightarrow> ret (Some code) | None \<Rightarrow> verify_components hash cs)"

definition validate_for_restore :: "(string \<Rightarrow> string \<Rightarrow> string) \<Rightarrow> string \<Rightarrow> restore_readiness store_prog" where
  "validate_for_restore hash ref =
     sbind (try_catch (sbind (store_resolve ref) (\<lambda>m. ret (Some m)))
       (\<lambda>e. if e \<in> {StagedUnavailable, StagedState} then ret None else raise_exn e)) (\<lambda>m.
     case m of
       None \<Rightarrow> ret (unready UNAVAILABLE)
     | Some m \<Rightarrow>
         sbind (verify_components hash (filter (\<lambda>c. rc_kind c = DATABASE) (rm_components m))) (\<lambda>failure.
         case failure of
           Some code \<Rightarrow> ret (unready code)
         | None \<Rightarrow> ret (ready_for m)))"

end
