(* ===== verification/Staged_Safety.thy ===== *)
theory Staged_Safety
  imports Staged_Store
begin

text \<open>
  What the staging store guarantees: reading changes nothing, a discarded restore set takes nothing from the
  other ones as long as they can be read, and a restore set counts as ready exactly when the staged bytes have the
  recorded digest.
\<close>

section \<open>Reading\<close>

text \<open>The store when all coming reads work, and what reading gives then.\<close>

definition calm :: "store_fs \<Rightarrow> store_fs" where
  "calm s = s\<lparr>st_reads := []\<rparr>"

definition reads_ok :: "store_fs \<Rightarrow> bool" where
  "reads_ok s \<longleftrightarrow> list_all (\<lambda>r. r = ReadOk) (st_reads s)"

definition manifest_at :: "store_fs \<Rightarrow> string \<Rightarrow> (store_exn, restore_manifest) result" where
  "manifest_at s ref = snd (store_resolve ref (calm s))"

definition component_at :: "(string \<Rightarrow> string \<Rightarrow> string) \<Rightarrow> store_fs \<Rightarrow> restore_component \<Rightarrow> (store_exn, string) result" where
  "component_at hash s c = snd (open_component hash c (calm s))"

text \<open>The text of a private regular file.\<close>

definition private_text :: "nat \<Rightarrow> node option \<Rightarrow> (store_exn, string) result" where
  "private_text uid n = (case n of
     None \<Rightarrow> Inl StagedUnavailable
   | Some x \<Rightarrow> (case nd_kind x of
       Regular text \<Rightarrow> if nd_uid x = uid \<and> nd_mode x = FILE_MODE then Inr text else Inl StagedCustody
     | _ \<Rightarrow> Inl StagedCustody))"

text \<open>A read changes nothing but the list of coming reads.\<close>

definition reread :: "store_fs \<Rightarrow> store_fs \<Rightarrow> bool" where
  "reread s s' \<longleftrightarrow> calm s' = calm s \<and> (reads_ok s \<longrightarrow> reads_ok s')"

lemma reread_refl [simp]: "reread s s"
  by (simp add: reread_def)

lemma reread_trans: "reread s s' \<Longrightarrow> reread s' s'' \<Longrightarrow> reread s s''"
  by (simp add: reread_def)

lemma calm_eq: "calm s' = calm s \<Longrightarrow> st_uid s' = st_uid s \<and> st_blobs s' = st_blobs s \<and> st_manifests s' = st_manifests s \<and>
    st_manifests_dir s' = st_manifests_dir s"
  by (cases s; cases s') (simp add: calm_def)

lemma calm_calm [simp]: "calm (calm s) = calm s" "reads_ok (calm s)"
  by (simp_all add: calm_def reads_ok_def)

lemma calm_fields [simp]:
  "st_uid (calm s) = st_uid s" "st_blobs (calm s) = st_blobs s" "st_manifests (calm s) = st_manifests s"
  "st_manifests_dir (calm s) = st_manifests_dir s"
  by (simp_all add: calm_def)

lemma wp_io: "wp io_succeeds Q R s = Q (st_io s = [] \<or> hd (st_io s)) (s\<lparr>st_io := tl (st_io s)\<rparr>)"
  by (simp add: io_succeeds_def wp_def)

lemma wp_private:
  "wp (store_private n mode dir) Q R s =
    (if validate_private_path (st_uid s) n mode dir = Inr () then Q () s else R StagedCustody s)"
  by (simp add: store_private_def wp_def split: sum.split)

lemma wp_next_read: "wp next_read (\<lambda>r s'. reread s s' \<and> (reads_ok s \<longrightarrow> r = ReadOk)) (\<lambda>_ _. False) s"
  by (cases "st_reads s") (auto simp: next_read_def wp_def reread_def calm_def reads_ok_def)

lemma reread_uid: "reread s s' \<Longrightarrow> st_uid s' = st_uid s"
  using calm_eq [of s' s] by (simp add: reread_def)

lemma private_path_iff:
  "validate_private_path uid (Some x) FILE_MODE False = Inr () \<longleftrightarrow> is_regular (nd_kind x) \<and> nd_uid x = uid \<and> nd_mode x = FILE_MODE"
  by (auto simp: validate_private_path_def guard_def)

text \<open>What reading a file gives: its text if it is private, otherwise an exception; a failing read adds the
  exceptions in \<open>E\<close>.\<close>

definition reads_file :: "store_exn set \<Rightarrow> (node option \<Rightarrow> string store_prog) \<Rightarrow> bool" where
  "reads_file E f \<longleftrightarrow> (\<forall>n s. wp (f n) (\<lambda>text s'. reread s s' \<and> private_text (st_uid s) n = Inr text)
     (\<lambda>e s'. reread s s' \<and> e \<in> E \<and> (reads_ok s \<longrightarrow> private_text (st_uid s) n = Inl e)) s)"

lemma reads_file_intro:
  assumes "e \<in> E" "StagedCustody \<in> E" "StagedUnavailable \<in> E"
  shows "reads_file E (\<lambda>n. case n of
     None \<Rightarrow> raise_exn StagedUnavailable
   | Some x \<Rightarrow> sbind next_read (\<lambda>r.
       if r = OpenFails then raise_exn StagedCustody
       else sthen (store_private n FILE_MODE False)
         (case nd_kind x of Regular text \<Rightarrow> if r = ReadFails then raise_exn e else ret text | _ \<Rightarrow> raise_exn StagedCustody)))"
  unfolding reads_file_def
proof (intro allI)
  fix n s
  show "wp (case n of
       None \<Rightarrow> raise_exn StagedUnavailable
     | Some x \<Rightarrow> sbind next_read (\<lambda>r.
         if r = OpenFails then raise_exn StagedCustody
         else sthen (store_private n FILE_MODE False)
           (case nd_kind x of Regular text \<Rightarrow> if r = ReadFails then raise_exn e else ret text | _ \<Rightarrow> raise_exn StagedCustody)))
     (\<lambda>text s'. reread s s' \<and> private_text (st_uid s) n = Inr text)
     (\<lambda>e s'. reread s s' \<and> e \<in> E \<and> (reads_ok s \<longrightarrow> private_text (st_uid s) n = Inl e)) s"
  proof (cases n)
    case (Some x)
    show ?thesis unfolding Some option.case wp_bind
      by (rule wp_mono [OF wp_next_read])
        (use assms in \<open>auto simp: wp_if wp_raise wp_ret wp_then wp_private private_path_iff is_regular_def private_text_def reread_uid split: node_kind.split\<close>)
  qed (use assms in \<open>simp add: wp_raise private_text_def\<close>)
qed

lemma reads_files: "reads_file {StagedUnavailable, StagedCustody, StagedState} open_private_file" "reads_file {StagedUnavailable, StagedCustody} hash_file"
proof -
  show "reads_file {StagedUnavailable, StagedCustody, StagedState} open_private_file"
    using reads_file_intro [of StagedState "{StagedUnavailable, StagedCustody, StagedState}"] by (simp add: open_private_file_def [abs_def])
  show "reads_file {StagedUnavailable, StagedCustody} hash_file"
    using reads_file_intro [of StagedUnavailable "{StagedUnavailable, StagedCustody}"] by (simp add: hash_file_def [abs_def])
qed

lemma reads_fileD:
  "reads_file E f \<Longrightarrow> wp (f n) (\<lambda>text s'. reread s s' \<and> private_text (st_uid s) n = Inr text)
     (\<lambda>e s'. reread s s' \<and> e \<in> E \<and> (reads_ok s \<longrightarrow> private_text (st_uid s) n = Inl e)) s"
  by (simp add: reads_file_def)

text \<open>Manifests and components as functions of the files.\<close>

definition manifest_view :: "store_fs \<Rightarrow> string \<Rightarrow> (store_exn, restore_manifest) result" where
  "manifest_view s ref = rbind (manifest_name ref) (\<lambda>name.
     rbind (private_text (st_uid s) (map_of (st_manifests s) name)) (\<lambda>text.
     of_option StagedState (Option.bind (json_loads text) manifest_of_json)))"

definition component_view :: "(string \<Rightarrow> string \<Rightarrow> string) \<Rightarrow> store_fs \<Rightarrow> restore_component \<Rightarrow> (store_exn, string) result" where
  "component_view hash s c = rbind (blob_name (rc_digest c)) (\<lambda>name.
     if \<not> path_exists (map_of (st_blobs s) name) then Inl StagedUnavailable
     else rbind (private_text (st_uid s) (map_of (st_blobs s) name)) (\<lambda>bytes.
       if hash (dg_algorithm (rc_digest c)) bytes \<noteq> py_lower (dg_value (rc_digest c)) then Inl StagedIntegrity else Inr name))"

lemma wp_resolve_view:
  "wp (store_resolve ref) (\<lambda>m s'. reread s s' \<and> manifest_view s ref = Inr m)
     (\<lambda>e s'. reread s s' \<and> e \<in> {StagedUnavailable, StagedCustody, StagedState} \<and> (reads_ok s \<longrightarrow> manifest_view s ref = Inl e)) s"
proof (cases "manifest_name ref")
  case (Inl e)
  then have "e = StagedCustody" by (auto simp: manifest_name_def split: sum.splits)
  with Inl show ?thesis by (simp add: store_resolve_def wp_rules manifest_view_def)
next
  case (Inr name)
  show ?thesis unfolding store_resolve_def wp_bind wp_lift Inr sum.case wp_gets
    by (rule wp_mono [OF reads_fileD [OF reads_files(1)]])
      (auto simp: wp_option wp_raise wp_lift manifest_view_def Inr of_option_def split: option.split sum.split)
qed

lemma wp_component_view:
  "wp (open_component hash c) (\<lambda>x s'. reread s s' \<and> component_view hash s c = Inr x)
     (\<lambda>e s'. reread s s' \<and> e \<in> {StagedIntegrity, StagedUnavailable, StagedCustody} \<and> (reads_ok s \<longrightarrow> component_view hash s c = Inl e)) s"
proof (cases "blob_name (rc_digest c)")
  case (Inl e)
  then have "e = StagedCustody" by (auto simp: blob_name_def split: if_splits)
  with Inl show ?thesis by (simp add: open_component_def wp_rules component_view_def)
next
  case (Inr name)
  let ?b = "map_of (st_blobs s) name"
  show ?thesis
  proof (cases "path_exists ?b \<and> validate_private_path (st_uid s) ?b FILE_MODE False = Inr ()")
    case True
    then show ?thesis unfolding open_component_def wp_bind wp_lift Inr sum.case wp_gets wp_if wp_then wp_private
      by simp (rule wp_mono [OF reads_fileD [OF reads_files(2)]],
        auto simp: wp_raise wp_ret component_view_def Inr)
  next
    case False
    then have "private_text (st_uid s) ?b = Inl StagedCustody" if "path_exists ?b"
      using that by (cases ?b) (auto simp: private_text_def path_exists_def private_path_iff is_regular_def split: node_kind.splits)
    with False show ?thesis
      by (auto simp: open_component_def wp_bind wp_lift Inr wp_gets wp_raise wp_then wp_private component_view_def)
  qed
qed

lemma calm_views: "manifest_view (calm s) ref = manifest_view s ref" "component_view hash (calm s) c = component_view hash s c"
  unfolding manifest_view_def component_view_def calm_fields by (rule refl)+

lemma manifest_at_eq: "manifest_at s ref = manifest_view s ref"
  using wp_resolve_view [of ref "calm s"] by (auto simp: manifest_at_def wp_def calm_views split: prod.splits sum.splits)

lemma component_at_eq: "component_at hash s c = component_view hash s c"
  using wp_component_view [of hash c "calm s"] by (auto simp: component_at_def wp_def calm_views split: prod.splits sum.splits)

lemmas wp_resolve = wp_resolve_view [folded manifest_at_eq]
lemmas wp_open_component = wp_component_view [folded component_at_eq]

lemma reread_views: "reread s s' \<Longrightarrow> manifest_at s' ref = manifest_at s ref" "reread s s' \<Longrightarrow> component_at hash s' c = component_at hash s c"
  by (simp_all add: reread_def manifest_at_def component_at_def)

section \<open>Names\<close>

lemma blob_name_Inr:
  "blob_name d = Inr name \<Longrightarrow> dg_algorithm d \<in> {''sha256'', ''sha512''} \<and> name = dg_algorithm d @ ''-'' @ py_lower (dg_value d) @ ''.bin''"
  by (auto simp: blob_name_def digest_length_def split: if_splits)

lemma blob_name_inject: "blob_name d = Inr name \<Longrightarrow> blob_name d' = Inr name \<Longrightarrow> digest_key d = digest_key d'"
  using blob_name_Inr [of d name] blob_name_Inr [of d' name] by (auto simp: digest_key_def)

lemma manifest_name_Inr: "manifest_name ref = Inr name \<Longrightarrow> opaque_ok ref \<and> name = ref @ ''.json''"
  by (auto simp: manifest_name_def require_safe_opaque_identifier_def split: if_splits)

lemma removesuffix_append: "x \<noteq> [] \<Longrightarrow> removesuffix (s @ x) x = s"
  by (simp add: removesuffix_def suffix_def)

lemma json_stem_name: "ref \<noteq> [] \<Longrightarrow> json_stem (ref @ ''.json'') = ref"
  by (simp add: json_stem_def removesuffix_append)

section \<open>Discarding\<close>

definition keys_of :: "restore_manifest \<Rightarrow> (string \<times> string) set" where
  "keys_of m = (digest_key \<circ> rc_digest) ` set (rm_components m)"

lemma wp_manifest_keys:
  "wp (try_catch (sbind (store_resolve ref) (\<lambda>m. ret (map (digest_key \<circ> rc_digest) (rm_components m)))) (\<lambda>_. ret []))
     (\<lambda>keys s'. reread s s' \<and> (reads_ok s \<longrightarrow> (\<forall>m. manifest_at s ref = Inr m \<longrightarrow> keys_of m \<subseteq> set keys))) (\<lambda>_ _. False) s"
  unfolding wp_try wp_bind wp_ret by (rule wp_mono [OF wp_resolve]) (auto simp: keys_of_def)

lemma wp_referenced_by:
  "wp (referenced_by excluded names)
     (\<lambda>keys s'. reread s s' \<and> (reads_ok s \<longrightarrow> (\<forall>name \<in> set names. json_stem name \<noteq> excluded \<longrightarrow>
        (\<forall>m. manifest_at s (json_stem name) = Inr m \<longrightarrow> keys_of m \<subseteq> set keys))))
     (\<lambda>_ s'. reread s s') s"
proof (induction names arbitrary: s)
  case (Cons name names)
  show ?case
  proof (cases "json_stem name = excluded")
    case True
    then show ?thesis using Cons.IH [of s] by simp
  next
    case False
    show ?thesis
    proof (cases "mk_ref (json_stem name)")
      case (Inr ref)
      then have ref: "ref = json_stem name"
        by (auto simp: mk_ref_def require_safe_opaque_identifier_def split: if_splits)
      show ?thesis unfolding referenced_by.simps if_not_P [OF False] Inr sum.case wp_bind [of "try_catch _ _"]
      proof (rule wp_mono [OF wp_manifest_keys], goal_cases)
        case (1 keys s')
        then have s': "reread s s'" and keys: "reads_ok s \<longrightarrow> (\<forall>m. manifest_at s ref = Inr m \<longrightarrow> keys_of m \<subseteq> set keys)" by simp_all
        have ok: "reads_ok s \<Longrightarrow> reads_ok s'" using s' by (simp add: reread_def)
        show ?case unfolding wp_bind wp_ret
        proof (rule wp_mono [OF Cons.IH [of s']], goal_cases)
          case (1 rest s'')
          then have tail: "reread s s''" "reads_ok s \<longrightarrow> (\<forall>name \<in> set names. json_stem name \<noteq> excluded \<longrightarrow>
              (\<forall>m. manifest_at s (json_stem name) = Inr m \<longrightarrow> keys_of m \<subseteq> set rest))"
            using ok reread_trans [OF s'] reread_views(1) [OF s'] by simp_all
          have "keys_of m \<subseteq> set (keys @ rest)" if "reads_ok s" "n \<in> set (name # names)" "json_stem n \<noteq> excluded" "manifest_at s (json_stem n) = Inr m" for n m
            using that keys tail(2) unfolding ref by (cases "n = name") (simp_all, blast+)
          with tail(1) show ?case by blast
        qed (use reread_trans [OF s'] in blast)
      qed simp
    qed (simp add: False wp_rules)
  qed
qed (simp add: wp_rules)

text \<open>What discarding \<open>ref\<close> may change when the digests in \<open>K\<close> are still referenced.\<close>

definition spares :: "(string \<times> string) set \<Rightarrow> string \<Rightarrow> store_fs \<Rightarrow> store_fs \<Rightarrow> bool" where
  "spares K ref s s' \<longleftrightarrow> st_uid s' = st_uid s \<and>
     (\<forall>name. name \<noteq> ref @ ''.json'' \<longrightarrow> map_of (st_manifests s') name = map_of (st_manifests s) name) \<and>
     (\<forall>d name. digest_key d \<in> K \<longrightarrow> blob_name d = Inr name \<longrightarrow> map_of (st_blobs s') name = map_of (st_blobs s) name)"

lemma spares_reread: "reread s s' \<Longrightarrow> spares K ref s s'"
  using calm_eq [of s' s] by (simp add: reread_def spares_def)

lemma spares_trans: "spares K ref s s' \<Longrightarrow> spares K ref s' s'' \<Longrightarrow> spares K ref s s''"
  by (auto simp: spares_def)

lemma spares_manifest:
  assumes "spares K ref s s'" "other \<noteq> ref" shows "manifest_at s' other = manifest_at s other"
proof (cases "manifest_name other")
  case (Inr name)
  then have "name \<noteq> ref @ ''.json''" using assms(2) manifest_name_Inr [OF Inr] by auto
  with assms(1) have "map_of (st_manifests s') name = map_of (st_manifests s) name" "st_uid s' = st_uid s" by (simp_all add: spares_def)
  then show ?thesis using Inr by (simp add: manifest_at_eq manifest_view_def)
qed (simp add: manifest_at_eq manifest_view_def)

lemma spares_component:
  assumes "spares K ref s s'" "digest_key (rc_digest c) \<in> K"
  shows "component_at hash s' c = component_at hash s c"
proof (cases "blob_name (rc_digest c)")
  case (Inr name)
  with assms have "map_of (st_blobs s') name = map_of (st_blobs s) name" "st_uid s' = st_uid s" by (auto simp: spares_def)
  then show ?thesis using Inr by (simp add: component_at_eq component_view_def)
qed (simp add: component_at_eq component_view_def)

lemma wp_unlink_blob:
  assumes "blob_name d = Inr name" "digest_key d \<notin> K"
  shows "wp (unlink_blob name) (\<lambda>_ s'. spares K ref s s') (\<lambda>_ s'. False) s"
proof -
  have "name' \<noteq> name" if "digest_key d' \<in> K" "blob_name d' = Inr name'" for d' name'
    using that assms blob_name_inject by metis
  then have "spares K ref s (s\<lparr>st_io := x, st_blobs := AList.delete name (st_blobs s)\<rparr>)" "spares K ref s (s\<lparr>st_io := x\<rparr>)" for x
    by (auto simp: spares_def delete_conv')
  then show ?thesis by (simp add: unlink_blob_def wp_rules wp_io)
qed

lemma wp_discard_blobs:
  "wp (discard_blobs referenced cs) (\<lambda>_ s'. spares (set referenced) ref s s') (\<lambda>_ s'. spares (set referenced) ref s s') s"
proof (induction cs arbitrary: s)
  case (Cons c cs)
  show ?case
  proof (cases "digest_key (rc_digest c) \<in> set referenced")
    case True
    then show ?thesis using Cons.IH by simp
  next
    case False
    show ?thesis
    proof (cases "blob_name (rc_digest c)")
      case (Inr name)
      note unlink = wp_unlink_blob [OF Inr False, of ref s]
      show ?thesis unfolding discard_blobs.simps if_not_P [OF False] wp_bind wp_lift Inr sum.case
      proof (rule wp_mono [OF unlink], goal_cases)
        case (1 ok s')
        show ?case by (rule wp_mono [OF Cons.IH]) (auto simp: wp_ret intro: spares_trans [OF 1])
      qed simp
    qed (simp add: False wp_rules spares_reread)
  qed
qed (simp add: wp_rules spares_reread)

lemma wp_discard_outcome: "wp (discard_outcome_of residual) (\<lambda>_ s'. s' = s) (\<lambda>_ s'. s' = s) s"
  by (simp add: discard_outcome_of_def wp_rules split: sum.split)

lemma wp_discard_manifest: "wp (discard_manifest_file ref residual) (\<lambda>_ s'. spares K ref s s') (\<lambda>_ s'. spares K ref s s') s"
proof (cases "manifest_name ref")
  case (Inr name)
  have "spares K ref s (s\<lparr>st_io := x, st_manifests := AList.delete name (st_manifests s)\<rparr>)" "spares K ref s (s\<lparr>st_io := x\<rparr>)" for x
    using manifest_name_Inr [OF Inr] by (auto simp: spares_def delete_conv')
  then show ?thesis
    by (auto simp: discard_manifest_file_def wp_rules wp_io Inr intro!: wp_mono [OF wp_discard_outcome])
qed (simp add: discard_manifest_file_def wp_rules spares_reread)

lemma listed_manifest:
  assumes "manifest_at s other = Inr m"
  shows "other @ ''.json'' \<in> set (filter (suffix ''.json'') (map fst (st_manifests s)))" "json_stem (other @ ''.json'') = other"
proof -
  from assms obtain name where name: "manifest_name other = Inr name" "map_of (st_manifests s) name \<noteq> None"
    by (auto simp: manifest_at_eq manifest_view_def result_iff private_text_def split: option.splits)
  note n = manifest_name_Inr [OF name(1)]
  have "name \<in> fst ` set (st_manifests s)" using name(2) by (simp add: map_of_eq_None_iff)
  with n show "other @ ''.json'' \<in> set (filter (suffix ''.json'') (map fst (st_manifests s)))" by (simp add: suffix_def)
  show "json_stem (other @ ''.json'') = other" using n by (intro json_stem_name) (auto simp: opaque_ok_def)
qed

lemma wp_references:
  assumes other: "manifest_at s other = Inr m" "other \<noteq> ref" and dir: "path_exists (st_manifests_dir s)" and reads: "reads_ok s"
  shows "wp (referenced_digests_excluding ref) (\<lambda>keys s'. reread s s' \<and> keys_of m \<subseteq> set keys) (\<lambda>_ s'. reread s s') s"
proof -
  have "wp (sbind next_read (\<lambda>r. if r = ReadFails then raise_exn StagedOSError
      else sbind (gets (\<lambda>s. if r = OpenFails then [] else filter (suffix ''.json'') (map fst (st_manifests s)))) (referenced_by ref)))
      (\<lambda>keys s'. reread s s' \<and> keys_of m \<subseteq> set keys) (\<lambda>_ s'. reread s s') s"
    unfolding wp_bind [of next_read]
  proof (rule wp_mono [OF wp_next_read], goal_cases)
    case (1 r s')
    then have s': "reread s s'" and r: "r = ReadOk" using reads by simp_all
    have same: "manifest_at s' other = Inr m" "reads_ok s'" using s' other(1) reads reread_views(1) [OF s'] by (simp_all add: reread_def)
    have "wp (referenced_by ref (filter (suffix ''.json'') (map fst (st_manifests s'))))
        (\<lambda>keys s''. reread s' s'' \<and> keys_of m \<subseteq> set keys) (\<lambda>_ s''. reread s' s'') s'"
    proof (rule wp_mono [OF wp_referenced_by], goal_cases)
      case (1 keys s'')
      with listed_manifest [OF same(1)] same other(2) show ?case by fastforce
    qed
    then show ?case unfolding r by (simp add: wp_bind wp_gets) (erule wp_mono; blast intro: reread_trans [OF s'])
  qed simp
  then show ?thesis using dir by (simp add: referenced_digests_excluding_def wp_bind [of "gets _"] wp_gets)
qed

lemma wp_discard:
  assumes other: "manifest_at s other = Inr m" "other \<noteq> ref" and dir: "path_exists (st_manifests_dir s)" and reads: "reads_ok s"
  shows "wp (store_discard ref) (\<lambda>_ s'. spares (keys_of m) ref s s') (\<lambda>_ s'. spares (keys_of m) ref s s') s"
proof -
  let ?K = "keys_of m" and ?P = "\<lambda>_ s'. spares (keys_of m) ref s s'"
  have tidy: "wp (discard_manifest_file ref residual) ?P ?P s'" "wp (discard_outcome_of residual) ?P ?P s'" if "spares ?K ref s s'" for residual s'
    using that by (auto intro: wp_mono [OF wp_discard_manifest [where K = ?K]] wp_mono [OF wp_discard_outcome] spares_trans)
  have remove: "wp (sbind (referenced_digests_excluding ref) (\<lambda>referenced. sbind (discard_blobs referenced cs) (discard_manifest_file ref))) ?P ?P s'"
    if s': "reread s s'" for cs s'
  proof -
    have "manifest_at s' other = Inr m" "path_exists (st_manifests_dir s')" "reads_ok s'"
      using s' other(1) dir reads reread_views(1) [OF s'] calm_eq [of s' s] by (simp_all add: reread_def)
    note refs = wp_references [OF this(1) other(2) this(2,3)]
    show ?thesis unfolding wp_bind [of "referenced_digests_excluding ref"]
    proof (rule wp_mono [OF refs], goal_cases)
      case (1 keys s'')
      then have start: "spares ?K ref s s''" and keys: "spares (set keys) ref a b \<Longrightarrow> spares ?K ref a b" for a b
        using spares_reread [OF reread_trans [OF s']] by (auto simp: spares_def)
      show ?case unfolding wp_bind
        by (rule wp_mono [OF wp_discard_blobs [where ref = ref]]) (blast intro: tidy spares_trans [OF start] keys)+
    qed (blast intro: spares_reread reread_trans [OF s'])
  qed
  show ?thesis unfolding store_discard_def wp_bind [of "try_catch _ _"] wp_try wp_bind [of "store_resolve ref"] wp_ret
  proof (rule wp_mono [OF wp_resolve], goal_cases)
    case (1 mine s')
    then show ?case using remove by simp
  next
    case (2 e s')
    then show ?case using tidy [OF spares_reread] spares_reread by (auto simp: wp_ret wp_raise)
  qed
qed

text \<open>
  C17: discarding a restore set never takes anything from another one that can be read: when no read fails, then
  whichever removal fails on the way, a manifest that resolves under another reference still resolves to the
  same restore set, and opening its components gives what it gave before, although blobs are shared between restore
  sets.
\<close>

theorem discard_spares_others:
  assumes "manifest_at s other = Inr m" "other \<noteq> ref" "path_exists (st_manifests_dir s)" "reads_ok s" and "s' = fst (store_discard ref s)"
  shows "manifest_at s' other = Inr m \<and> (\<forall>c \<in> set (rm_components m). component_at hash s' c = component_at hash s c)"
proof -
  have "spares (keys_of m) ref s s'"
    using wp_discard [OF assms(1-4)] assms(5) by (auto simp: wp_def split: prod.splits sum.splits)
  then show ?thesis
    using spares_manifest [of "keys_of m" ref s s' other] spares_component [of "keys_of m" ref s s'] assms(1,2)
    by (auto simp: keys_of_def)
qed

section \<open>Readiness\<close>

definition intact :: "(string \<Rightarrow> string \<Rightarrow> string) \<Rightarrow> store_fs \<Rightarrow> restore_component \<Rightarrow> bool" where
  "intact hash s c \<longleftrightarrow> (\<exists>name bytes. blob_name (rc_digest c) = Inr name \<and> map_of (st_blobs s) name = Some (private_regular s bytes) \<and>
     hash (dg_algorithm (rc_digest c)) bytes = py_lower (dg_value (rc_digest c)))"

lemma private_text_Inr: "private_text (st_uid s) n = Inr text \<longleftrightarrow> n = Some (private_regular s text)"
  by (cases n) (auto simp: private_text_def private_regular_def split: node_kind.splits)

lemma component_at_intact: "(\<exists>name. component_at hash s c = Inr name) \<longleftrightarrow> intact hash s c"
proof -
  have "path_exists (Some (private_regular s bytes))" for bytes by (simp add: path_exists_def private_regular_def)
  then show ?thesis
    by (cases "blob_name (rc_digest c)")
      (auto simp: component_at_eq component_view_def intact_def result_iff private_text_Inr)
qed

lemma reread_intact: "reread s s' \<Longrightarrow> intact hash s' c = intact hash s c"
  using reread_views(2) by (simp flip: component_at_intact)

lemma wp_verify_components:
  "wp (verify_components hash cs) (\<lambda>r s'. reread s s' \<and> (r = None \<longrightarrow> (\<forall>c \<in> set cs. intact hash s c)) \<and>
     (reads_ok s \<longrightarrow> (\<forall>c \<in> set cs. intact hash s c) \<longrightarrow> r = None)) (\<lambda>_ _. False) s"
proof (induction cs arbitrary: s)
  case (Cons c cs)
  show ?case unfolding verify_components.simps wp_bind [of "try_catch _ _"] wp_try wp_then wp_ret
  proof (rule wp_mono [OF wp_open_component], goal_cases)
    case (1 name s')
    then have s': "reread s s'" "intact hash s c" using component_at_intact [of hash s c] by auto
    have ok: "reads_ok s \<Longrightarrow> reads_ok s'" using s'(1) by (simp add: reread_def)
    show ?case unfolding option.case
      by (rule wp_mono [OF Cons.IH [of s']]) (use s' ok reread_trans [OF s'(1)] reread_intact [OF s'(1)] in \<open>auto\<close>)
  next
    case (2 e s')
    then have "reads_ok s \<Longrightarrow> \<not> intact hash s c" using component_at_intact [of hash s c] by auto
    with 2 show ?case by (auto simp: wp_ret wp_raise)
  qed
qed (simp add: wp_rules)

text \<open>The manifest resolves and the database it describes is intact.\<close>

definition restorable :: "(string \<Rightarrow> string \<Rightarrow> string) \<Rightarrow> store_fs \<Rightarrow> string \<Rightarrow> restore_manifest \<Rightarrow> bool" where
  "restorable hash s ref m \<longleftrightarrow> manifest_at s ref = Inr m \<and> (\<forall>c \<in> set (rm_components m). rc_kind c = DATABASE \<longrightarrow> intact hash s c)"

lemma wp_validate_for_restore:
  "wp (validate_for_restore hash ref)
     (\<lambda>r s'. reread s s' \<and>
        (\<forall>m. r = ready_for m \<longrightarrow> restorable hash s ref m) \<and>
        (\<forall>m. reads_ok s \<longrightarrow> restorable hash s ref m \<longrightarrow> r = ready_for m))
     (\<lambda>e s'. reread s s' \<and> e = StagedCustody \<and> (reads_ok s \<longrightarrow> manifest_at s ref = Inl e)) s"
  unfolding validate_for_restore_def wp_bind [of "try_catch _ _"] wp_try wp_bind [of "store_resolve ref"] wp_ret
proof (rule wp_mono [OF wp_resolve], goal_cases)
  case (1 m s')
  then have s': "reread s s'" and m: "manifest_at s ref = Inr m" by simp_all
  have ok: "reads_ok s \<Longrightarrow> reads_ok s'" using s' by (simp add: reread_def)
  show ?case unfolding option.case wp_bind
    by (rule wp_mono [OF wp_verify_components])
      (use m ok reread_trans [OF s'] reread_intact [OF s'] in \<open>auto simp: restorable_def wp_ret unready_def ready_for_def split: option.splits\<close>)
next
  case (2 e s')
  then show ?case by (auto simp: restorable_def wp_ret wp_raise unready_def ready_for_def)
qed

text \<open>
  C24: a restore set is reported as ready only when its manifest resolves and the staged file of its database
  component is private and hashes to the recorded digest, and always then unless a read fails; reporting changes
  no file, and the only exception it lets through is the one of a manifest outside private custody.
\<close>

theorem ready_iff_intact:
  "(case validate_for_restore hash ref s of
      (s', Inr r) \<Rightarrow> calm s' = calm s \<and>
        (\<forall>m. r = ready_for m \<longrightarrow> restorable hash s ref m) \<and>
        (reads_ok s \<longrightarrow> (\<forall>m. r = ready_for m \<longleftrightarrow>
           restorable hash s ref m))
    | (s', Inl e) \<Rightarrow> calm s' = calm s \<and> e = StagedCustody \<and> (reads_ok s \<longrightarrow> manifest_at s ref = Inl e))"
proof -
  obtain s' out where run: "validate_for_restore hash ref s = (s', out)" by fastforce
  note wp_validate_for_restore [of hash ref s, unfolded wp_def run prod.case]
  then show ?thesis unfolding run prod.case reread_def by (cases out) (simp_all only: sum.case, blast+)
qed

section \<open>Staging a restore set\<close>

definition faithful_dump :: "(restore_manifest \<Rightarrow> string) \<Rightarrow> bool" where
  "faithful_dump dump \<longleftrightarrow> (\<forall>m. json_loads (dump m) = Some (restore_set_json m))"

definition manifest_ok :: "restore_manifest \<Rightarrow> bool" where
  "manifest_ok m \<longleftrightarrow> mk_manifest (rm_restore_set_id m) (rm_lineage_id m) (rm_components m) = Inr m \<and>
     list_all (\<lambda>c. mk_component (rc_kind c) (rc_ref c) (rc_format_version c) (rc_digest c) = Inr c \<and>
       mk_digest (dg_algorithm (rc_digest c)) (dg_value (rc_digest c)) = Inr (rc_digest c)) (rm_components m)"

lemma kind_roundtrip: "kind_of_text (kind_text k) = Some k"
  by (cases k) (simp_all add: kind_of_text_def kind_text_def)

lemma digest_roundtrip: "mk_digest (dg_algorithm d) (dg_value d) = Inr d \<Longrightarrow> digest_of_json (digest_json d) = Some d"
  by (simp add: digest_of_json_def digest_json_def exact_fields_def)

lemma component_roundtrip:
  assumes "mk_component (rc_kind c) (rc_ref c) (rc_format_version c) (rc_digest c) = Inr c"
    "mk_digest (dg_algorithm (rc_digest c)) (dg_value (rc_digest c)) = Inr (rc_digest c)"
  shows "component_of_json (component_json c) = Some c"
  using assms by (simp add: component_of_json_def component_json_def exact_fields_def kind_roundtrip digest_roundtrip)

lemma components_roundtrip:
  "list_all (\<lambda>c. component_of_json (component_json c) = Some c) cs \<Longrightarrow> components_of_json (map component_json cs) = Some cs"
  by (induction cs) simp_all

lemma manifest_roundtrip:
  assumes "manifest_ok m" shows "manifest_of_json (restore_set_json m) = Some m"
proof -
  have "list_all (\<lambda>c. component_of_json (component_json c) = Some c) (rm_components m)"
    using assms by (auto simp: manifest_ok_def list_all_iff intro!: component_roundtrip)
  with assms show ?thesis
    by (simp add: manifest_of_json_def restore_set_json_def exact_fields_def manifest_ok_def components_roundtrip)
qed

lemma manifest_at_dumped:
  assumes "manifest_name ref = Inr name" "map_of (st_manifests s) name = Some (private_regular s (dump m))" "faithful_dump dump" "manifest_ok m"
  shows "manifest_at s ref = Inr m"
proof -
  have "private_text (st_uid s) (map_of (st_manifests s) name) = Inr (dump m)" unfolding private_text_Inr by (rule assms(2))
  then show ?thesis using assms(1,3) manifest_roundtrip [OF assms(4)] by (simp add: manifest_at_eq manifest_view_def faithful_dump_def)
qed

text \<open>What the bookkeeping of directories leaves alone.\<close>

definition same_files :: "store_fs \<Rightarrow> store_fs \<Rightarrow> bool" where
  "same_files s s' \<longleftrightarrow> st_uid s' = st_uid s \<and> st_blobs s' = st_blobs s \<and> st_manifests s' = st_manifests s \<and> st_outside s' = st_outside s"

lemma wp_ensure_dirs:
  "wp ensure_blobs_dir (\<lambda>_. same_files s) (\<lambda>_. same_files s) s" "wp ensure_manifests_dir (\<lambda>_. same_files s) (\<lambda>_. same_files s) s"
  by (auto simp: ensure_blobs_dir_def ensure_manifests_dir_def store_ensure_root_def make_directory_def store_private_def
      io_succeeds_def same_files_def wp_def sthen_def sbind_def gets_def modify_def ret_def raise_exn_def
      split: option.splits sum.splits if_splits prod.splits)

text \<open>Bytes that are staged, or were staged before under the same digest, with that digest.\<close>

definition no_corrupt_blob :: "(string \<Rightarrow> string \<Rightarrow> string) \<Rightarrow> artifact_digest \<Rightarrow> node option \<Rightarrow> bool" where
  "no_corrupt_blob hash d b \<longleftrightarrow> path_exists b \<longrightarrow>
     (\<forall>x bytes. b = Some x \<longrightarrow> nd_kind x = Regular bytes \<longrightarrow> hash (dg_algorithm d) bytes = py_lower (dg_value d))"

lemma blob_of_private: "validate_private_path (st_uid s) b FILE_MODE False = Inr () \<Longrightarrow> \<exists>bytes. b = Some (private_regular s bytes)"
  using private_text_Inr [of s b] by (cases b)
    (auto simp: validate_private_path_def private_path_iff is_regular_def private_text_def guard_def split: node_kind.splits if_splits)

lemma wp_stage:
  assumes name: "blob_name d = Inr name" and blob: "no_corrupt_blob hash d (map_of (st_blobs s) name)"
    and source: "map_of (st_outside s) source = Some x" "nd_kind x = Regular bytes" "hash (dg_algorithm d) bytes = py_lower (dg_value d)"
  shows "wp (stage d source) (\<lambda>_ s'. st_uid s' = st_uid s \<and> st_manifests s' = st_manifests s \<and>
      (\<exists>bytes. map_of (st_blobs s') name = Some (private_regular s bytes) \<and> hash (dg_algorithm d) bytes = py_lower (dg_value d))) (\<lambda>_ _. True) s"
  unfolding stage_def wp_bind wp_lift name sum.case wp_then
proof (rule wp_mono [OF wp_ensure_dirs(1)], goal_cases)
  case (1 u s')
  then have s': "st_uid s' = st_uid s" "st_blobs s' = st_blobs s" "st_manifests s' = st_manifests s" "map_of (st_outside s') source = Some x"
    using source(1) by (simp_all add: same_files_def)
  have fresh: "wp (move_into_custody source name) (\<lambda>_ s''. st_uid s'' = st_uid s \<and> st_manifests s'' = st_manifests s \<and>
      map_of (st_blobs s'') name = Some (private_regular s bytes)) (\<lambda>_ _. True) s'"
    using s' source(2)
    by (auto simp: move_into_custody_def wp_rules wp_io wp_private dict_simps validate_private_path_def result_iff private_regular_def)
  have kept: "\<exists>bytes. map_of (st_blobs s) name = Some (private_regular s bytes) \<and> hash (dg_algorithm d) bytes = py_lower (dg_value d)"
    if "validate_private_path (st_uid s) (map_of (st_blobs s) name) FILE_MODE False = Inr ()" "path_exists (map_of (st_blobs s) name)"
    using blob_of_private [OF that(1)] blob that(2) by (auto simp: no_corrupt_blob_def private_regular_def)
  show ?case
  proof (cases "path_exists (map_of (st_blobs s) name)")
    case True
    with kept s' show ?thesis by (auto simp: wp_rules wp_io wp_private)
  next
    case False
    then show ?thesis unfolding wp_gets wp_if s'(2) by simp (rule wp_mono [OF fresh], use source(3) in auto)
  qed
qed simp

lemma wp_put:
  "wp (store_put dump ref m) (\<lambda>_ s'. st_uid s' = st_uid s \<and> st_blobs s' = st_blobs s \<and>
     (\<exists>name. manifest_name ref = Inr name \<and> map_of (st_manifests s') name = Some (private_regular s (dump m)))) (\<lambda>_ _. True) s"
  unfolding store_put_def wp_then
  by (rule wp_mono [OF wp_ensure_dirs(2)])
    (auto simp: wp_rules store_write_atomic_def wp_io dict_simps same_files_def private_regular_def split: sum.split)

text \<open>
  C21: a captured database survives the store: after its dump was moved into the store under its digest and the
  manifest was put under a reference, validating that reference reports the restore set as ready and
  returns the same manifest, provided that no read fails and that a blob staged earlier under the same digest is not
  corrupt: such a blob is kept without hashing it again.
\<close>

theorem staged_set_is_ready:
  assumes "stage d source s = (s1, Inr ())" "store_put dump ref m s1 = (s2, Inr ())" "reads_ok s2"
    and "faithful_dump dump" "manifest_ok m" "\<forall>c \<in> set (rm_components m). rc_kind c = DATABASE \<longrightarrow> rc_digest c = d"
    and "blob_name d = Inr name" "no_corrupt_blob hash d (map_of (st_blobs s) name)"
    and "map_of (st_outside s) source = Some x" "nd_kind x = Regular bytes" "hash (dg_algorithm d) bytes = py_lower (dg_value d)"
  shows "snd (validate_for_restore hash ref s2) = Inr (ready_for m)"
proof -
  from wp_result [OF wp_stage [OF assms(7-11)] assms(1)] obtain bytes' where s1: "st_uid s1 = st_uid s"
    "map_of (st_blobs s1) name = Some (private_regular s bytes')" and hash: "hash (dg_algorithm d) bytes' = py_lower (dg_value d)" by blast
  from wp_result [OF wp_put assms(2)] obtain n where s2: "st_uid s2 = st_uid s1" "st_blobs s2 = st_blobs s1"
    and n: "manifest_name ref = Inr n" "map_of (st_manifests s2) n = Some (private_regular s1 (dump m))" by blast
  have same: "private_regular s = private_regular s2" "private_regular s1 = private_regular s2"
    using s1(1) s2(1) by (simp_all add: private_regular_def fun_eq_iff)
  have m: "manifest_at s2 ref = Inr m" using manifest_at_dumped [OF n(1) _ assms(4,5)] n(2) same by simp
  have "intact hash s2 c" if "c \<in> set (rm_components m)" "rc_kind c = DATABASE" for c
  proof -
    have d: "rc_digest c = d" using that assms(6) by blast
    have "map_of (st_blobs s2) name = Some (private_regular s2 bytes')" using s1(2) unfolding s2(2) same(1) .
    with assms(7) hash show ?thesis unfolding intact_def d by blast
  qed
  with m have ready: "restorable hash s2 ref m" by (simp add: restorable_def)
  obtain s' out where run: "validate_for_restore hash ref s2 = (s', out)" by fastforce
  note result = wp_validate_for_restore [of hash ref s2, unfolded wp_def run prod.case]
  show ?thesis
  proof (cases out)
    case (Inl e)
    have "manifest_at s2 ref = Inl e" using result assms(3) unfolding Inl sum.case by (elim conjE impE)
    with m show ?thesis by simp
  next
    case (Inr r)
    have "r = ready_for m" using result [unfolded Inr sum.case, THEN conjunct2, THEN conjunct2, THEN spec [of _ m]] assms(3) ready by (elim impE)
    then show ?thesis by (simp add: run Inr)
  qed
qed

section \<open>A store with two restore sets\<close>

definition demo_dump :: "restore_manifest \<Rightarrow> string" where
  "demo_dump m = render False 0 (restore_set_json m)"

definition demo_digest_of :: "string \<Rightarrow> string \<Rightarrow> string" where
  "demo_digest_of algorithm bytes = replicate 64 (if bytes = ''dump'' then CHR ''a'' else CHR ''b'')"

definition demo_artifact :: artifact_digest where
  "demo_artifact = \<lparr>dg_algorithm = ''sha256'', dg_value = replicate 64 CHR ''A''\<rparr>"

definition demo_set :: "string \<Rightarrow> restore_manifest" where
  "demo_set i = \<lparr>rm_restore_set_id = i, rm_lineage_id = ''a'', rm_components =
     [\<lparr>rc_kind = DATABASE, rc_ref = ''a'', rc_format_version = ''1'', rc_digest = demo_artifact\<rparr>,
      \<lparr>rc_kind = FILESTORE, rc_ref = ''b'', rc_format_version = ''1'', rc_digest = demo_artifact\<rparr>]\<rparr>"

definition demo_empty_store :: store_fs where
  "demo_empty_store = \<lparr>st_uid = 7, st_parent_ok = True, st_same_device = True, st_root = None, st_blobs_dir = None, st_manifests_dir = None,
     st_blobs = [], st_manifests = [], st_outside = [(''/tmp/dump'', \<lparr>nd_kind = Regular ''dump'', nd_uid = 7, nd_mode = 420\<rparr>)], st_io = [], st_reads = []\<rparr>"

lemma demo_dump_faithful: "faithful_dump demo_dump"
proof -
  have "wf_json (component_json c)" for c by (simp add: component_json_def digest_json_def)
  then have "wf_json (restore_set_json m)" for m by (simp add: restore_set_json_def list_all_iff)
  then show ?thesis using loads_render [where ind = False] by (simp add: faithful_dump_def demo_dump_def newline_def)
qed

lemma demo_opaque:
  "require_opaque_identifier ''a'' field = Inr ''a''" "require_opaque_identifier ''b'' field = Inr ''b''"
proof -
  have "opaque_ok ''a''" by code_simp
  moreover have "opaque_ok ''b''" by code_simp
  moreover have "\<not> list_ex py_isspace ''a''" "\<not> list_ex py_isspace ''b''" by code_simp+
  ultimately show "require_opaque_identifier ''a'' field = Inr ''a''" "require_opaque_identifier ''b'' field = Inr ''b''"
    unfolding require_opaque_identifier_def require_safe_opaque_identifier_def by (simp_all only: if_True if_False simp_thms)
qed

lemma demo_names:
  "manifest_name ''a'' = Inr ''a.json''" "manifest_name ''b'' = Inr ''b.json''"
  "blob_name demo_artifact = Inr (''sha256-'' @ replicate 64 CHR ''a'' @ ''.bin'')"
proof -
  show "manifest_name ''a'' = Inr ''a.json''" by code_simp
  show "manifest_name ''b'' = Inr ''b.json''" by code_simp
  have "re_fullmatch HEX_TEXT (replicate 64 CHR ''A'')"
    unfolding HEX_TEXT_def fullmatch_anchored fullmatch_plus_cls by (simp add: hex_char_def in_range_def cp_def)
  moreover have "py_lower (replicate 64 CHR ''A'') = replicate 64 CHR ''a''" by code_simp
  ultimately show "blob_name demo_artifact = Inr (''sha256-'' @ replicate 64 CHR ''a'' @ ''.bin'')"
    by (simp add: blob_name_def demo_artifact_def digest_length_def)
qed

lemma demo_set_ok: "manifest_ok (demo_set ''a'')" "manifest_ok (demo_set ''b'')"
proof -
  have "mk_digest ''sha256'' (replicate 64 CHR ''A'') = Inr demo_artifact"
    by (simp add: mk_digest_def digest_length_def demo_artifact_def fullmatch_plus_cls hex_char_def in_range_def cp_def)
  moreover have "\<not> re_search SECRET_OR_CONNECTION_TEXT ''1''" by code_simp
  ultimately show "manifest_ok (demo_set ''a'')" "manifest_ok (demo_set ''b'')"
    by (simp_all add: manifest_ok_def demo_set_def mk_manifest_def mk_component_def demo_opaque insert_commute) (simp_all add: demo_artifact_def)
qed

definition demo_blob :: string where
  "demo_blob = ''sha256-'' @ replicate 64 CHR ''a'' @ ''.bin''"

definition demo_store :: store_fs where
  "demo_store = demo_empty_store\<lparr>st_root := Some (own_directory demo_empty_store), st_manifests_dir := Some (own_directory demo_empty_store),
     st_blobs_dir := Some (own_directory demo_empty_store), st_blobs := [(demo_blob, private_regular demo_empty_store ''dump'')],
     st_manifests := [(''a.json'', private_regular demo_empty_store (demo_dump (demo_set ''a''))),
       (''b.json'', private_regular demo_empty_store (demo_dump (demo_set ''b'')))]\<rparr>"

lemma demo_store_views:
  "manifest_at demo_store ''b'' = Inr (demo_set ''b'')" "path_exists (st_manifests_dir demo_store)"
  "c \<in> set (rm_components (demo_set i)) \<Longrightarrow> intact demo_digest_of demo_store c"
proof -
  have same: "private_regular demo_store = private_regular demo_empty_store"
    by (simp add: private_regular_def fun_eq_iff demo_store_def)
  show "manifest_at demo_store ''b'' = Inr (demo_set ''b'')"
    by (rule manifest_at_dumped [OF demo_names(2) _ demo_dump_faithful demo_set_ok(2)]) (simp add: same, simp add: demo_store_def)
  show "path_exists (st_manifests_dir demo_store)" by (simp add: demo_store_def path_exists_def own_directory_def)
  have "demo_digest_of (dg_algorithm demo_artifact) ''dump'' = py_lower (dg_value demo_artifact)" by code_simp
  moreover have "map_of (st_blobs demo_store) demo_blob = Some (private_regular demo_store ''dump'')"
    unfolding same by (simp add: demo_store_def)
  moreover have "rc_digest c = demo_artifact" if "c \<in> set (rm_components (demo_set i))"
    using that by (auto simp: demo_set_def)
  ultimately show "intact demo_digest_of demo_store c" if "c \<in> set (rm_components (demo_set i))"
    using that demo_names(3) unfolding intact_def demo_blob_def by metis
qed

lemma demo_reads: "reads_ok demo_store" "reads_ok demo_empty_store"
  by (simp_all add: reads_ok_def demo_store_def demo_empty_store_def)

theorem discard_spares_others_witness:
  "manifest_at (fst (store_discard ''a'' demo_store)) ''b'' = Inr (demo_set ''b'') \<and>
   list_all (\<lambda>c. \<exists>name. component_at demo_digest_of (fst (store_discard ''a'' demo_store)) c = Inr name) (rm_components (demo_set ''b''))"
  using discard_spares_others [OF demo_store_views(1) _ demo_store_views(2) demo_reads(1) refl, of "''a''" demo_digest_of]
    component_at_intact [of demo_digest_of demo_store] demo_store_views(3) [of _ "''b''"] by (simp add: list_all_iff)

theorem ready_iff_intact_witness:
  "snd (validate_for_restore demo_digest_of ''b'' demo_store) = Inr (ready_for (demo_set ''b''))"
proof -
  obtain s' r where run: "validate_for_restore demo_digest_of ''b'' demo_store = (s', r)" by fastforce
  note ready_iff_intact [where hash = demo_digest_of and ref = "''b''" and s = demo_store, unfolded run prod.case]
  moreover have "restorable demo_digest_of demo_store ''b'' (demo_set ''b'')"
    using demo_store_views by (simp add: restorable_def)
  ultimately show ?thesis using demo_store_views(1) demo_reads run by (cases r) simp_all
qed

lemma demo_staging:
  "\<exists>s1 s2. stage demo_artifact ''/tmp/dump'' demo_empty_store = (s1, Inr ()) \<and> store_put demo_dump ''a'' (demo_set ''a'') s1 = (s2, Inr ()) \<and> reads_ok s2"
  unfolding stage_def demo_names(3) store_put_def demo_names(1)
  by (simp add: ensure_blobs_dir_def ensure_manifests_dir_def store_ensure_root_def make_directory_def store_private_def validate_private_path_def
      io_succeeds_def own_directory_def sthen_def sbind_def gets_def modify_def ret_def lift_result_def demo_empty_store_def path_exists_def
      move_into_custody_def may_chmod_def is_regular_def store_write_atomic_def guard_def reads_ok_def)

theorem staged_set_is_ready_witness:
  "\<exists>s1 s2. stage demo_artifact ''/tmp/dump'' demo_empty_store = (s1, Inr ()) \<and> store_put demo_dump ''a'' (demo_set ''a'') s1 = (s2, Inr ()) \<and>
     snd (validate_for_restore demo_digest_of ''a'' s2) = Inr (ready_for (demo_set ''a''))"
proof -
  obtain s1 s2 where runs: "stage demo_artifact ''/tmp/dump'' demo_empty_store = (s1, Inr ())"
    "store_put demo_dump ''a'' (demo_set ''a'') s1 = (s2, Inr ())" "reads_ok s2" using demo_staging by blast
  have digest: "demo_digest_of ''sha256'' ''dump'' = py_lower (replicate 64 CHR ''A'')" by code_simp
  have "snd (validate_for_restore demo_digest_of ''a'' s2) = Inr (ready_for (demo_set ''a''))"
    by (rule staged_set_is_ready [OF runs(1,2) runs(3) demo_dump_faithful demo_set_ok(1) _ demo_names(3), where bytes = "''dump''"
          and x = "\<lparr>nd_kind = Regular ''dump'', nd_uid = 7, nd_mode = 420\<rparr>"])
      (use digest in \<open>simp_all add: demo_set_def demo_empty_store_def no_corrupt_blob_def path_exists_def demo_artifact_def\<close>)
  with runs show ?thesis by blast
qed

end
