(* ===== verification/Mask_Transform.thy ===== *)
theory Mask_Transform
  imports Copy_Coordinator
begin

text \<open>
  The masking round trip (\<open>odoo_forge_postgres_docker/mask_transform.py\<close>): a dump is restored into a throwaway
  database, masked by one SQL statement per rule, dumped again and staged. Docker, the clock, the random name and
  the staging store are ports that change a state \<open>'g\<close>; every command is logged with its standard input
  and its outcome. Temporary files are represented by their bytes, SHA-256 by the parameter \<open>sha\<close>.
\<close>

section \<open>Ports\<close>

datatype mask_exn =
    MaskBinaryUnavailable | MaskTimeout | MaskCommandFailed | InvalidMaskSelector | MaskScratchUnavailable
  | MaskPersistence | MaskSelectorNotFound | MaskColumnTypeUnsupported | MaskUniqueColumnCollision | MaskNotNullColumn
  | MaskScratchNotIsolated | RawFileNotFound | RawTimeoutExpired | MaskValueError

datatype run_outcome = Exited int string | NotFound | TimedOut

datatype mask_call =
    Ran "string list" "string option" run_outcome
  | Slept
  | OpenedStaged restore_component "string option"
  | StagedBytes artifact_digest string

record 'g mask_ports =
  mp_run :: "string list \<Rightarrow> string option \<Rightarrow> 'g \<Rightarrow> 'g \<times> run_outcome"
  mp_clock :: "'g \<Rightarrow> 'g \<times> int"
  mp_uuid :: "'g \<Rightarrow> 'g \<times> string"
  mp_open :: "restore_component \<Rightarrow> 'g \<Rightarrow> 'g \<times> string option"
  mp_stage :: "artifact_digest \<Rightarrow> string \<Rightarrow> 'g \<Rightarrow> 'g \<times> bool"

record 'g mask_world =
  mw_state :: 'g
  mw_calls :: "mask_call list"

type_synonym ('g, 'a) mask_prog = "('g mask_world, mask_exn, 'a) prog"

definition ask :: "('g \<Rightarrow> 'g \<times> 'a) \<Rightarrow> ('g, 'a) mask_prog" where
  "ask p = (\<lambda>s. case p (mw_state s) of (g, x) \<Rightarrow> (s\<lparr>mw_state := g\<rparr>, Inr x))"

definition note_call :: "mask_call \<Rightarrow> ('g, unit) mask_prog" where
  "note_call c = modify (\<lambda>s. s\<lparr>mw_calls := mw_calls s @ [c]\<rparr>)"

definition run_command :: "'g mask_ports \<Rightarrow> string list \<Rightarrow> string option \<Rightarrow> ('g, run_outcome) mask_prog" where
  "run_command ports argv stdin = sbind (ask (mp_run ports argv stdin)) (\<lambda>out. sthen (note_call (Ran argv stdin out)) (ret out))"

text \<open>\<open>_run_mask_subprocess\<close> without the error mapping.\<close>

definition run_raw :: "'g mask_ports \<Rightarrow> string list \<Rightarrow> ('g, int \<times> string) mask_prog" where
  "run_raw ports argv = sbind (run_command ports argv None) (\<lambda>out. case out of
     NotFound \<Rightarrow> raise_exn RawFileNotFound | TimedOut \<Rightarrow> raise_exn RawTimeoutExpired | Exited code stdout \<Rightarrow> ret (code, stdout))"

definition invoke :: "'g mask_ports \<Rightarrow> string list \<Rightarrow> string option \<Rightarrow> mask_exn \<Rightarrow> ('g, string) mask_prog" where
  "invoke ports argv stdin failure = sbind (run_command ports argv stdin) (\<lambda>out. case out of
     NotFound \<Rightarrow> raise_exn MaskBinaryUnavailable | TimedOut \<Rightarrow> raise_exn MaskTimeout
   | Exited code stdout \<Rightarrow> if code \<noteq> 0 then raise_exn failure else ret stdout)"

definition remaining :: "'g mask_ports \<Rightarrow> int \<Rightarrow> ('g, unit) mask_prog" where
  "remaining ports expires_at = sbind (ask (mp_clock ports)) (\<lambda>now. if expires_at - now \<le> 0 then raise_exn MaskTimeout else ret ())"

section \<open>SQL\<close>

definition squote :: char where "squote = CHR 0x27"

definition dquote :: char where "dquote = CHR 0x22"

definition SQL_IDENTIFIER :: rx where
  "SQL_IDENTIFIER = rseq [RCaret, rplus (RCls identifier_char), RDollar]"

definition REDACTED_MARKER :: string where "REDACTED_MARKER = ''[REDACTED]''"

definition quote_identifier :: "string \<Rightarrow> (mask_exn, string) result" where
  "quote_identifier value = (if \<not> re_fullmatch SQL_IDENTIFIER value then Inl InvalidMaskSelector else Inr (dquote # value @ [dquote]))"

definition escape_quotes :: "string \<Rightarrow> string" where
  "escape_quotes value = concat (map (\<lambda>c. if c = squote then [squote, squote] else [c]) value)"

definition quote_literal :: "string \<Rightarrow> string" where
  "quote_literal value = squote # escape_quotes value @ [squote]"

definition mask_expression :: "anonymization_rule \<Rightarrow> string \<Rightarrow> string" where
  "mask_expression rule column = (case ru_mask_strategy rule of
     HASH \<Rightarrow> ''md5('' @ column @ ''::text)''
   | NULLIFY \<Rightarrow> ''NULL''
   | REDACT \<Rightarrow> quote_literal REDACTED_MARKER
   | STATIC_REPLACE \<Rightarrow> quote_literal (case ru_static_value rule of None \<Rightarrow> [] | Some v \<Rightarrow> v))"

definition update_statement :: "anonymization_rule \<Rightarrow> (mask_exn, string) result" where
  "update_statement rule =
     rbind (quote_identifier (ru_table rule)) (\<lambda>table.
     rbind (quote_identifier (ru_column rule)) (\<lambda>column.
     Inr (''UPDATE '' @ table @ '' SET '' @ column @ '' = '' @ mask_expression rule column)))"

definition lines_of :: "string list \<Rightarrow> string" where
  "lines_of ls = concat (map (\<lambda>l. CHR 0x0A # l) ls) @ [CHR 0x0A]"

definition INTROSPECTION_SQL :: "string \<Rightarrow> string" where
  "INTROSPECTION_SQL pairs = lines_of [
     ''SELECT c.table_name, c.column_name, c.data_type, c.is_nullable,'',
     ''  EXISTS ('',
     ''    SELECT 1'',
     ''    FROM information_schema.table_constraints tc'',
     ''    JOIN information_schema.key_column_usage kcu'',
     ''      ON tc.constraint_name = kcu.constraint_name'',
     ''     AND tc.table_schema = kcu.table_schema'',
     ''    WHERE tc.table_name = c.table_name'',
     ''      AND kcu.column_name = c.column_name'',
     ''      AND tc.constraint_type IN ('' @ quote_literal ''UNIQUE'' @ '', '' @ quote_literal ''PRIMARY KEY'' @ '')'',
     ''  ) AS is_unique'',
     ''FROM information_schema.columns c'',
     ''WHERE (c.table_name, c.column_name) IN ('' @ pairs @ '')'']"

section \<open>Commands\<close>

definition SCRATCH_NAME_PREFIX :: string where "SCRATCH_NAME_PREFIX = ''odoo-forge-mask-scratch-''"

definition DEFAULT_SCRATCH_IMAGE :: string where "DEFAULT_SCRATCH_IMAGE = ''postgres:16''"

definition DEFAULT_SCRATCH_DATABASE :: string where "DEFAULT_SCRATCH_DATABASE = ''maskdb''"

definition READINESS_ATTEMPTS :: nat where "READINESS_ATTEMPTS = 60"

definition start_argv :: "string \<Rightarrow> string \<Rightarrow> string \<Rightarrow> string list" where
  "start_argv container database img = [''docker'', ''run'', ''--detach'', ''--name'', container, ''--network'', ''none'',
     ''--env'', ''POSTGRES_HOST_AUTH_METHOD=trust'', ''--env'', ''POSTGRES_DB='' @ database, img]"

definition remove_argv :: "string \<Rightarrow> string list" where
  "remove_argv container = [''docker'', ''rm'', ''-f'', container]"

definition inspect_argv :: "string \<Rightarrow> string list" where
  "inspect_argv container = [''docker'', ''inspect'', ''-f'',
     ''{{range $network, $_ := .NetworkSettings.Networks}}{{$network}} {{end}}'', container]"

definition probe_argv :: "string \<Rightarrow> string \<Rightarrow> string list" where
  "probe_argv container database = [''docker'', ''exec'', container, ''psql'', ''-U'', ''postgres'', ''-d'', database, ''-tAc'', ''SELECT 1'']"

definition restore_argv :: "string \<Rightarrow> string \<Rightarrow> string list" where
  "restore_argv container database = [''docker'', ''exec'', ''-i'', container, ''pg_restore'', ''-U'', ''postgres'', ''-d'', database,
     ''--no-owner'', ''--clean'', ''--if-exists'']"

definition introspect_argv :: "string \<Rightarrow> string \<Rightarrow> anonymization_rule list \<Rightarrow> string list" where
  "introspect_argv container database rules = [''docker'', ''exec'', container, ''psql'', ''-U'', ''postgres'', ''-d'', database,
     ''-v'', ''ON_ERROR_STOP=1'', ''-tAc'',
     INTROSPECTION_SQL (join_with '', '' (map (\<lambda>r. ''('' @ quote_literal (ru_table r) @ '', '' @ quote_literal (ru_column r) @ '')'') rules))]"

definition update_argv :: "string \<Rightarrow> string \<Rightarrow> string \<Rightarrow> string list" where
  "update_argv container database statement = [''docker'', ''exec'', container, ''psql'', ''-U'', ''postgres'', ''-d'', database,
     ''-v'', ''ON_ERROR_STOP=1'', ''-c'', statement]"

definition dump_argv :: "string \<Rightarrow> string \<Rightarrow> string list" where
  "dump_argv container database = [''docker'', ''exec'', container, ''pg_dump'', ''-U'', ''postgres'', ''--format=custom'', database]"

section \<open>The scratch database\<close>

fun await_scratch_readiness :: "'g mask_ports \<Rightarrow> string \<Rightarrow> string \<Rightarrow> nat \<Rightarrow> ('g, unit) mask_prog" where
  "await_scratch_readiness ports container database 0 = raise_exn MaskScratchUnavailable"
| "await_scratch_readiness ports container database (Suc n) =
     sbind (run_raw ports (probe_argv container database)) (\<lambda>(code, _).
     if code = 0 then ret ()
     else sthen (do_when (0 < n) (note_call Slept)) (await_scratch_readiness ports container database n))"

text \<open>\<open>str.split()\<close>.\<close>

fun py_words :: "string \<Rightarrow> string \<Rightarrow> string list" where
  "py_words w [] = (if w = [] then [] else [rev w])"
| "py_words w (c # s) = (if py_isspace c then (if w = [] then [] else [rev w]) @ py_words [] s else py_words (c # w) s)"

definition isolated :: "string \<Rightarrow> bool" where
  "isolated stdout \<longleftrightarrow> py_words [] stdout \<in> {[], [''none'']}"

definition require_network_isolation :: "'g mask_ports \<Rightarrow> string \<Rightarrow> ('g, unit) mask_prog" where
  "require_network_isolation ports container =
     sbind (run_raw ports (inspect_argv container)) (\<lambda>(code, stdout).
     if code \<noteq> 0 then raise_exn MaskScratchNotIsolated
     else if \<not> isolated stdout then raise_exn MaskScratchNotIsolated else ret ())"

definition docker_scratch_database ::
    "'g mask_ports \<Rightarrow> string \<Rightarrow> string \<Rightarrow> nat \<Rightarrow> (string \<Rightarrow> ('g, 'a) mask_prog) \<Rightarrow> ('g, 'a) mask_prog" where
  "docker_scratch_database ports img database attempts body =
     sbind (ask (mp_uuid ports)) (\<lambda>u.
     let container = SCRATCH_NAME_PREFIX @ u in
     finally_do
       (sthen (invoke ports (start_argv container database img) None MaskScratchUnavailable)
       (sthen (await_scratch_readiness ports container database attempts)
       (sthen (require_network_isolation ports container)
       (body container))))
       (sthen (run_raw ports (remove_argv container)) (ret ())))"

section \<open>Rules against the schema\<close>

record column_facts =
  cf_data_type :: string
  cf_is_unique :: bool
  cf_is_nullable :: bool

definition TEXT_ASSIGNABLE_TYPES :: "string list" where
  "TEXT_ASSIGNABLE_TYPES = [''text'', ''character varying'', ''character'']"

text \<open>\<open>str.splitlines\<close>, up to blank lines, which are skipped.\<close>

definition line_break :: "char \<Rightarrow> bool" where
  "line_break c \<longleftrightarrow> cp c \<in> {10, 11, 12, 13, 28, 29, 30, 133}"

fun py_lines :: "string \<Rightarrow> string \<Rightarrow> string list" where
  "py_lines w [] = [rev w]"
| "py_lines w (c # s) = (if line_break c then rev w # py_lines [] s else py_lines (c # w) s)"

fun parse_facts :: "((string \<times> string) \<times> column_facts) list \<Rightarrow> string list \<Rightarrow> (mask_exn, ((string \<times> string) \<times> column_facts) list) result" where
  "parse_facts facts [] = Inr facts"
| "parse_facts facts (line # rest) =
     (if py_strip line = [] then parse_facts facts rest
      else case split_on (CHR ''|'') line of
        [table, column, data_type, is_nullable, is_unique] \<Rightarrow>
          parse_facts (AList.update (table, column)
            \<lparr>cf_data_type = data_type, cf_is_unique = (is_unique = ''t''), cf_is_nullable = (is_nullable = ''YES'')\<rparr> facts) rest
      | _ \<Rightarrow> Inl MaskValueError)"

definition introspect_columns ::
    "'g mask_ports \<Rightarrow> string \<Rightarrow> string \<Rightarrow> anonymization_rule list \<Rightarrow> int
     \<Rightarrow> ('g, ((string \<times> string) \<times> column_facts) list) mask_prog" where
  "introspect_columns ports container database rules deadline =
     sthen (remaining ports deadline)
     (sbind (invoke ports (introspect_argv container database rules) None MaskCommandFailed) (\<lambda>rows.
     lift_result (parse_facts [] (py_lines [] rows))))"

fun require_maskable :: "((string \<times> string) \<times> column_facts) list \<Rightarrow> anonymization_rule list \<Rightarrow> (mask_exn, unit) result" where
  "require_maskable facts [] = Inr ()"
| "require_maskable facts (rule # rules) =
     (case map_of facts (ru_table rule, ru_column rule) of
        None \<Rightarrow> Inl MaskSelectorNotFound
      | Some column \<Rightarrow>
          if ru_mask_strategy rule \<in> {HASH, REDACT, STATIC_REPLACE} \<and> cf_data_type column \<notin> set TEXT_ASSIGNABLE_TYPES
          then Inl MaskColumnTypeUnsupported
          else if ru_mask_strategy rule \<in> {REDACT, STATIC_REPLACE} \<and> cf_is_unique column then Inl MaskUniqueColumnCollision
          else if ru_mask_strategy rule = NULLIFY \<and> \<not> cf_is_nullable column then Inl MaskNotNullColumn
          else require_maskable facts rules)"

section \<open>The transform\<close>

fun apply_statements :: "'g mask_ports \<Rightarrow> string \<Rightarrow> string \<Rightarrow> string list \<Rightarrow> int \<Rightarrow> ('g, unit) mask_prog" where
  "apply_statements ports container database [] deadline = ret ()"
| "apply_statements ports container database (statement # statements) deadline =
     sthen (remaining ports deadline)
     (sthen (invoke ports (update_argv container database statement) None MaskCommandFailed)
     (apply_statements ports container database statements deadline))"

definition restore_into_scratch :: "'g mask_ports \<Rightarrow> string \<Rightarrow> string \<Rightarrow> string \<Rightarrow> int \<Rightarrow> ('g, unit) mask_prog" where
  "restore_into_scratch ports container database raw deadline =
     sthen (remaining ports deadline)
     (sthen (invoke ports (restore_argv container database) (Some raw) MaskCommandFailed) (ret ()))"

definition redump_from_scratch ::
    "(string \<Rightarrow> string) \<Rightarrow> 'g mask_ports \<Rightarrow> string \<Rightarrow> string \<Rightarrow> int \<Rightarrow> ('g, string \<times> artifact_digest) mask_prog" where
  "redump_from_scratch sha ports container database deadline =
     sthen (remaining ports deadline)
     (sbind (invoke ports (dump_argv container database) None MaskCommandFailed) (\<lambda>bytes.
     lift_result (case mk_digest ''sha256'' (sha bytes) of Inl _ \<Rightarrow> Inl MaskValueError | Inr d \<Rightarrow> Inr (bytes, d))))"

definition open_staged_bytes :: "'g mask_ports \<Rightarrow> restore_component \<Rightarrow> ('g, string) mask_prog" where
  "open_staged_bytes ports component =
     sbind (ask (mp_open ports component)) (\<lambda>r.
     sthen (note_call (OpenedStaged component r)) (lift_result (of_option MaskPersistence r)))"

definition stage_masked_bytes :: "'g mask_ports \<Rightarrow> artifact_digest \<Rightarrow> string \<Rightarrow> ('g, unit) mask_prog" where
  "stage_masked_bytes ports digest bytes =
     sbind (ask (mp_stage ports digest bytes)) (\<lambda>ok.
     if ok then note_call (StagedBytes digest bytes) else raise_exn MaskPersistence)"

definition mask_in_scratch ::
    "(string \<Rightarrow> string) \<Rightarrow> 'g mask_ports \<Rightarrow> string \<Rightarrow> anonymization_rule list \<Rightarrow> string list \<Rightarrow> string \<Rightarrow> int \<Rightarrow> string
     \<Rightarrow> ('g, string \<times> artifact_digest) mask_prog" where
  "mask_in_scratch sha ports database rules statements raw deadline container =
     sthen (restore_into_scratch ports container database raw deadline)
     (sbind (introspect_columns ports container database rules deadline) (\<lambda>facts.
     sthen (lift_result (require_maskable facts rules))
     (sthen (apply_statements ports container database statements deadline)
     (redump_from_scratch sha ports container database deadline))))"

definition mask_transform ::
    "(string \<Rightarrow> string) \<Rightarrow> 'g mask_ports \<Rightarrow> int \<Rightarrow> restore_component \<Rightarrow> anonymization_rule list \<Rightarrow> ('g, restore_component) mask_prog" where
  "mask_transform sha ports timeout component rules =
     (if rules = [] \<or> rc_kind component \<noteq> DATABASE then ret component
      else
        sbind (lift_result (rmap update_statement rules)) (\<lambda>statements.
        sbind (open_staged_bytes ports component) (\<lambda>raw.
        sbind (ask (mp_clock ports)) (\<lambda>now.
        sbind (docker_scratch_database ports DEFAULT_SCRATCH_IMAGE DEFAULT_SCRATCH_DATABASE READINESS_ATTEMPTS
          (mask_in_scratch sha ports DEFAULT_SCRATCH_DATABASE rules statements raw (now + timeout))) (\<lambda>(masked, digest).
        sthen (stage_masked_bytes ports digest masked)
        (lift_result (case mk_component (rc_kind component) (rc_ref component) (rc_format_version component) digest of
           Inl _ \<Rightarrow> Inl MaskValueError | Inr c \<Rightarrow> Inr c)))))))"

end
