(* ===== verification/Mask_Safety.thy ===== *)
theory Mask_Safety
  imports Mask_Transform
begin

text \<open>
  What the masking round trip guarantees: the SQL it issues is the intended statement whatever the rule
  contains, raw data enters only a container that was seen to be isolated and that is removed at the end,
  and the number of commands is bounded.
\<close>

section \<open>Reading SQL back\<close>

text \<open>
  The part of PostgreSQL's lexical structure a masking statement may use: key words, quoted identifiers and
  string literals (a quote inside is doubled) and four symbols. Anything else outside quotes, such as a
  comment, a backslash, a second statement or dollar quoting, is refused.
\<close>

datatype sql_token = Keyword string | Ident string | Literal string | Symbol char

definition sql_space :: "char \<Rightarrow> bool" where
  "sql_space c \<longleftrightarrow> in_range 9 13 c \<or> cp c = 32"

definition word_start :: "char \<Rightarrow> bool" where
  "word_start c \<longleftrightarrow> is_lower c \<or> is_upper c \<or> c = CHR ''_''"

definition word_char :: "char \<Rightarrow> bool" where
  "word_char c \<longleftrightarrow> word_start c \<or> is_digit c"

definition sql_symbol :: "char \<Rightarrow> bool" where
  "sql_symbol c \<longleftrightarrow> c = CHR ''='' \<or> c = CHR ''('' \<or> c = CHR '')'' \<or> c = CHR '':''"

fun unquote :: "char \<Rightarrow> string \<Rightarrow> string \<Rightarrow> (string \<times> string) option" where
  "unquote q acc [] = None"
| "unquote q acc (c # s) =
     (if c \<noteq> q then unquote q (c # acc) s
      else case s of [] \<Rightarrow> Some (rev acc, []) | d # t \<Rightarrow> if d = q then unquote q (q # acc) t else Some (rev acc, s))"

lemma unquote_shorter: "unquote q acc s = Some (w, rest) \<Longrightarrow> length rest < length s"
  by (induction q acc s rule: unquote.induct) (auto split: if_splits list.splits)

function sql_lex :: "string \<Rightarrow> sql_token list option" where
  "sql_lex [] = Some []"
| "sql_lex (c # s) =
     (if sql_space c then sql_lex s
      else if c = squote then (case unquote squote [] s of None \<Rightarrow> None | Some (w, rest) \<Rightarrow> map_option ((#) (Literal w)) (sql_lex rest))
      else if c = dquote then (case unquote dquote [] s of None \<Rightarrow> None | Some (w, rest) \<Rightarrow> map_option ((#) (Ident w)) (sql_lex rest))
      else if word_start c then map_option ((#) (Keyword (c # takeWhile word_char s))) (sql_lex (dropWhile word_char s))
      else if sql_symbol c then map_option ((#) (Symbol c)) (sql_lex s)
      else None)"
  by pat_completeness auto

termination
  by (relation "measure length") (auto dest: unquote_shorter simp: le_imp_less_Suc length_dropWhile_le)

text \<open>The expression a rule puts into its column.\<close>

definition masked_value :: "anonymization_rule \<Rightarrow> sql_token list" where
  "masked_value rule = (case ru_mask_strategy rule of
     HASH \<Rightarrow> [Keyword ''md5'', Symbol (CHR ''(''), Ident (ru_column rule), Symbol (CHR '':''), Symbol (CHR '':''), Keyword ''text'', Symbol (CHR '')'')]
   | NULLIFY \<Rightarrow> [Keyword ''NULL'']
   | REDACT \<Rightarrow> [Literal ''[REDACTED]'']
   | STATIC_REPLACE \<Rightarrow> [Literal (the (ru_static_value rule))])"

lemma unquote_plain:
  "q \<notin> set v \<Longrightarrow> rest = [] \<or> hd rest \<noteq> q \<Longrightarrow> unquote q acc (v @ q # rest) = Some (rev acc @ v, rest)"
  by (induction v arbitrary: acc) (auto split: list.splits)

lemma unquote_escaped:
  assumes "rest = [] \<or> hd rest \<noteq> squote"
  shows "unquote squote acc (escape_quotes v @ squote # rest) = Some (rev acc @ v, rest)"
proof (induction v arbitrary: acc)
  case Nil
  then show ?case using assms by (auto simp: escape_quotes_def split: list.splits)
next
  case (Cons c v)
  then show ?case by (simp add: escape_quotes_def)
qed

lemmas char_classes = in_range_def cp_def

lemma quotes_are_special:
  "\<not> sql_space squote" "\<not> sql_space dquote" "squote \<noteq> dquote" "dquote \<noteq> squote" "\<not> identifier_char dquote"
  by (simp_all add: sql_space_def squote_def dquote_def identifier_char_def char_classes)

lemma sql_lex_literal:
  "rest = [] \<or> hd rest \<noteq> squote \<Longrightarrow> sql_lex (quote_literal v @ rest) = map_option ((#) (Literal v)) (sql_lex rest)"
  by (simp add: quote_literal_def quotes_are_special unquote_escaped)

lemma sql_lex_identifier:
  assumes "quote_identifier v = Inr w" "rest = [] \<or> hd rest \<noteq> dquote"
  shows "sql_lex (w @ rest) = map_option ((#) (Ident v)) (sql_lex rest)"
proof -
  have w: "w = dquote # v @ [dquote]" and "\<forall>c \<in> set v. identifier_char c"
    using assms(1) unfolding quote_identifier_def SQL_IDENTIFIER_def fullmatch_anchored fullmatch_plus_cls
    by (auto split: if_splits)
  then have "dquote \<notin> set v" using quotes_are_special(5) by blast
  with assms(2) show ?thesis by (simp add: w quotes_are_special unquote_plain)
qed

lemma sql_lex_space: "sql_lex (CHR '' '' # s) = sql_lex s"
  by (simp add: sql_space_def char_classes)

lemma sql_lex_symbol: "sql_symbol c \<Longrightarrow> sql_lex (c # s) = map_option ((#) (Symbol c)) (sql_lex s)"
  unfolding sql_symbol_def
  by (elim disjE; simp add: sql_symbol_def sql_space_def word_start_def squote_def dquote_def char_classes)

lemma not_word_char: "\<not> word_char (CHR '' '')" "\<not> word_char (CHR ''('')" "\<not> word_char (CHR '')'')"
  by (simp_all add: word_char_def word_start_def char_classes)

lemma sql_lex_keyword:
  assumes "word_start c" "list_all word_char w" "rest = [] \<or> \<not> word_char (hd rest)"
  shows "sql_lex (c # w @ rest) = map_option ((#) (Keyword (c # w))) (sql_lex rest)"
proof -
  have "takeWhile word_char (w @ rest) = w" "dropWhile word_char (w @ rest) = rest"
    using assms(2,3) by (cases rest; simp add: list_all_iff takeWhile_append dropWhile_append)+
  moreover have "\<not> sql_space c" "c \<noteq> squote" "c \<noteq> dquote"
    using assms(1) by (auto simp: word_start_def sql_space_def squote_def dquote_def char_classes)
  ultimately show ?thesis using assms(1) by simp
qed

declare sql_lex.simps(2) [simp del]

lemma sql_lex_words:
  "sql_lex (''UPDATE '' @ s) = map_option ((#) (Keyword ''UPDATE'')) (sql_lex s)"
  "sql_lex ('' SET '' @ s) = map_option ((#) (Keyword ''SET'')) (sql_lex s)"
  "sql_lex (''md5('' @ s) = map_option (\<lambda>ts. Keyword ''md5'' # Symbol (CHR ''('') # ts) (sql_lex s)"
  "sql_lex (''::text)'' @ s) = map_option (\<lambda>ts. Symbol (CHR '':'') # Symbol (CHR '':'') # Keyword ''text'' # Symbol (CHR '')'') # ts) (sql_lex s)"
  "sql_lex ('' = '' @ s) = map_option ((#) (Symbol (CHR ''=''))) (sql_lex s)"
  "sql_lex ''NULL'' = Some [Keyword ''NULL'']"
proof -
  note kw = sql_lex_keyword [of "CHR ''U''" "''PDATE''" "'' '' @ s"] sql_lex_keyword [of "CHR ''S''" "''ET''" "'' '' @ s"]
    sql_lex_keyword [of "CHR ''m''" "''d5''" "''('' @ s"] sql_lex_keyword [of "CHR ''t''" "''ext''" "'')'' @ s"]
    sql_lex_keyword [of "CHR ''N''" "''ULL''" "[]"]
  note words = kw [unfolded word_char_def word_start_def char_classes, simplified]
  note sym = sql_lex_symbol [of "CHR ''=''", unfolded sql_symbol_def, simplified] sql_lex_symbol [of "CHR '':''", unfolded sql_symbol_def, simplified]
    sql_lex_symbol [of "CHR ''(''", unfolded sql_symbol_def, simplified] sql_lex_symbol [of "CHR '')''", unfolded sql_symbol_def, simplified]
  show "sql_lex (''UPDATE '' @ s) = map_option ((#) (Keyword ''UPDATE'')) (sql_lex s)"
    "sql_lex ('' SET '' @ s) = map_option ((#) (Keyword ''SET'')) (sql_lex s)"
    "sql_lex ('' = '' @ s) = map_option ((#) (Symbol (CHR ''=''))) (sql_lex s)"
    "sql_lex ''NULL'' = Some [Keyword ''NULL'']"
    by (simp_all add: words sym sql_lex_space)
  show "sql_lex (''md5('' @ s) = map_option (\<lambda>ts. Keyword ''md5'' # Symbol (CHR ''('') # ts) (sql_lex s)"
    "sql_lex (''::text)'' @ s) = map_option (\<lambda>ts. Symbol (CHR '':'') # Symbol (CHR '':'') # Keyword ''text'' # Symbol (CHR '')'') # ts) (sql_lex s)"
    by (simp_all add: words sym option.map_comp comp_def)
qed

lemma sql_lex_update:
  assumes "quote_identifier t = Inr t'" "quote_identifier c = Inr c'"
  shows "sql_lex (''UPDATE '' @ t' @ '' SET '' @ c' @ '' = '' @ e) =
    map_option (\<lambda>ts. [Keyword ''UPDATE'', Ident t, Keyword ''SET'', Ident c, Symbol (CHR ''='')] @ ts) (sql_lex e)"
proof -
  have "sql_lex (t' @ '' SET '' @ x) = map_option ((#) (Ident t)) (sql_lex ('' SET '' @ x))"
    "sql_lex (c' @ '' = '' @ x) = map_option ((#) (Ident c)) (sql_lex ('' = '' @ x))" for x
    using assms by (intro sql_lex_identifier; simp add: dquote_def)+
  then show ?thesis
    by (simp only: sql_lex_words option.map_comp) (simp add: comp_def)
qed

lemma sql_lex_expression:
  assumes "quote_identifier (ru_column rule) = Inr c" "ru_mask_strategy rule = STATIC_REPLACE \<Longrightarrow> ru_static_value rule \<noteq> None"
  shows "sql_lex (mask_expression rule c) = Some (masked_value rule)"
proof -
  have nq: "hd (''::text)'' @ x) \<noteq> dquote" for x by (simp add: dquote_def)
  have hash: "sql_lex (''md5('' @ c @ ''::text)'') = Some [Keyword ''md5'', Symbol (CHR ''(''), Ident (ru_column rule), Symbol (CHR '':''), Symbol (CHR '':''), Keyword ''text'', Symbol (CHR '')'')]"
    using sql_lex_identifier [OF assms(1), of "''::text)'' @ []"] sql_lex_words(4) [of "[]"] nq [of "[]"]
    unfolding sql_lex_words(3) by simp
  have lit: "sql_lex (quote_literal v) = Some [Literal v]" for v
    using sql_lex_literal [of "[]" v] by simp
  show ?thesis
  proof (cases "ru_mask_strategy rule")
    case STATIC_REPLACE
    with assms(2) show ?thesis by (auto simp: mask_expression_def masked_value_def lit)
  qed (simp_all only: mask_expression_def masked_value_def mask_strategy.case hash lit REDACTED_MARKER_def sql_lex_words(6))
qed

text \<open>
  C10: a masking statement is what the rule asks for, whatever its table, column and replacement text contain: a
  rule that validation accepts gives a statement, and read by the SQL lexer it is one \<open>UPDATE\<close> of exactly
  that table and column with the expression of the strategy, where the replacement is a single string literal whose
  value is the rule's text.
\<close>

theorem mask_statement_tokens:
  assumes "mk_rule table column strategy static_value = Inr rule"
  shows "\<exists>sql. update_statement rule = Inr sql \<and>
    sql_lex sql = Some ([Keyword ''UPDATE'', Ident table, Keyword ''SET'', Ident column, Symbol (CHR ''='')] @ masked_value rule)"
proof -
  from assms have rule: "opaque_ok table" "opaque_ok column" "ru_table rule = table" "ru_column rule = column"
      "ru_mask_strategy rule = STATIC_REPLACE \<Longrightarrow> ru_static_value rule \<noteq> None"
    by (auto simp: mk_rule_def require_safe_opaque_identifier_def split: if_splits)
  have "\<exists>q. quote_identifier v = Inr q" if "opaque_ok v" for v
    using that by (simp add: quote_identifier_def opaque_ok_def SQL_IDENTIFIER_def SAFE_ARTIFACT_REF_def)
  with rule obtain t c where q: "quote_identifier table = Inr t" "quote_identifier column = Inr c" by blast
  have "update_statement rule = Inr (''UPDATE '' @ t @ '' SET '' @ c @ '' = '' @ mask_expression rule c)"
    by (simp only: update_statement_def rule q rbind.simps)
  then show ?thesis
    using sql_lex_update [OF q, of "mask_expression rule c"] sql_lex_expression [of rule c] rule q(2) by simp
qed

theorem mask_statement_tokens_witness:
  "\<exists>rule sql. mk_rule ''t'' ''c'' STATIC_REPLACE (Some [squote]) = Inr rule \<and> update_statement rule = Inr sql \<and>
    sql_lex sql = Some [Keyword ''UPDATE'', Ident ''t'', Keyword ''SET'', Ident ''c'', Symbol (CHR ''=''), Literal [squote]]"
proof -
  have "opaque_ok ''t''" by code_simp
  moreover have "opaque_ok ''c''" by code_simp
  ultimately have rule: "mk_rule ''t'' ''c'' STATIC_REPLACE (Some [squote]) =
      Inr \<lparr>ru_table = ''t'', ru_column = ''c'', ru_mask_strategy = STATIC_REPLACE, ru_static_value = Some [squote]\<rparr>"
    by (simp add: mk_rule_def require_safe_opaque_identifier_def)
  from mask_statement_tokens [OF rule] show ?thesis using rule by (simp add: masked_value_def)
qed

section \<open>What the commands log\<close>

lemma emits_ask: "(\<And>x. P x []) \<Longrightarrow> emits mw_calls P E (ask p)"
  by (simp add: emits_def ask_def wp_def added_def split: prod.split)

lemma emits_note: "P () [c] \<Longrightarrow> emits mw_calls P E (note_call c)"
  by (simp add: emits_def note_call_def wp_rules added_def)

lemma emits_command: "(\<And>out. P out [Ran argv stdin out]) \<Longrightarrow> emits mw_calls P E (run_command ports argv stdin)"
  by (simp add: emits_def run_command_def ask_def note_call_def sbind_def sthen_def ret_def modify_def wp_def added_def split: prod.split)

lemma emits_invoke:
  assumes "\<And>out. P out [Ran argv stdin (Exited 0 out)]" "\<And>out. E [Ran argv stdin out]"
  shows "emits mw_calls P E (invoke ports argv stdin failure)"
  unfolding invoke_def
  by (rule emits_bind [OF emits_command, where P = "\<lambda>out cs. cs = [Ran argv stdin out]" and P' = "\<lambda>out x cs. out = Exited 0 x \<and> cs = []"
        and E' = "\<lambda>_ cs. cs = []" and E = "\<lambda>_. False"])
    (auto simp: assms emits_ret emits_raise split: run_outcome.split)

lemma emits_run_raw:
  assumes "\<And>code out. P (code, out) [Ran argv None (Exited code out)]" "\<And>out. E [Ran argv None out]"
  shows "emits mw_calls P E (run_raw ports argv)"
  unfolding run_raw_def
  by (rule emits_bind [OF emits_command, where P = "\<lambda>out cs. cs = [Ran argv None out]" and P' = "\<lambda>out x cs. out = Exited (fst x) (snd x) \<and> cs = []"
        and E' = "\<lambda>_ cs. cs = []" and E = "\<lambda>_. False"])
    (auto simp: assms emits_ret emits_raise split: run_outcome.split)

lemma emits_remaining: "P () [] \<Longrightarrow> E [] \<Longrightarrow> emits mw_calls P E (remaining ports deadline)"
  unfolding remaining_def
  by (rule emits_bind [OF emits_ask, where P = "\<lambda>_ cs. cs = []" and P' = "\<lambda>_ _ cs. cs = []" and E' = "\<lambda>_ cs. cs = []" and E = "\<lambda>_. False"])
    (auto intro: emits_ret emits_raise)

lemma emits_always: "emits calls (\<lambda>_. G) G m \<Longrightarrow> \<exists>cs. calls (fst (m s)) = calls s @ cs \<and> G cs"
  unfolding emits_def wp_def added_def by (drule spec [of _ s]) (auto split: prod.splits sum.splits)

section \<open>Raw data stays contained\<close>

fun plain :: "mask_call \<Rightarrow> bool" where
  "plain (Ran argv stdin out) \<longleftrightarrow> stdin = None"
| "plain Slept \<longleftrightarrow> True"
| "plain _ \<longleftrightarrow> False"

fun proves_isolation :: "string \<Rightarrow> mask_call \<Rightarrow> bool" where
  "proves_isolation container (Ran argv None (Exited code out)) \<longleftrightarrow> argv = inspect_argv container \<and> code = 0 \<and> isolated out"
| "proves_isolation container _ \<longleftrightarrow> False"

definition into_scratch :: "string \<Rightarrow> string \<Rightarrow> mask_call \<Rightarrow> bool" where
  "into_scratch container raw c \<longleftrightarrow> plain c \<or> (case c of Ran argv stdin _ \<Rightarrow> argv = restore_argv container DEFAULT_SCRATCH_DATABASE \<and> stdin = Some raw | _ \<Rightarrow> False)"

text \<open>No data before isolation is proved, afterwards only the raw dump and only into that container.\<close>

fun contained :: "string \<Rightarrow> string \<Rightarrow> mask_call list \<Rightarrow> bool" where
  "contained container raw [] \<longleftrightarrow> True"
| "contained container raw (c # cs) \<longleftrightarrow>
     plain c \<and> (if proves_isolation container c then list_all (into_scratch container raw) cs else contained container raw cs)"

lemma plain_into: "list_all plain cs \<Longrightarrow> list_all (into_scratch container raw) cs"
  by (simp add: list_all_iff into_scratch_def)

lemma contained_into: "contained container raw cs \<Longrightarrow> list_all (into_scratch container raw) cs"
  by (induction cs) (auto simp: into_scratch_def split: if_splits)

lemma contained_append: "list_all plain xs \<Longrightarrow> contained container raw ys \<Longrightarrow> contained container raw (xs @ ys)"
  by (induction xs) (auto intro: plain_into contained_into)

lemma contained_plain: "list_all plain xs \<Longrightarrow> contained container raw xs"
  using contained_append [of xs container raw "[]"] by simp

interpretation every: call_monoid "list_all p" for p :: "mask_call \<Rightarrow> bool"
  by unfold_locales auto

abbreviation only :: "(mask_call \<Rightarrow> bool) \<Rightarrow> ('g, 'a) mask_prog \<Rightarrow> bool" where
  "only p \<equiv> emits mw_calls (\<lambda>_. list_all p) (list_all p)"

lemma only_invoke: "(\<And>out. p (Ran argv stdin out)) \<Longrightarrow> only p (invoke ports argv stdin failure)"
  by (rule emits_invoke) auto

lemma only_run_raw: "(\<And>out. p (Ran argv None out)) \<Longrightarrow> only p (run_raw ports argv)"
  by (rule emits_run_raw) auto

lemma only_remaining: "only p (remaining ports deadline)"
  by (rule emits_remaining) auto

definition probing :: "string \<Rightarrow> mask_call \<Rightarrow> bool" where
  "probing container c \<longleftrightarrow> c = Slept \<or> (\<exists>out. c = Ran (probe_argv container DEFAULT_SCRATCH_DATABASE) None out)"

lemma probing_await:
  "only (probing container) (await_scratch_readiness ports container DEFAULT_SCRATCH_DATABASE n)"
proof (induction n)
  case (Suc n)
  have "probing container Slept" "probing container (Ran (probe_argv container DEFAULT_SCRATCH_DATABASE) None out)" for out
    by (simp_all add: probing_def)
  then show ?case unfolding await_scratch_readiness.simps
    by (intro every.bind only_run_raw) (auto intro!: every.sequel every.optional every.ret emits_note Suc.IH split: prod.split)
qed (simp add: every.raise)

lemma only_await: "only plain (await_scratch_readiness ports container DEFAULT_SCRATCH_DATABASE n)"
  by (rule emits_weaken [OF probing_await]) (auto simp: list_all_iff probing_def)

lemma only_apply: "only plain (apply_statements ports container database statements deadline)"
  by (induction statements) (auto intro!: every.sequel every.ret only_remaining only_invoke)

lemma only_mask_in_scratch:
  "only (into_scratch container raw) (mask_in_scratch sha ports DEFAULT_SCRATCH_DATABASE rules statements raw deadline container)"
proof -
  have "only (into_scratch container raw) (apply_statements ports container DEFAULT_SCRATCH_DATABASE statements deadline)"
    using only_apply by (rule emits_weaken) (rule plain_into, simp)+
  then show ?thesis
    unfolding mask_in_scratch_def restore_into_scratch_def introspect_columns_def redump_from_scratch_def
    by (auto intro!: every.sequel every.bind every.ret every.lift only_remaining only_invoke simp: into_scratch_def)
qed

lemma isolation_emits:
  "emits mw_calls (\<lambda>_ cs. \<exists>c. cs = [c] \<and> plain c \<and> proves_isolation container c) (list_all plain) (require_network_isolation ports container)"
  unfolding require_network_isolation_def
  by (rule emits_bind [OF emits_run_raw, where P = "\<lambda>(code, out) cs. cs = [Ran (inspect_argv container) None (Exited code out)]"
        and P' = "\<lambda>(code, out) _ cs. code = 0 \<and> isolated out \<and> cs = []" and E' = "\<lambda>_ cs. cs = []" and E = "list_all plain"])
    (auto intro: emits_ret emits_raise)

text \<open>What one use of the scratch database logs, whatever happens in it.\<close>

definition scratch_log :: "string \<Rightarrow> mask_call list \<Rightarrow> bool" where
  "scratch_log raw cs \<longleftrightarrow> (\<exists>container started work removed.
     cs = Ran (start_argv container DEFAULT_SCRATCH_DATABASE DEFAULT_SCRATCH_IMAGE) None started # work @ [Ran (remove_argv container) None removed] \<and>
     contained container raw work)"

lemma scratch_emits:
  assumes "\<And>container. only (into_scratch container raw) (body container)"
  shows "emits mw_calls (\<lambda>_. scratch_log raw) (scratch_log raw)
    (docker_scratch_database ports DEFAULT_SCRATCH_IMAGE DEFAULT_SCRATCH_DATABASE attempts body)"
proof -
  let ?started = "\<lambda>container cs. \<exists>started work. cs = Ran (start_argv container DEFAULT_SCRATCH_DATABASE DEFAULT_SCRATCH_IMAGE) None started # work \<and>
    contained container raw work"
  let ?work = "\<lambda>container. sthen (await_scratch_readiness ports container DEFAULT_SCRATCH_DATABASE attempts)
    (sthen (require_network_isolation ports container) (body container))"
  have "emits mw_calls (\<lambda>_. contained container raw) (contained container raw)
      (sthen (require_network_isolation ports container) (body container))" for container
    by (rule emits_then [OF isolation_emits assms]) (auto intro: contained_plain)
  then have work: "emits mw_calls (\<lambda>_. contained container raw) (contained container raw) (?work container)" for container
    by (rule emits_then [OF only_await]) (auto intro: contained_append contained_plain)
  have "emits mw_calls (\<lambda>_. ?started container) (?started container)
      (sthen (invoke ports (start_argv container DEFAULT_SCRATCH_DATABASE DEFAULT_SCRATCH_IMAGE) None MaskScratchUnavailable) (?work container))" for container
    by (rule emits_then [OF emits_invoke work, where P = "\<lambda>_ cs. \<exists>out. cs = [Ran (start_argv container DEFAULT_SCRATCH_DATABASE DEFAULT_SCRATCH_IMAGE) None out]"
          and E = "\<lambda>cs. \<exists>out. cs = [Ran (start_argv container DEFAULT_SCRATCH_DATABASE DEFAULT_SCRATCH_IMAGE) None out]"]) auto
  moreover have "emits mw_calls (\<lambda>_ cs. \<exists>out. cs = [Ran (remove_argv container) None out]) (\<lambda>cs. \<exists>out. cs = [Ran (remove_argv container) None out])
      (sthen (run_raw ports (remove_argv container)) (ret ()))" for container
    by (rule emits_then [OF emits_run_raw emits_ret, where P' = "\<lambda>_ cs. cs = []" and E' = "\<lambda>_. False" and
          P = "\<lambda>_ cs. \<exists>out. cs = [Ran (remove_argv container) None out]" and E = "\<lambda>cs. \<exists>out. cs = [Ran (remove_argv container) None out]"]) auto
  ultimately have "emits mw_calls (\<lambda>_. scratch_log raw) (scratch_log raw)
      (finally_do (sthen (invoke ports (start_argv container DEFAULT_SCRATCH_DATABASE DEFAULT_SCRATCH_IMAGE) None MaskScratchUnavailable) (?work container))
        (sthen (run_raw ports (remove_argv container)) (ret ())))" for container
    by (rule emits_finally) (auto simp: scratch_log_def)
  then show ?thesis unfolding docker_scratch_database_def Let_def
    by (rule_tac emits_bind [OF emits_ask, where P = "\<lambda>_ cs. cs = []" and E = "\<lambda>_. False"]) auto
qed

text \<open>The calls of a whole masking run, finished or not.\<close>

definition masking_safe :: "restore_component \<Rightarrow> mask_call list \<Rightarrow> bool" where
  "masking_safe component cs \<longleftrightarrow> cs = [] \<or> cs = [OpenedStaged component None] \<or>
     (\<exists>raw work staged. cs = OpenedStaged component (Some raw) # work @ staged \<and> scratch_log raw work \<and>
        (staged = [] \<or> (\<exists>digest bytes. staged = [StagedBytes digest bytes])))"

lemma stage_emits: "emits mw_calls (\<lambda>_ cs. cs = [StagedBytes digest bytes]) (\<lambda>cs. cs = []) (stage_masked_bytes ports digest bytes)"
  unfolding stage_masked_bytes_def
  by (rule emits_bind [OF emits_ask, where P = "\<lambda>_ cs. cs = []" and E = "\<lambda>_. False" and P' = "\<lambda>_ _ cs. cs = [StagedBytes digest bytes]"
        and E' = "\<lambda>_ cs. cs = []"]) (auto intro: emits_note emits_raise)

lemma open_staged_emits:
  "emits mw_calls (\<lambda>raw cs. cs = [OpenedStaged component (Some raw)]) (\<lambda>cs. cs = [OpenedStaged component None]) (open_staged_bytes ports component)"
  unfolding open_staged_bytes_def
proof (rule emits_bind [OF emits_ask, where P = "\<lambda>_ cs. cs = []" and E = "\<lambda>_. False"])
  show "emits mw_calls (\<lambda>raw cs. cs = [OpenedStaged component (Some raw)]) (\<lambda>cs. cs = [OpenedStaged component None])
      (sthen (note_call (OpenedStaged component r)) (lift_result (of_option MaskPersistence r)))" for r
    by (rule emits_then [OF emits_note emits_lift, where P = "\<lambda>_ cs. cs = [OpenedStaged component r]" and E = "\<lambda>_. False"
          and P' = "\<lambda>raw cs. r = Some raw \<and> cs = []" and E' = "\<lambda>cs. r = None \<and> cs = []"])
      (auto simp: of_option_def split: option.splits)
qed auto

lemma mask_transform_emits:
  "emits mw_calls (\<lambda>_. masking_safe component) (masking_safe component) (mask_transform sha ports timeout component rules)"
proof -
  let ?scratch = "\<lambda>statements raw deadline. docker_scratch_database ports DEFAULT_SCRATCH_IMAGE DEFAULT_SCRATCH_DATABASE READINESS_ATTEMPTS
    (mask_in_scratch sha ports DEFAULT_SCRATCH_DATABASE rules statements raw deadline)"
  let ?staged = "\<lambda>cs. cs = [] \<or> (\<exists>digest bytes. cs = [StagedBytes digest bytes])"
  let ?finished = "\<lambda>raw cs. \<exists>work staged. cs = work @ staged \<and> scratch_log raw work \<and> ?staged staged"
  have finish: "emits mw_calls (\<lambda>_. ?staged) ?staged (sthen (stage_masked_bytes ports digest masked) (lift_result r))" for digest masked
      and r :: "(mask_exn, restore_component) result"
    by (rule emits_then [OF stage_emits emits_lift, where P' = "\<lambda>_ cs. cs = []" and E' = "\<lambda>cs. cs = []"]) auto
  have work: "emits mw_calls (\<lambda>_. ?finished raw) (?finished raw) (sbind (?scratch statements raw deadline)
      (\<lambda>(masked, digest). sthen (stage_masked_bytes ports digest masked) (lift_result (f digest))))" for statements raw deadline and f :: "artifact_digest \<Rightarrow> (mask_exn, restore_component) result"
    by (rule emits_bind [OF scratch_emits [OF only_mask_in_scratch], where P' = "\<lambda>_ _. ?staged" and E' = "\<lambda>_. ?staged"])
      (auto simp: finish split: prod.split)
  have timed: "emits mw_calls (\<lambda>_. ?finished raw) (?finished raw) (sbind (ask (mp_clock ports)) (\<lambda>now. sbind (?scratch statements raw (now + timeout))
      (\<lambda>(masked, digest). sthen (stage_masked_bytes ports digest masked) (lift_result (f digest)))))" for statements raw and f :: "artifact_digest \<Rightarrow> (mask_exn, restore_component) result"
    by (rule emits_bind [OF emits_ask work, where P = "\<lambda>_ cs. cs = []" and E = "\<lambda>_. False"]) auto
  have opened: "emits mw_calls (\<lambda>_. masking_safe component) (masking_safe component) (sbind (open_staged_bytes ports component) (\<lambda>raw.
      sbind (ask (mp_clock ports)) (\<lambda>now. sbind (?scratch statements raw (now + timeout))
      (\<lambda>(masked, digest). sthen (stage_masked_bytes ports digest masked) (lift_result (f digest))))))" for statements and f :: "artifact_digest \<Rightarrow> (mask_exn, restore_component) result"
    by (rule emits_bind [OF open_staged_emits timed]) (auto simp: masking_safe_def)
  have "emits mw_calls (\<lambda>_ cs. cs = []) (\<lambda>cs. cs = []) (lift_result (rmap update_statement rules))" by (rule emits_lift) simp_all
  from emits_bind [OF this opened] show ?thesis
    unfolding mask_transform_def by (rule_tac emits_if) (auto intro!: emits_ret simp: masking_safe_def)
qed

text \<open>
  C7: the raw database stays contained, whatever docker answers and wherever masking stops: no data goes to any
  command before \<open>docker inspect\<close> of the started container has shown it isolated, the raw dump then goes only into that
  container, the last docker command of the run removes it, and nothing is staged before that.
\<close>

theorem masking_contained:
  "\<exists>cs. mw_calls (fst (mask_transform sha ports timeout component rules s)) = mw_calls s @ cs \<and> masking_safe component cs"
  by (rule emits_always) (rule mask_transform_emits)

section \<open>The number of commands\<close>

definition bounded_by :: "nat \<Rightarrow> ('g, 'a) mask_prog \<Rightarrow> bool" where
  "bounded_by n m \<longleftrightarrow> emits mw_calls (\<lambda>_ cs. length cs \<le> n) (\<lambda>cs. length cs \<le> n) m"

lemma bounded_by_bind: assumes "bounded_by n m" "\<And>x. bounded_by k (f x)" shows "bounded_by (n + k) (sbind m f)"
  using assms unfolding bounded_by_def by (rule emits_bind) auto

lemma bounded_by_then: assumes "bounded_by n m" "bounded_by k m'" shows "bounded_by (n + k) (sthen m m')"
  unfolding sthen_def using assms by (rule bounded_by_bind)

lemma bounded_by_finally: assumes "bounded_by n m" "bounded_by k f" shows "bounded_by (n + k) (finally_do m f)"
  using assms unfolding bounded_by_def by (rule emits_finally) auto

lemma bounded_by_weaken: assumes "bounded_by n m" "n \<le> k" shows "bounded_by k m"
  using assms(1) unfolding bounded_by_def by (rule emits_weaken) (use assms(2) in auto)

lemma bounded_by_basic:
  "bounded_by n (ret x)" "bounded_by n (raise_exn e)" "bounded_by n (lift_result r)" "bounded_by n (ask p)" "bounded_by (Suc 0) (note_call c)"
  "bounded_by n (remaining ports deadline)" "bounded_by (Suc 0) (invoke ports argv stdin failure)" "bounded_by (Suc 0) (run_raw ports argv)"
  unfolding bounded_by_def
  by (auto intro: emits_ret emits_raise emits_lift emits_ask emits_note emits_remaining emits_invoke emits_run_raw)

lemma bounded_by_await: "bounded_by (2 * n - 1) (await_scratch_readiness ports container database n)"
proof (induction n)
  case (Suc n)
  have pause: "bounded_by (if 0 < n then 1 else 0) (do_when (0 < n) (note_call Slept))"
    by (cases n) (simp_all add: do_when_def bounded_by_basic)
  have retry: "bounded_by (2 * n) (if code = 0 then ret () else sthen (do_when (0 < n) (note_call Slept)) (await_scratch_readiness ports container database n))"
    for code :: int
    using bounded_by_then [OF pause Suc.IH] by (auto simp: bounded_by_basic elim!: bounded_by_weaken split: if_splits)
  have "bounded_by (Suc 0 + 2 * n) (await_scratch_readiness ports container database (Suc n))"
    unfolding await_scratch_readiness.simps by (rule bounded_by_bind) (auto simp: bounded_by_basic retry split: prod.split)
  then show ?case by simp
qed (simp add: bounded_by_basic)

lemma bounded_by_apply: "bounded_by (length statements) (apply_statements ports container database statements deadline)"
proof (induction statements)
  case (Cons q statements)
  from bounded_by_then [OF bounded_by_basic(6) bounded_by_then [OF bounded_by_basic(7) Cons.IH], of 0] show ?case by simp
qed (simp add: bounded_by_basic)

lemma bounded_by_isolation: "bounded_by (Suc 0) (require_network_isolation ports container)"
  unfolding require_network_isolation_def
  by (rule bounded_by_weaken [OF bounded_by_bind [OF bounded_by_basic(8), where k = 0]]) (auto simp: bounded_by_basic)

lemma bounded_by_mask_in_scratch:
  "bounded_by (length statements + 3) (mask_in_scratch sha ports database rules statements raw deadline container)"
proof -
  have "bounded_by (0 + (Suc 0 + 0)) (restore_into_scratch ports container database raw deadline)"
    "bounded_by (0 + (Suc 0 + 0)) (introspect_columns ports container database rules deadline)"
    "bounded_by (0 + (Suc 0 + 0)) (redump_from_scratch sha ports container database deadline)"
    unfolding restore_into_scratch_def introspect_columns_def redump_from_scratch_def
    by (intro bounded_by_then bounded_by_bind bounded_by_basic)+
  note steps = this
  have "bounded_by ((0 + (Suc 0 + 0)) + ((0 + (Suc 0 + 0)) + (0 + (length statements + (0 + (Suc 0 + 0))))))
      (mask_in_scratch sha ports database rules statements raw deadline container)"
    unfolding mask_in_scratch_def by (intro bounded_by_then bounded_by_bind bounded_by_basic(3) steps bounded_by_apply)
  then show ?thesis by (rule bounded_by_weaken) simp
qed

lemma bounded_by_scratch:
  assumes "\<And>container. bounded_by n (body container)"
  shows "bounded_by (2 * attempts - 1 + n + 3) (docker_scratch_database ports img database attempts body)"
proof -
  have "bounded_by (0 + ((Suc 0 + ((2 * attempts - 1) + (Suc 0 + n))) + (Suc 0 + 0))) (docker_scratch_database ports img database attempts body)"
    unfolding docker_scratch_database_def Let_def
    by (intro bounded_by_bind bounded_by_finally bounded_by_then bounded_by_basic bounded_by_await bounded_by_isolation assms)
  then show ?thesis by (rule bounded_by_weaken) simp
qed

lemma rmap_length: "rmap f xs = Inr ys \<Longrightarrow> length ys = length xs"
  by (induction xs arbitrary: ys) (auto simp: result_iff)

lemma sbind_lift: "sbind (lift_result (Inr x)) f = f x" "sbind (lift_result (Inl e)) f = raise_exn e"
  by (simp_all add: sbind_def lift_result_def raise_exn_def)

lemma bounded_by_mask_transform: "bounded_by (length rules + 127) (mask_transform sha ports timeout component rules)"
proof (cases "rules = [] \<or> rc_kind component \<noteq> DATABASE")
  case False
  show ?thesis
  proof (cases "rmap update_statement rules")
    case (Inl e)
    then show ?thesis using False by (simp add: mask_transform_def sbind_lift bounded_by_basic)
  next
    case (Inr statements)
    let ?stage = "\<lambda>(masked, digest). sthen (stage_masked_bytes ports digest masked)
      (lift_result (case mk_component (rc_kind component) (rc_ref component) (rc_format_version component) digest of
         Inl _ \<Rightarrow> Inl MaskValueError | Inr c \<Rightarrow> Inr c))"
    have opened: "bounded_by (0 + (Suc 0 + 0)) (open_staged_bytes ports component)"
      unfolding open_staged_bytes_def by (intro bounded_by_bind bounded_by_then bounded_by_basic)
    have "bounded_by (0 + Suc 0) (stage_masked_bytes ports digest masked)" for digest masked
      unfolding stage_masked_bytes_def by (intro bounded_by_bind) (auto simp: bounded_by_basic)
    from bounded_by_then [OF this bounded_by_basic(3)] have stage: "bounded_by (0 + Suc 0 + 0) (?stage x)" for x by (cases x) simp
    have "bounded_by (0 + (Suc 0 + 0) + (0 + ((2 * READINESS_ATTEMPTS - 1 + (length statements + 3) + 3) + (0 + Suc 0 + 0))))
        (sbind (open_staged_bytes ports component) (\<lambda>raw. sbind (ask (mp_clock ports)) (\<lambda>now.
         sbind (docker_scratch_database ports DEFAULT_SCRATCH_IMAGE DEFAULT_SCRATCH_DATABASE READINESS_ATTEMPTS
          (mask_in_scratch sha ports DEFAULT_SCRATCH_DATABASE rules statements raw (now + timeout))) ?stage)))"
      by (intro bounded_by_bind opened bounded_by_basic(4) bounded_by_scratch bounded_by_mask_in_scratch stage)
    then have "bounded_by (length rules + 127)
        (sbind (open_staged_bytes ports component) (\<lambda>raw. sbind (ask (mp_clock ports)) (\<lambda>now.
         sbind (docker_scratch_database ports DEFAULT_SCRATCH_IMAGE DEFAULT_SCRATCH_DATABASE READINESS_ATTEMPTS
          (mask_in_scratch sha ports DEFAULT_SCRATCH_DATABASE rules statements raw (now + timeout))) ?stage)))"
      by (rule bounded_by_weaken) (simp add: READINESS_ATTEMPTS_def rmap_length [OF Inr])
    then show ?thesis using False Inr by (simp add: mask_transform_def sbind_lift)
  qed
qed (simp add: mask_transform_def bounded_by_basic)

text \<open>
  C34: masking ends after a bounded number of commands: whatever docker answers, even when the database never
  becomes ready, a run makes at most one call per rule and 127 others, pauses included.
\<close>

theorem masking_terminates:
  "\<exists>cs. mw_calls (fst (mask_transform sha ports timeout component rules s)) = mw_calls s @ cs \<and> length cs \<le> length rules + 127"
  by (rule emits_always) (rule bounded_by_mask_transform [unfolded bounded_by_def])

section \<open>A missing docker\<close>

lemma wp_ask: "wp (ask p) Q R s = (case p (mw_state s) of (g, x) \<Rightarrow> Q x (s\<lparr>mw_state := g\<rparr>))"
  by (simp add: ask_def wp_def split: prod.split)

lemma wp_missing:
  assumes "\<And>argv stdin g. snd (mp_run ports argv stdin g) = NotFound"
  shows "wp (run_command ports argv stdin) (\<lambda>out _. out = NotFound) (\<lambda>_ _. False) s"
  unfolding run_command_def note_call_def using assms [of argv stdin "mw_state s"]
  by (auto simp: wp_bind wp_then wp_ask wp_modify wp_ret split: prod.split)

text \<open>
  When docker is not installed, masking raises the bare \<open>FileNotFoundError\<close>: the removal of the container
  in the \<open>finally\<close> block fails the same way and replaces \<open>MaskBinaryUnavailableError\<close>.
\<close>

theorem docker_missing_is_unmapped:
  assumes missing: "\<And>argv stdin g. snd (mp_run ports argv stdin g) = NotFound" and staged: "\<And>g. snd (mp_open ports component g) = Some raw"
    and rules: "rules \<noteq> []" "rc_kind component = DATABASE" "rmap update_statement rules = Inr statements"
  shows "snd (mask_transform sha ports timeout component rules s) = Inl RawFileNotFound"
proof -
  note run = wp_missing [OF missing]
  have raw: "wp (run_raw ports argv) Q (\<lambda>e _. e = RawFileNotFound) s" for argv s and Q :: "int \<times> string \<Rightarrow> 'a mask_world \<Rightarrow> bool"
    unfolding run_raw_def wp_bind by (rule wp_mono [OF run]) (simp_all add: wp_raise)
  have "wp (docker_scratch_database ports img database attempts body) (\<lambda>_ _. False) (\<lambda>e _. e = RawFileNotFound) s"
    for img database attempts s and body :: "string \<Rightarrow> ('a, string \<times> artifact_digest) mask_prog"
  proof -
    have start: "wp (invoke ports argv None MaskScratchUnavailable) (\<lambda>_ _. False) (\<lambda>_ _. True) s" for argv s
      unfolding invoke_def wp_bind by (rule wp_mono [OF run]) (simp_all add: wp_raise)
    have tidy: "wp (sthen (run_raw ports argv) (ret ())) Q (\<lambda>e _. e = RawFileNotFound) s" for argv s Q
      unfolding wp_then by (rule raw)
    show ?thesis
      unfolding docker_scratch_database_def Let_def wp_bind wp_ask wp_finally wp_then [of "invoke _ _ _ _"]
      by (auto intro!: wp_mono [OF start] tidy split: prod.split)
  qed
  note scratch = this
  have "wp (mask_transform sha ports timeout component rules) (\<lambda>_ _. False) (\<lambda>e _. e = RawFileNotFound) s"
    using rules staged [of "mw_state s"]
    by (auto simp: mask_transform_def open_staged_bytes_def note_call_def wp_bind wp_then wp_lift wp_ask wp_modify of_option_def
        intro!: wp_mono [OF scratch] split: prod.split)
  then show ?thesis by (auto simp: wp_def split: prod.splits sum.splits)
qed

section \<open>A finished run\<close>

text \<open>The commands inside the scratch database, all successful, and what they returned.\<close>

definition masked_work :: "(string \<Rightarrow> string) \<Rightarrow> string \<Rightarrow> anonymization_rule list \<Rightarrow> string list \<Rightarrow> string \<Rightarrow> string \<times> artifact_digest \<Rightarrow> mask_call list \<Rightarrow> bool" where
  "masked_work sha raw rules statements container x cs \<longleftrightarrow> (\<exists>restored rows facts outs.
     cs = [Ran (restore_argv container DEFAULT_SCRATCH_DATABASE) (Some raw) (Exited 0 restored),
           Ran (introspect_argv container DEFAULT_SCRATCH_DATABASE rules) None (Exited 0 rows)] @
          map2 (\<lambda>statement out. Ran (update_argv container DEFAULT_SCRATCH_DATABASE statement) None (Exited 0 out)) statements outs @
          [Ran (dump_argv container DEFAULT_SCRATCH_DATABASE) None (Exited 0 (fst x))] \<and>
     length outs = length statements \<and> parse_facts [] (py_lines [] rows) = Inr facts \<and> require_maskable facts rules = Inr () \<and>
     mk_digest ''sha256'' (sha (fst x)) = Inr (snd x))"

definition scratch_run :: "(string \<Rightarrow> string) \<Rightarrow> string \<Rightarrow> anonymization_rule list \<Rightarrow> string list \<Rightarrow> string \<times> artifact_digest \<Rightarrow> mask_call list \<Rightarrow> bool" where
  "scratch_run sha raw rules statements x cs \<longleftrightarrow> (\<exists>container started probes networks work removed.
     cs = Ran (start_argv container DEFAULT_SCRATCH_DATABASE DEFAULT_SCRATCH_IMAGE) None (Exited 0 started) # probes @
          Ran (inspect_argv container) None (Exited 0 networks) # work @ [Ran (remove_argv container) None removed] \<and>
     list_all (probing container) probes \<and> isolated networks \<and> masked_work sha raw rules statements container x work)"

text \<open>A program specified by what it logs when it returns.\<close>

abbreviation yields :: "('a \<Rightarrow> mask_call list \<Rightarrow> bool) \<Rightarrow> ('g, 'a) mask_prog \<Rightarrow> bool" where
  "yields P \<equiv> emits mw_calls P (\<lambda>_. True)"

lemma yields_bind:
  assumes "yields P m" "\<And>x. yields (P' x) (f x)" "\<And>x xs y ys. P x xs \<Longrightarrow> P' x y ys \<Longrightarrow> Q y (xs @ ys)"
  shows "yields Q (sbind m f)"
  using assms by (rule emits_bind) simp_all

lemma yields_then:
  assumes "yields P m" "yields P' k" "\<And>x xs y ys. P x xs \<Longrightarrow> P' y ys \<Longrightarrow> Q y (xs @ ys)"
  shows "yields Q (sthen m k)"
  using assms by (rule emits_then) simp_all

lemma yields_silently:
  "yields (\<lambda>_ cs. cs = []) (ask p)" "yields (\<lambda>_ cs. cs = []) (remaining ports deadline)" "yields (\<lambda>y cs. y = x \<and> cs = []) (ret x)"
  "yields (\<lambda>x cs. r = Inr x \<and> cs = []) (lift_result r)"
  by (auto intro: emits_ask emits_remaining emits_ret emits_lift)

lemma yields_command:
  "yields (\<lambda>out cs. cs = [Ran argv stdin (Exited 0 out)]) (invoke ports argv stdin failure)"
  by (auto intro: emits_invoke)

lemma yields_in_time:
  assumes "yields P m" shows "yields P (sthen (remaining ports deadline) m)"
  by (rule yields_then [OF yields_silently(2) assms]) simp

lemma apply_trace:
  "yields (\<lambda>_ cs. \<exists>outs. cs = map2 (\<lambda>statement out. Ran (update_argv container database statement) None (Exited 0 out)) statements outs \<and>
     length outs = length statements) (apply_statements ports container database statements deadline)"
proof (induction statements)
  case (Cons q statements)
  let ?log = "\<lambda>statements cs. \<exists>outs. cs = map2 (\<lambda>statement out. Ran (update_argv container database statement) None (Exited 0 out)) statements outs \<and>
     length outs = length statements"
  have cons: "?log (q # statements) (Ran (update_argv container database q) None (Exited 0 out) # cs)" if log: "?log statements cs" for out cs
  proof -
    from log obtain outs where "cs = map2 (\<lambda>statement out. Ran (update_argv container database statement) None (Exited 0 out)) statements outs"
      "length outs = length statements" by blast
    then show ?thesis by (intro exI [of _ "out # outs"]) simp
  qed
  show ?case unfolding apply_statements.simps
    by (rule yields_in_time, rule yields_then [OF yields_command Cons.IH]) (drule cons, simp)
qed (auto intro: emits_ret)

lemma redump_trace:
  "yields (\<lambda>x cs. cs = [Ran (dump_argv container database) None (Exited 0 (fst x))] \<and> mk_digest ''sha256'' (sha (fst x)) = Inr (snd x))
     (redump_from_scratch sha ports container database deadline)"
  unfolding redump_from_scratch_def
  by (rule yields_in_time, rule yields_bind [OF yields_command yields_silently(4)]) (auto split: sum.splits)

lemma introspect_trace:
  "yields (\<lambda>facts cs. \<exists>rows. cs = [Ran (introspect_argv container database rules) None (Exited 0 rows)] \<and> parse_facts [] (py_lines [] rows) = Inr facts)
     (introspect_columns ports container database rules deadline)"
  unfolding introspect_columns_def
  by (rule yields_in_time, rule yields_bind [OF yields_command yields_silently(4)]) auto

lemma restore_trace:
  "yields (\<lambda>_ cs. \<exists>restored. cs = [Ran (restore_argv container database) (Some raw) (Exited 0 restored)])
     (restore_into_scratch ports container database raw deadline)"
  unfolding restore_into_scratch_def
  by (rule yields_in_time, rule yields_then [OF yields_command yields_silently(3)]) auto

lemma work_trace:
  "yields (masked_work sha raw rules statements container)
     (mask_in_scratch sha ports DEFAULT_SCRATCH_DATABASE rules statements raw deadline container)"
proof -
  let ?updates = "\<lambda>outs. map2 (\<lambda>statement out. Ran (update_argv container DEFAULT_SCRATCH_DATABASE statement) None (Exited 0 out)) statements outs"
  let ?dump = "\<lambda>x. [Ran (dump_argv container DEFAULT_SCRATCH_DATABASE) None (Exited 0 (fst x))]"
  have "yields (\<lambda>x cs. \<exists>outs. cs = ?updates outs @ ?dump x \<and> length outs = length statements \<and> mk_digest ''sha256'' (sha (fst x)) = Inr (snd x))
      (sthen (apply_statements ports container DEFAULT_SCRATCH_DATABASE statements deadline)
        (redump_from_scratch sha ports container DEFAULT_SCRATCH_DATABASE deadline))"
    by (rule yields_then [OF apply_trace redump_trace]) blast
  then have "yields (\<lambda>x cs. \<exists>outs. cs = ?updates outs @ ?dump x \<and> length outs = length statements \<and> mk_digest ''sha256'' (sha (fst x)) = Inr (snd x) \<and>
        require_maskable facts rules = Inr ())
      (sthen (lift_result (require_maskable facts rules)) (sthen (apply_statements ports container DEFAULT_SCRATCH_DATABASE statements deadline)
        (redump_from_scratch sha ports container DEFAULT_SCRATCH_DATABASE deadline)))" for facts
    by (rule yields_then [OF yields_silently(4)]) simp
  then have "yields (\<lambda>x cs. \<exists>rows facts outs. cs = Ran (introspect_argv container DEFAULT_SCRATCH_DATABASE rules) None (Exited 0 rows) # ?updates outs @ ?dump x \<and>
        length outs = length statements \<and> mk_digest ''sha256'' (sha (fst x)) = Inr (snd x) \<and>
        parse_facts [] (py_lines [] rows) = Inr facts \<and> require_maskable facts rules = Inr ())
      (sbind (introspect_columns ports container DEFAULT_SCRATCH_DATABASE rules deadline) (\<lambda>facts.
        sthen (lift_result (require_maskable facts rules)) (sthen (apply_statements ports container DEFAULT_SCRATCH_DATABASE statements deadline)
        (redump_from_scratch sha ports container DEFAULT_SCRATCH_DATABASE deadline))))"
    by (rule yields_bind [OF introspect_trace]) fastforce
  then show ?thesis unfolding mask_in_scratch_def
    by (rule yields_then [OF restore_trace]) (fastforce simp: masked_work_def)
qed

lemma scratch_trace:
  "yields (scratch_run sha raw rules statements)
     (docker_scratch_database ports DEFAULT_SCRATCH_IMAGE DEFAULT_SCRATCH_DATABASE attempts
       (mask_in_scratch sha ports DEFAULT_SCRATCH_DATABASE rules statements raw deadline))"
proof -
  let ?start = "\<lambda>container. start_argv container DEFAULT_SCRATCH_DATABASE DEFAULT_SCRATCH_IMAGE"
  let ?isolated = "\<lambda>container x cs. \<exists>networks work. cs = Ran (inspect_argv container) None (Exited 0 networks) # work \<and> isolated networks \<and>
    masked_work sha raw rules statements container x work"
  let ?ready = "\<lambda>container x cs. \<exists>probes rest. cs = probes @ rest \<and> list_all (probing container) probes \<and> ?isolated container x rest"
  let ?all = "\<lambda>container x cs. \<exists>started rest. cs = Ran (?start container) None (Exited 0 started) # rest \<and> ?ready container x rest"
  have inspect: "yields (\<lambda>_ cs. \<exists>networks. cs = [Ran (inspect_argv container) None (Exited 0 networks)] \<and> isolated networks)
      (require_network_isolation ports container)" for container
    unfolding require_network_isolation_def
    by (rule emits_bind [OF emits_run_raw, where P = "\<lambda>(code, out) cs. cs = [Ran (inspect_argv container) None (Exited code out)]"
          and P' = "\<lambda>(code, out) _ cs. code = 0 \<and> isolated out \<and> cs = []" and E' = "\<lambda>_ _. True" and E = "\<lambda>_. True"])
      (auto intro: emits_ret emits_raise)
  have "yields (?isolated container) (sthen (require_network_isolation ports container)
      (mask_in_scratch sha ports DEFAULT_SCRATCH_DATABASE rules statements raw deadline container))" for container
    by (rule yields_then [OF inspect work_trace]) auto
  moreover have "yields (\<lambda>_. list_all (probing container)) (await_scratch_readiness ports container DEFAULT_SCRATCH_DATABASE attempts)" for container
    by (rule emits_weaken [OF probing_await]) simp_all
  ultimately have "yields (?ready container) (sthen (await_scratch_readiness ports container DEFAULT_SCRATCH_DATABASE attempts)
      (sthen (require_network_isolation ports container)
      (mask_in_scratch sha ports DEFAULT_SCRATCH_DATABASE rules statements raw deadline container)))" for container
    by (rule_tac yields_then) blast+
  then have "yields (?all container) (sthen (invoke ports (?start container) None MaskScratchUnavailable)
      (sthen (await_scratch_readiness ports container DEFAULT_SCRATCH_DATABASE attempts) (sthen (require_network_isolation ports container)
      (mask_in_scratch sha ports DEFAULT_SCRATCH_DATABASE rules statements raw deadline container))))" for container
    by (rule yields_then [OF yields_command]) auto
  moreover have "yields (\<lambda>_ cs. \<exists>removed. cs = [Ran (remove_argv container) None removed]) (sthen (run_raw ports (remove_argv container)) (ret ()))" for container
    by (rule yields_then [OF emits_run_raw yields_silently(3), where P = "\<lambda>_ cs. \<exists>removed. cs = [Ran (remove_argv container) None removed]"]) auto
  ultimately have "yields (scratch_run sha raw rules statements) (finally_do (sthen (invoke ports (?start container) None MaskScratchUnavailable)
      (sthen (await_scratch_readiness ports container DEFAULT_SCRATCH_DATABASE attempts) (sthen (require_network_isolation ports container)
      (mask_in_scratch sha ports DEFAULT_SCRATCH_DATABASE rules statements raw deadline container))))
      (sthen (run_raw ports (remove_argv container)) (ret ())))" for container
    by (rule emits_finally) (fastforce simp: scratch_run_def)+
  then show ?thesis unfolding docker_scratch_database_def Let_def
    by (rule_tac yields_bind [OF yields_silently(1)]) auto
qed

text \<open>The calls of a masking run that returned \<open>result\<close>.\<close>

definition masking_run :: "(string \<Rightarrow> string) \<Rightarrow> restore_component \<Rightarrow> anonymization_rule list \<Rightarrow> restore_component \<Rightarrow> mask_call list \<Rightarrow> bool" where
  "masking_run sha component rules result cs \<longleftrightarrow> (\<exists>raw statements bytes work.
     cs = OpenedStaged component (Some raw) # work @ [StagedBytes (rc_digest result) bytes] \<and> rmap update_statement rules = Inr statements \<and>
     scratch_run sha raw rules statements (bytes, rc_digest result) work \<and> result = component\<lparr>rc_digest := rc_digest result\<rparr>)"

lemma mask_transform_trace:
  assumes "rules \<noteq> []" "rc_kind component = DATABASE"
  shows "yields (masking_run sha component rules) (mask_transform sha ports timeout component rules)"
proof -
  let ?stage = "\<lambda>digest masked. sthen (stage_masked_bytes ports digest masked)
    (lift_result (case mk_component DATABASE (rc_ref component) (rc_format_version component) digest of
         Inl _ \<Rightarrow> Inl MaskValueError | Inr c \<Rightarrow> Inr c))"
  have staged: "yields (\<lambda>_ cs. cs = [StagedBytes digest masked]) (stage_masked_bytes ports digest masked)" for digest masked
    by (rule emits_weaken [OF stage_emits]) simp_all
  have component: "c = component\<lparr>rc_digest := digest\<rparr>" if "mk_component DATABASE (rc_ref component) (rc_format_version component) digest = Inr c" for c digest
    using that assms(2) by (cases component) (auto simp: mk_component_def result_iff split: if_splits)
  have finish: "yields (\<lambda>c cs. cs = [StagedBytes digest masked] \<and> c = component\<lparr>rc_digest := digest\<rparr>) (?stage digest masked)" for digest masked
    by (rule yields_then [OF staged yields_silently(4)]) (auto dest: component split: sum.splits)
  let ?inner = "\<lambda>raw statements c cs. \<exists>bytes work. cs = work @ [StagedBytes (rc_digest c) bytes] \<and>
    scratch_run sha raw rules statements (bytes, rc_digest c) work \<and> c = component\<lparr>rc_digest := rc_digest c\<rparr>"
  have work: "yields (?inner raw statements) (sbind (docker_scratch_database ports DEFAULT_SCRATCH_IMAGE DEFAULT_SCRATCH_DATABASE READINESS_ATTEMPTS
      (mask_in_scratch sha ports DEFAULT_SCRATCH_DATABASE rules statements raw deadline)) (\<lambda>(masked, digest). ?stage digest masked))" for raw statements deadline
    by (rule yields_bind [OF scratch_trace, where P' = "\<lambda>(masked, digest) c cs. cs = [StagedBytes digest masked] \<and> c = component\<lparr>rc_digest := digest\<rparr>"])
      (auto simp: finish split: prod.split)
  have opened: "yields (\<lambda>raw cs. cs = [OpenedStaged component (Some raw)]) (open_staged_bytes ports component)"
    by (rule emits_weaken [OF open_staged_emits]) simp_all
  have "yields (?inner raw statements) (sbind (ask (mp_clock ports)) (\<lambda>now. sbind (docker_scratch_database ports DEFAULT_SCRATCH_IMAGE DEFAULT_SCRATCH_DATABASE READINESS_ATTEMPTS
      (mask_in_scratch sha ports DEFAULT_SCRATCH_DATABASE rules statements raw (now + timeout))) (\<lambda>(masked, digest). ?stage digest masked)))" for raw statements
    by (rule yields_bind [OF yields_silently(1) work]) simp
  then have "yields (\<lambda>c cs. \<exists>raw ds. cs = OpenedStaged component (Some raw) # ds \<and> ?inner raw statements c ds) (sbind (open_staged_bytes ports component) (\<lambda>raw.
      sbind (ask (mp_clock ports)) (\<lambda>now. sbind (docker_scratch_database ports DEFAULT_SCRATCH_IMAGE DEFAULT_SCRATCH_DATABASE READINESS_ATTEMPTS
      (mask_in_scratch sha ports DEFAULT_SCRATCH_DATABASE rules statements raw (now + timeout))) (\<lambda>(masked, digest). ?stage digest masked))))" for statements
    by (rule yields_bind [OF opened]) simp
  note whole = yields_bind [OF yields_silently(4) this]
  show ?thesis using assms unfolding mask_transform_def by simp (rule whole, auto simp: masking_run_def)
qed

text \<open>
  C12: a masking run that succeeds did all of its work: on a fresh isolated container it restored the staged bytes,
  found every rule applicable to the schema it read back, ran one successful \<open>UPDATE\<close> per rule in order,
  staged exactly the bytes it dumped afterwards, and returned the component with their SHA-256; with no rules, or
  for a component that is not a database, it did nothing.
\<close>

theorem masking_does_the_work:
  assumes "mask_transform sha ports timeout component rules s = (s', Inr result)"
  shows "if rules = [] \<or> rc_kind component \<noteq> DATABASE then s' = s \<and> result = component
    else \<exists>cs. mw_calls s' = mw_calls s @ cs \<and> masking_run sha component rules result cs"
proof (cases "rules = [] \<or> rc_kind component \<noteq> DATABASE")
  case False
  then have "yields (masking_run sha component rules) (mask_transform sha ports timeout component rules)"
    by (intro mask_transform_trace) auto
  from wp_result [OF emitsD [OF this] assms] False show ?thesis by (auto simp: added_def)
qed (use assms in \<open>auto simp: mask_transform_def ret_def\<close>)

section \<open>A concrete run\<close>

definition demo_rule :: anonymization_rule where
  "demo_rule = \<lparr>ru_table = ''t'', ru_column = ''c'', ru_mask_strategy = NULLIFY, ru_static_value = None\<rparr>"

definition demo_database :: restore_component where
  "demo_database = \<lparr>rc_kind = DATABASE, rc_ref = ''a'', rc_format_version = ''1'', rc_digest = \<lparr>dg_algorithm = ''sha256'', dg_value = []\<rparr>\<rparr>"

definition demo_docker :: "string list \<Rightarrow> run_outcome" where
  "demo_docker argv = Exited 0 (if argv ! 1 = ''inspect'' then ''none'' else if last (butlast argv) = ''-tAc'' then ''t|c|text|YES|f'' else ''dump'')"

definition demo_mask_ports :: "unit mask_ports" where
  "demo_mask_ports = \<lparr>mp_run = (\<lambda>argv _ g. (g, demo_docker argv)), mp_clock = (\<lambda>g. (g, 0)), mp_uuid = (\<lambda>g. (g, ''u'')),
     mp_open = (\<lambda>_ g. (g, Some ''raw'')), mp_stage = (\<lambda>_ _ g. (g, True))\<rparr>"

definition demo_sha :: "string \<Rightarrow> string" where
  "demo_sha bytes = replicate 64 CHR ''a''"

text \<open>A program that returns a value in every state.\<close>

definition gives :: "('g, 'a) mask_prog \<Rightarrow> 'a \<Rightarrow> bool" where
  "gives m x \<longleftrightarrow> (\<forall>s. \<exists>s'. m s = (s', Inr x))"

lemma gives_bind: "gives m x \<Longrightarrow> gives (f x) y \<Longrightarrow> gives (sbind m f) y"
  unfolding gives_def sbind_def by (metis (no_types, lifting) old.prod.case old.sum.simps(6))

lemma gives_then: "gives m x \<Longrightarrow> gives k y \<Longrightarrow> gives (sthen m k) y"
  unfolding sthen_def by (rule gives_bind)

lemma gives_finally: "gives m x \<Longrightarrow> gives f () \<Longrightarrow> gives (finally_do m f) x"
  unfolding gives_def finally_do_def by (metis (no_types, lifting) old.prod.case old.sum.simps(6))

lemma gives_basic: "gives (ret x) x" "gives (lift_result (Inr x)) x" "gives (note_call c) ()"
  by (simp_all add: gives_def ret_def lift_result_def note_call_def modify_def)

lemma demo_steps:
  "demo_docker argv = Exited 0 out \<Longrightarrow> gives (invoke demo_mask_ports argv stdin failure) out"
  "demo_docker argv = Exited 0 out \<Longrightarrow> gives (run_raw demo_mask_ports argv) (0, out)"
  "0 < deadline \<Longrightarrow> gives (remaining demo_mask_ports deadline) ()"
  "gives (ask (mp_clock demo_mask_ports)) 0" "gives (ask (mp_uuid demo_mask_ports)) ''u''" "gives (ask (mp_open demo_mask_ports c)) (Some ''raw'')"
  "gives (ask (mp_stage demo_mask_ports digest bytes)) True"
  by (simp_all add: gives_def invoke_def run_raw_def remaining_def run_command_def ask_def note_call_def demo_mask_ports_def
      sbind_def sthen_def modify_def ret_def)

lemma demo_facts:
  "parse_facts [] (py_lines [] ''t|c|text|YES|f'') = Inr [((''t'', ''c''), \<lparr>cf_data_type = ''text'', cf_is_unique = False, cf_is_nullable = True\<rparr>)]"
  "require_maskable [((''t'', ''c''), \<lparr>cf_data_type = ''text'', cf_is_unique = False, cf_is_nullable = True\<rparr>)] [demo_rule] = Inr ()"
  "isolated ''none''" "mk_digest ''sha256'' (demo_sha bytes) = Inr \<lparr>dg_algorithm = ''sha256'', dg_value = demo_sha bytes\<rparr>"
  "\<exists>sql. update_statement demo_rule = Inr sql"
proof -
  show "parse_facts [] (py_lines [] ''t|c|text|YES|f'') = Inr [((''t'', ''c''), \<lparr>cf_data_type = ''text'', cf_is_unique = False, cf_is_nullable = True\<rparr>)]"
    by code_simp
  show "require_maskable [((''t'', ''c''), \<lparr>cf_data_type = ''text'', cf_is_unique = False, cf_is_nullable = True\<rparr>)] [demo_rule] = Inr ()"
    by (simp add: demo_rule_def)
  show "isolated ''none''" by code_simp
  show "mk_digest ''sha256'' (demo_sha bytes) = Inr \<lparr>dg_algorithm = ''sha256'', dg_value = demo_sha bytes\<rparr>"
    by (simp add: mk_digest_def digest_length_def demo_sha_def fullmatch_plus_cls hex_char_def in_range_def cp_def)
  show "\<exists>sql. update_statement demo_rule = Inr sql"
    unfolding update_statement_def quote_identifier_def SQL_IDENTIFIER_def fullmatch_anchored fullmatch_plus_cls
    by (simp add: demo_rule_def identifier_char_def in_range_def cp_def)
qed

lemma demo_component: "mk_component DATABASE ''a'' ''1'' digest = Inr (demo_database\<lparr>rc_digest := digest\<rparr>)"
proof -
  have "opaque_ok ''a''" by code_simp
  moreover have "\<not> list_ex py_isspace ''a''" by code_simp
  ultimately have "require_opaque_identifier ''a'' field = Inr ''a''" for field
    unfolding require_opaque_identifier_def require_safe_opaque_identifier_def by (simp only: if_True if_False simp_thms)
  moreover have "\<not> re_search SECRET_OR_CONNECTION_TEXT ''1''" by code_simp
  ultimately show ?thesis by (simp add: mk_component_def demo_database_def)
qed

lemma demo_masking:
  "\<exists>s'. mask_transform demo_sha demo_mask_ports 60 demo_database [demo_rule] \<lparr>mw_state = (), mw_calls = []\<rparr> =
     (s', Inr (demo_database\<lparr>rc_digest := \<lparr>dg_algorithm = ''sha256'', dg_value = demo_sha ''dump''\<rparr>\<rparr>))"
proof -
  have attempts: "READINESS_ATTEMPTS = Suc 59" by (simp add: READINESS_ATTEMPTS_def)
  have docker: "demo_docker (start_argv c d i) = Exited 0 ''dump''" "demo_docker (inspect_argv c) = Exited 0 ''none''"
    "demo_docker (restore_argv c d) = Exited 0 ''dump''" "demo_docker (introspect_argv c d rules) = Exited 0 ''t|c|text|YES|f''"
    "demo_docker (dump_argv c d) = Exited 0 ''dump''" for c d i rules
    by (simp_all add: demo_docker_def start_argv_def inspect_argv_def restore_argv_def introspect_argv_def dump_argv_def)
  obtain sql where sql: "update_statement demo_rule = Inr sql" using demo_facts(5) by blast
  have probe: "demo_docker (probe_argv c d) = Exited 0 ''t|c|text|YES|f''" for c d
    by (simp add: demo_docker_def probe_argv_def)
  have update: "demo_docker (update_argv c d q) = Exited 0 ''dump''" "demo_docker (remove_argv c) = Exited 0 ''dump''" for c d q
    by (simp_all add: demo_docker_def update_argv_def remove_argv_def)
  let ?digest = "\<lparr>dg_algorithm = ''sha256'', dg_value = demo_sha ''dump''\<rparr>"
  have applied: "gives (apply_statements demo_mask_ports c d [sql] 60) ()" for c d
    by (auto intro!: gives_then gives_basic demo_steps update)
  have dump: "gives (redump_from_scratch demo_sha demo_mask_ports c d 60) (''dump'', ?digest)" for c d
    unfolding redump_from_scratch_def
    by (rule gives_then [OF demo_steps(3)], simp, rule gives_bind [OF demo_steps(1) [OF docker(5)]]) (simp add: demo_facts gives_basic)
  have facts: "gives (introspect_columns demo_mask_ports c d [demo_rule] 60)
      [((''t'', ''c''), \<lparr>cf_data_type = ''text'', cf_is_unique = False, cf_is_nullable = True\<rparr>)]" for c d
    unfolding introspect_columns_def
    by (rule gives_then [OF demo_steps(3)], simp, rule gives_bind [OF demo_steps(1) [OF docker(4)]]) (simp only: demo_facts gives_basic)
  have restored: "gives (restore_into_scratch demo_mask_ports c d raw 60) ()" for c d raw
    unfolding restore_into_scratch_def
    by (rule gives_then [OF demo_steps(3)], simp, rule gives_then [OF demo_steps(1) [OF docker(3)] gives_basic(1)])
  have work: "gives (mask_in_scratch demo_sha demo_mask_ports d [demo_rule] [sql] raw 60 c) (''dump'', ?digest)" for c d raw
    unfolding mask_in_scratch_def
    by (rule gives_then [OF restored], rule gives_bind [OF facts], unfold demo_facts(2)) (rule gives_then [OF gives_basic(2) gives_then [OF applied dump]])
  have await: "gives (await_scratch_readiness demo_mask_ports c d READINESS_ATTEMPTS) ()" for c d
    unfolding attempts await_scratch_readiness.simps by (rule gives_bind [OF demo_steps(2) [OF probe]]) (simp add: gives_basic)
  have isolation: "gives (require_network_isolation demo_mask_ports c) ()" for c
    unfolding require_network_isolation_def by (rule gives_bind [OF demo_steps(2) [OF docker(2)]]) (simp add: demo_facts gives_basic)
  have scratch: "gives (docker_scratch_database demo_mask_ports i d READINESS_ATTEMPTS (mask_in_scratch demo_sha demo_mask_ports d [demo_rule] [sql] raw 60))
      (''dump'', ?digest)" for i d raw
    unfolding docker_scratch_database_def Let_def
    by (rule gives_bind [OF demo_steps(5)], rule gives_finally)
      (rule gives_then [OF demo_steps(1) [OF docker(1)] gives_then [OF await gives_then [OF isolation work]]],
       rule gives_then [OF demo_steps(2) [OF update(2)] gives_basic(1)])
  have staged: "gives (stage_masked_bytes demo_mask_ports digest bytes) ()" for digest bytes
    unfolding stage_masked_bytes_def by (rule gives_bind [OF demo_steps(7)]) (simp add: gives_basic)
  have opened: "gives (open_staged_bytes demo_mask_ports c) ''raw''" for c
    unfolding open_staged_bytes_def
    by (rule gives_bind [OF demo_steps(6)], rule gives_then [OF gives_basic(3)]) (simp add: of_option_def gives_basic)
  have "gives (mask_transform demo_sha demo_mask_ports 60 demo_database [demo_rule]) (demo_database\<lparr>rc_digest := ?digest\<rparr>)"
  proof -
    have statements: "rmap update_statement [demo_rule] = Inr [sql]" by (simp add: sql)
    have kind: "\<not> ([demo_rule] = [] \<or> rc_kind demo_database \<noteq> DATABASE)" and fields: "mk_component (rc_kind demo_database)
        (rc_ref demo_database) (rc_format_version demo_database) digest = Inr (demo_database\<lparr>rc_digest := digest\<rparr>)" for digest
      using demo_component by (simp_all add: demo_database_def)
    show ?thesis unfolding mask_transform_def if_not_P [OF kind] statements fields
      by (rule gives_bind [OF gives_basic(2)], rule gives_bind [OF opened], rule gives_bind [OF demo_steps(4)], unfold add_0)
        (rule gives_bind [OF scratch], simp add: gives_then [OF staged] gives_basic)
  qed
  then show ?thesis by (simp add: gives_def)
qed

theorem masking_does_the_work_witness:
  "\<exists>s' result. mask_transform demo_sha demo_mask_ports 60 demo_database [demo_rule] \<lparr>mw_state = (), mw_calls = []\<rparr> = (s', Inr result) \<and>
     masking_run demo_sha demo_database [demo_rule] result (mw_calls s')"
proof -
  obtain s' result where run: "mask_transform demo_sha demo_mask_ports 60 demo_database [demo_rule] \<lparr>mw_state = (), mw_calls = []\<rparr> = (s', Inr result)"
    using demo_masking by blast
  from masking_does_the_work [OF run] run show ?thesis by (auto simp: demo_database_def)
qed

end
